(* ===== verification/Prelude.thy ===== *)
theory Prelude
  imports Main
begin

text \<open>
  The prelude of the CloudVault development: the result type of a fallible operation, the
  named collections the component theories feed and use, and the generic facts on lists and
  options that more than one component needs.

  A Go function that returns \<open>(T, error)\<close> and acts on the services is a HOL function into
  \<open>'t result \<times> 'w\<close>: \<open>Inl\<close> is the non-nil error, \<open>Inr\<close> the value, and the second component
  is the state of the services afterwards. An error does not undo the state changes made
  before it: the code runs no transactions.
\<close>

section \<open>Errors and results\<close>

datatype err =
    RecordNotFound          \<comment> \<open>\<open>gorm.ErrRecordNotFound\<close>\<close>
  | ConstraintErr           \<comment> \<open>a statement refused by a unique index or a foreign key\<close>
  | ServiceErr              \<comment> \<open>any other failure of MySQL, Redis, MinIO, RabbitMQ\<close>
  | RedisNil                \<comment> \<open>\<open>redis.Nil\<close>\<close>
  | DecodeErr               \<comment> \<open>\<open>json.Unmarshal\<close> failed\<close>
  | HTTPStatusError int     \<comment> \<open>\<open>service.HTTPStatusError\<close>\<close>
  | ContextErr              \<comment> \<open>\<open>context.Canceled\<close> or \<open>context.DeadlineExceeded\<close>\<close>
  | Errorf string           \<comment> \<open>\<open>errors.New\<close> and \<open>fmt.Errorf\<close>\<close>

type_synonym 'a result = "err + 'a"

named_theorems frame \<open>what an operation leaves unchanged\<close>
named_theorems svc \<open>definitions of the service primitives\<close>

text \<open>
  A step that stops at the first error: what is known when it returned. Proofs walk through an
  operation with \<open>elim seqE if_eqE\<close>, one goal per way out.
\<close>

lemma seqE:
  assumes "(case p of (Inl err, w) \<Rightarrow> (Inl err, w) | (Inr x, w) \<Rightarrow> g x w) = (r, w')"
  obtains err where "p = (Inl err, w')" "r = Inl err"
  | x w1 where "p = (Inr x, w1)" "g x w1 = (r, w')"
  using assms by (auto split: prod.splits sum.splits)

lemma stepE:
  assumes "(case p of (Inl err, w) \<Rightarrow> h err w | (Inr x, w) \<Rightarrow> g x w) = y"
  obtains err w1 where "p = (Inl err, w1)" "h err w1 = y"
  | x w1 where "p = (Inr x, w1)" "g x w1 = y"
  using assms by (auto split: prod.splits sum.splits)

lemma if_eqE:
  assumes "(if c then a else b) = x"
  obtains "c" "a = x" | "\<not> c" "b = x"
  using assms by (auto split: if_splits)

lemmas result_splits = sum.splits prod.splits option.splits if_splits

section \<open>Machine integers\<close>

text \<open>Go's \<open>int64\<close> addition wraps around; values are kept as \<open>int\<close> in the signed range.\<close>

definition wrap64 :: "int \<Rightarrow> int" where
  "wrap64 x = (x + 2 ^ 63) mod 2 ^ 64 - 2 ^ 63"

definition int64_range :: "int \<Rightarrow> bool" where
  "int64_range x \<longleftrightarrow> - (2 ^ 63) \<le> x \<and> x < 2 ^ 63"

lemma wrap64_id [simp]: "int64_range x \<Longrightarrow> wrap64 x = x"
  by (simp add: wrap64_def int64_range_def)

lemma wrap64_range [simp]: "int64_range (wrap64 x)"
proof -
  have "0 \<le> (x + 2 ^ 63) mod 2 ^ 64" and "(x + 2 ^ 63) mod 2 ^ 64 < (2 ^ 64 :: int)"
    by (rule pos_mod_sign pos_mod_bound, simp)+
  then show ?thesis unfolding wrap64_def int64_range_def by simp
qed

lemma wrap64_add: "wrap64 (wrap64 x + y) = wrap64 (x + y)"
  unfolding wrap64_def by (simp add: mod_simps algebra_simps)

section \<open>Lists of rows\<close>

text \<open>An SQL update rewrites the rows that match and leaves the others.\<close>

abbreviation update_where :: "('a \<Rightarrow> bool) \<Rightarrow> ('a \<Rightarrow> 'a) \<Rightarrow> 'a list \<Rightarrow> 'a list" where
  "update_where p f \<equiv> map (\<lambda>r. if p r then f r else r)"

lemma map_update_where [simp]:
  "(\<And>r. k (f r) = k r) \<Longrightarrow> map k (update_where p f rs) = map k rs"
  by (induction rs) auto

lemma comp_update_where [simp]:
  "(\<And>r. k (f r) = k r) \<Longrightarrow> k \<circ> (\<lambda>r. if p r then f r else r) = k"
  by (auto simp: fun_eq_iff)

lemma set_update_where:
  "set (update_where p f rs) = {r \<in> set rs. \<not> p r} \<union> f ` {r \<in> set rs. p r}"
  by auto

lemma filter_update_where_same:
  "(\<And>r. q (f r) = q r) \<Longrightarrow> length (filter q (update_where p f rs)) = length (filter q rs)"
  by (induction rs) auto

lemma update_where_none [simp]: "\<forall>r\<in>set rs. \<not> p r \<Longrightarrow> update_where p f rs = rs"
  by (induction rs) auto

lemma update_where_cong:
  "(\<And>r. r \<in> set rs \<Longrightarrow> p r = q r) \<Longrightarrow> update_where p f rs = update_where q f rs"
  by auto

lemma distinct_map_eq:
  "distinct (map k rs) \<Longrightarrow> x \<in> set rs \<Longrightarrow> y \<in> set rs \<Longrightarrow> k x = k y \<Longrightarrow> x = y"
  by (metis distinct_map inj_onD)

lemma distinct_map_filterI [simp]: "distinct (map k rs) \<Longrightarrow> distinct (map k (filter p rs))"
  by (induction rs) auto

lemma filter_key_singleton:
  assumes "distinct (map k rs)" "r \<in> set rs" "p r"
  shows "filter (\<lambda>x. k x = k r \<and> p x) rs = [r]"
  using assms
proof (induction rs)
  case Nil
  then show ?case by simp
next
  case (Cons a rs)
  show ?case
  proof (cases "a = r")
    case True
    with Cons.prems have "\<forall>x\<in>set rs. k x \<noteq> k r" by (metis distinct.simps(2) image_eqI list.map(2) list.set_map)
    then have "filter (\<lambda>x. k x = k r \<and> p x) rs = []" by (simp add: filter_empty_conv)
    with True Cons.prems show ?thesis by simp
  next
    case False
    with Cons.prems have "k a \<noteq> k r" by (metis distinct_map_eq list.set_intros(1) list.set_intros(2) set_ConsD)
    with False Cons show ?thesis by simp
  qed
qed

text \<open>Removing the one row with a key lowers the count of the rows that satisfy \<open>q\<close>.\<close>

lemma length_filter_remove_key:
  assumes "distinct (map k rs)" "r \<in> set rs"
  shows "length (filter q (filter (\<lambda>x. k x \<noteq> k r) rs)) =
         (if q r then length (filter q rs) - 1 else length (filter q rs))"
  using assms
proof (induction rs)
  case Nil
  then show ?case by simp
next
  case (Cons a rs)
  show ?case
  proof (cases "a = r")
    case True
    with Cons.prems have "\<forall>x\<in>set rs. k x \<noteq> k r" by (metis distinct.simps(2) image_eqI list.map(2) list.set_map)
    then have "filter (\<lambda>x. k x \<noteq> k r) rs = rs" by (simp add: filter_id_conv)
    with True show ?thesis by simp
  next
    case False
    with Cons.prems have r: "r \<in> set rs" by simp
    with False Cons.prems(1) have "k a \<noteq> k r" by (metis distinct.simps(2) image_eqI list.map(2) list.set_map)
    moreover have "q r \<Longrightarrow> 0 < length (filter q rs)"
      using r by (auto simp: filter_empty_conv)
    ultimately show ?thesis using Cons by auto
  qed
qed

lemma length_filter_pos: "r \<in> set rs \<Longrightarrow> q r \<Longrightarrow> 0 < length (filter q rs)"
  by (auto simp: filter_empty_conv)

end
