(* ===== verification/Models.thy ===== *)
theory Models
  imports Prelude
begin

text \<open>
  The persistent rows of \<open>src/model/\<close>, one record per Go struct, fields in the order of the
  source. Keys (\<open>uint64\<close>) are naturals, \<open>int64\<close> and \<open>int\<close> columns integers, pointer fields
  options, a time the number of nanoseconds since Go's zero time (so \<open>IsZero\<close> is \<open>= 0\<close>), and
  a string its bytes. Association fields (\<open>User\<close>, \<open>Parent\<close>, \<open>Object\<close>, \<open>File\<close>) are never
  preloaded by the code: they are declarations of foreign keys and appear in \<open>Database\<close>.
\<close>

record user =
  u_ID :: nat
  u_UserName :: string
  u_Password :: string
  u_Email :: string
  u_NickName :: string
  u_AvatarURL :: string
  u_Bio :: string
  u_IsActive :: bool
  u_TotalSpace :: nat
  u_UseSpace :: nat
  u_CreatedAt :: int
  u_DeletedAt :: "int option"

record file_object =
  fo_ID :: nat
  fo_UserID :: nat
  fo_Hash :: string
  fo_BucketName :: string
  fo_ObjectName :: string
  fo_Size :: int
  fo_RefCount :: int
  fo_CreatedAt :: int

record user_file =
  uf_ID :: nat
  uf_UserID :: nat
  uf_ParentID :: "nat option"
  uf_Name :: string
  uf_IsDir :: bool
  uf_ObjectID :: "nat option"
  uf_Size :: int
  uf_IsDeleted :: bool
  uf_CreatedAt :: int
  uf_UpdatedAt :: int
  uf_DeletedAt :: "int option"

record upload_session =
  us_ID :: nat
  us_UploadID :: string
  us_UserID :: nat
  us_FileHash :: string
  us_FileName :: string
  us_FileSize :: int
  us_ChunkSize :: int
  us_TotalChunks :: int
  us_Status :: int
  us_CreatedAt :: int
  us_UpdatedAt :: int

record file_chunk =
  fc_ID :: nat
  fc_UploadID :: string
  fc_ChunkIndex :: int
  fc_ChunkSize :: int
  fc_ChunkPath :: string
  fc_Status :: int
  fc_CreatedAt :: int
  fc_UpdatedAt :: int

record file_share =
  fs_ID :: nat
  fs_ShareID :: string
  fs_FileID :: nat
  fs_UserID :: nat
  fs_NeedCode :: bool
  fs_ExtractCode :: string
  fs_ExpireAt :: "int option"
  fs_Status :: int
  fs_CreatedAt :: int
  fs_DeletedAt :: "int option"

record share_access_log =
  sl_ID :: nat
  sl_OwnerUserID :: nat
  sl_FileID :: nat
  sl_ShareID :: string
  sl_VisitorIP :: string
  sl_Source :: string
  sl_Referer :: string
  sl_UserAgent :: string
  sl_AccessedAt :: int
  sl_CreatedAt :: int

record download_task =
  dt_ID :: nat
  dt_UserID :: nat
  dt_Type :: string
  dt_Source :: string
  dt_Bucket :: string
  dt_ObjectName :: string
  dt_FileName :: string
  dt_Status :: string
  dt_Progress :: int
  dt_ErrorMsg :: string
  dt_RetryCount :: int
  dt_NextRetryAt :: "int option"
  dt_StartedAt :: "int option"
  dt_FinishedAt :: "int option"
  dt_CreatedAt :: int
  dt_UpdatedAt :: int

text \<open>
  The counters of a day form a record of their own: \<open>activity.increments\<close> has exactly these
  seven fields, and both \<open>model.UserActivityDaily\<close> and \<open>activity.DailySummary\<close> carry them.
\<close>

record increments =
  UploadCount :: int
  UploadBytes :: int
  DeleteCount :: int
  DeleteBytes :: int
  ShareCount :: int
  DownloadCount :: int
  DownloadBytes :: int

record user_activity_daily =
  ad_ID :: nat
  ad_UserID :: nat
  ad_StatDate :: int      \<comment> \<open>a \<open>DATE\<close> column: the number of the day\<close>
  ad_Counts :: increments
  ad_CreatedAt :: int
  ad_UpdatedAt :: int

record user_favorite =
  fv_ID :: nat
  fv_UserID :: nat
  fv_FileID :: nat
  fv_CreatedAt :: int

record user_recent =
  ur_ID :: nat
  ur_UserID :: nat
  ur_FileID :: nat
  ur_Source :: string
  ur_AccessCount :: int
  ur_LastAccessAt :: int
  ur_CreatedAt :: int
  ur_UpdatedAt :: int

text \<open>\<open>gorm.DeletedAt\<close>: a query that is not \<open>Unscoped\<close> sees only the rows not soft-deleted.\<close>

abbreviation uf_live :: "user_file \<Rightarrow> bool" where
  "uf_live r \<equiv> uf_DeletedAt r = None"

abbreviation fs_live :: "file_share \<Rightarrow> bool" where
  "fs_live r \<equiv> fs_DeletedAt r = None"

abbreviation u_live :: "user \<Rightarrow> bool" where
  "u_live r \<equiv> u_DeletedAt r = None"

text \<open>
  \<open>activity.Event\<close>, \<open>task.DownloadMessage\<close> and \<open>worker.dlqMessage\<close>: what travels through
  RabbitMQ. A delivered body that does not decode is \<open>RawMsg\<close>.
\<close>

record event =
  ev_EventID :: string
  ev_UserID :: nat
  ev_Action :: string
  ev_FileID :: nat
  ev_FileBytes :: int
  ev_OccurredAt :: int

record download_message =
  dm_TaskID :: nat
  dm_Attempt :: int

record dlq_message =
  dl_TaskID :: nat
  dl_Attempt :: int
  dl_Error :: err
  dl_FailedAt :: int

datatype mq_body =
    TaskMsg download_message
  | DlqMsg dlq_message
  | EventMsg event
  | RawMsg string

end
