(* ===== verification/Database.thy ===== *)
theory Database
  imports Models
begin

text \<open>
  The relational database the code reaches through GORM: tables, the meaning of the statements
  the code builds (\<open>SELECT\<close>/\<open>First\<close>/\<open>COUNT\<close>, \<open>INSERT\<close>, \<open>UPDATE\<close>, \<open>DELETE\<close> with the
  \<open>WHERE\<close> clauses written in the source), and the unique indexes and foreign keys that the
  struct tags of \<open>src/model/\<close> declare and \<open>repo.autoMigrateAll\<close> installs. What the engine is
  free to choose (whether a statement fails, how strings compare) is a parameter, see \<open>World\<close>.
\<close>

section \<open>Tables\<close>

record 'r table =
  rows :: "'r list"
  next_key :: nat

definition empty_table :: "'r table" where
  "empty_table = \<lparr>rows = [], next_key = 1\<rparr>"

text \<open>\<open>First\<close> orders by the primary key; \<open>Order("id desc").First\<close> takes the greatest.\<close>

definition first_row :: "('r \<Rightarrow> nat) \<Rightarrow> ('r \<Rightarrow> bool) \<Rightarrow> 'r table \<Rightarrow> 'r option" where
  "first_row key p t = (case filter p (rows t) of [] \<Rightarrow> None
     | r # rs \<Rightarrow> Some (fold (\<lambda>x m. if key x < key m then x else m) rs r))"

definition last_row :: "('r \<Rightarrow> nat) \<Rightarrow> ('r \<Rightarrow> bool) \<Rightarrow> 'r table \<Rightarrow> 'r option" where
  "last_row key p t = (case filter p (rows t) of [] \<Rightarrow> None
     | r # rs \<Rightarrow> Some (fold (\<lambda>x m. if key m < key x then x else m) rs r))"

definition insert_row :: "(nat \<Rightarrow> 'r \<Rightarrow> 'r) \<Rightarrow> 'r \<Rightarrow> 'r table \<Rightarrow> 'r table" where
  "insert_row set_key r t =
     t\<lparr>rows := rows t @ [set_key (next_key t) r], next_key := Suc (next_key t)\<rparr>"

definition update_rows :: "('r \<Rightarrow> bool) \<Rightarrow> ('r \<Rightarrow> 'r) \<Rightarrow> 'r table \<Rightarrow> 'r table" where
  "update_rows p f t = t\<lparr>rows := update_where p f (rows t)\<rparr>"

definition delete_rows :: "('r \<Rightarrow> bool) \<Rightarrow> 'r table \<Rightarrow> 'r table" where
  "delete_rows p t = t\<lparr>rows := filter (\<lambda>r. \<not> p r) (rows t)\<rparr>"

lemma fold_min_mem:
  "fold (\<lambda>x m. if key x < key m then x else m) rs r \<in> set (r # rs)"
  by (induction rs arbitrary: r) auto

lemma fold_max_mem:
  "fold (\<lambda>x m. if key m < key x then x else m) rs r \<in> set (r # rs)"
  by (induction rs arbitrary: r) auto

lemma fold_min_le:
  "x \<in> set (r # rs) \<Longrightarrow> key (fold (\<lambda>x m. if key x < key m then x else m) rs r) \<le> (key x :: nat)"
proof (induction rs arbitrary: r x)
  case Nil
  then show ?case by simp
next
  case (Cons a rs)
  let ?m = "if key a < key r then a else r"
  have m: "key (fold (\<lambda>x m. if key x < key m then x else m) rs ?m) \<le> key ?m"
    by (rule Cons.IH) simp
  show ?case
  proof (cases "x \<in> set rs")
    case True
    then show ?thesis using Cons.IH [of x ?m] by simp
  next
    case False
    with Cons.prems have "key ?m \<le> key x" by auto
    with m show ?thesis by simp
  qed
qed

lemma filter_Cons_memD: "filter p xs = y # ys \<Longrightarrow> z \<in> set (y # ys) \<Longrightarrow> z \<in> set xs \<and> p z"
proof -
  assume "filter p xs = y # ys" and z: "z \<in> set (y # ys)"
  then have "set (y # ys) = {x \<in> set xs. p x}" by (metis set_filter)
  with z show ?thesis by blast
qed

lemma first_row_SomeD: "first_row key p t = Some r \<Longrightarrow> r \<in> set (rows t) \<and> p r"
proof -
  assume "first_row key p t = Some r"
  then obtain y ys where "filter p (rows t) = y # ys"
    and "r = fold (\<lambda>x m. if key x < key m then x else m) ys y"
    by (auto simp: first_row_def split: list.splits)
  with fold_min_mem [of key ys y] show ?thesis using filter_Cons_memD by metis
qed

lemma last_row_SomeD: "last_row key p t = Some r \<Longrightarrow> r \<in> set (rows t) \<and> p r"
proof -
  assume "last_row key p t = Some r"
  then obtain y ys where "filter p (rows t) = y # ys"
    and "r = fold (\<lambda>x m. if key m < key x then x else m) ys y"
    by (auto simp: last_row_def split: list.splits)
  with fold_max_mem [of key ys y] show ?thesis using filter_Cons_memD by metis
qed

lemma first_row_None: "first_row key p t = None \<longleftrightarrow> (\<forall>r\<in>set (rows t). \<not> p r)"
  unfolding first_row_def filter_empty_conv [symmetric] by (simp split: list.splits)

lemma last_row_None: "last_row key p t = None \<longleftrightarrow> (\<forall>r\<in>set (rows t). \<not> p r)"
  unfolding last_row_def filter_empty_conv [symmetric] by (simp split: list.splits)

lemma first_row_unique:
  assumes "distinct (map key (rows t))" "r \<in> set (rows t)" "q r"
  shows "first_row key (\<lambda>x. key x = key r \<and> q x) t = Some r"
  using filter_key_singleton [where p = q, OF assms] by (simp add: first_row_def)

lemma first_row_least:
  assumes "first_row key p t = Some r" "x \<in> set (rows t)" "p x"
  shows "key r \<le> key x"
proof -
  from assms(1) obtain y ys where f: "filter p (rows t) = y # ys"
    and r: "r = fold (\<lambda>x m. if key x < key m then x else m) ys y"
    by (auto simp: first_row_def split: list.splits)
  from assms(2,3) have "x \<in> set (filter p (rows t))" by simp
  with f have "x \<in> set (y # ys)" by simp
  then show ?thesis unfolding r by (rule fold_min_le)
qed

section \<open>The interface of a table\<close>

text \<open>
  What the clients of a table rely on: an insert gives the new row a key no row had, an
  update that does not touch keys and a delete keep the keys apart.
\<close>

locale keyed_table =
  fixes key :: "'r \<Rightarrow> nat"
    and set_key :: "nat \<Rightarrow> 'r \<Rightarrow> 'r"
    and rws :: "'t \<Rightarrow> 'r list"
    and fresh :: "'t \<Rightarrow> nat"
    and ins :: "'r \<Rightarrow> 't \<Rightarrow> 't"
    and upd :: "('r \<Rightarrow> bool) \<Rightarrow> ('r \<Rightarrow> 'r) \<Rightarrow> 't \<Rightarrow> 't"
    and del :: "('r \<Rightarrow> bool) \<Rightarrow> 't \<Rightarrow> 't"
  assumes key_set_key: "key (set_key k r) = k"
    and rws_ins: "rws (ins r t) = rws t @ [set_key (fresh t) r]"
    and fresh_ins: "fresh (ins r t) = Suc (fresh t)"
    and rws_upd: "rws (upd p f t) = update_where p f (rws t)"
    and fresh_upd: "fresh (upd p f t) = fresh t"
    and rws_del: "rws (del p t) = filter (\<lambda>r. \<not> p r) (rws t)"
    and fresh_del: "fresh (del p t) = fresh t"
begin

definition keys_ok :: "'t \<Rightarrow> bool" where
  "keys_ok t \<longleftrightarrow> distinct (map key (rws t)) \<and> (\<forall>r\<in>set (rws t). key r < fresh t)"

lemma keys_ok_distinct: "keys_ok t \<Longrightarrow> distinct (map key (rws t))"
  by (simp add: keys_ok_def)

lemma keys_ok_ins: "keys_ok t \<Longrightarrow> keys_ok (ins r t)"
  by (auto simp: keys_ok_def rws_ins fresh_ins key_set_key less_Suc_eq)

lemma keys_ok_upd: "keys_ok t \<Longrightarrow> (\<And>r. key (f r) = key r) \<Longrightarrow> keys_ok (upd p f t)"
  by (auto simp: keys_ok_def rws_upd fresh_upd)

lemma keys_ok_del: "keys_ok t \<Longrightarrow> keys_ok (del p t)"
  by (auto simp: keys_ok_def rws_del fresh_del)

lemma keys_ok_same_key:
  "keys_ok t \<Longrightarrow> x \<in> set (rws t) \<Longrightarrow> y \<in> set (rws t) \<Longrightarrow> key x = key y \<Longrightarrow> x = y"
  unfolding keys_ok_def by (metis distinct_map_eq)

lemma ins_new_key: "keys_ok t \<Longrightarrow> x \<in> set (rws t) \<Longrightarrow> key x \<noteq> fresh t"
  by (auto simp: keys_ok_def)

end

abbreviation uf_set :: "nat \<Rightarrow> user_file \<Rightarrow> user_file" where "uf_set k r \<equiv> r\<lparr>uf_ID := k\<rparr>"
abbreviation fo_set :: "nat \<Rightarrow> file_object \<Rightarrow> file_object" where "fo_set k r \<equiv> r\<lparr>fo_ID := k\<rparr>"
abbreviation u_set :: "nat \<Rightarrow> user \<Rightarrow> user" where "u_set k r \<equiv> r\<lparr>u_ID := k\<rparr>"
abbreviation us_set :: "nat \<Rightarrow> upload_session \<Rightarrow> upload_session" where "us_set k r \<equiv> r\<lparr>us_ID := k\<rparr>"
abbreviation fc_set :: "nat \<Rightarrow> file_chunk \<Rightarrow> file_chunk" where "fc_set k r \<equiv> r\<lparr>fc_ID := k\<rparr>"
abbreviation fs_set :: "nat \<Rightarrow> file_share \<Rightarrow> file_share" where "fs_set k r \<equiv> r\<lparr>fs_ID := k\<rparr>"
abbreviation dt_set :: "nat \<Rightarrow> download_task \<Rightarrow> download_task" where "dt_set k r \<equiv> r\<lparr>dt_ID := k\<rparr>"
abbreviation ad_set :: "nat \<Rightarrow> user_activity_daily \<Rightarrow> user_activity_daily" where
  "ad_set k r \<equiv> r\<lparr>ad_ID := k\<rparr>"
abbreviation sl_set :: "nat \<Rightarrow> share_access_log \<Rightarrow> share_access_log" where
  "sl_set k r \<equiv> r\<lparr>sl_ID := k\<rparr>"
abbreviation fv_set :: "nat \<Rightarrow> user_favorite \<Rightarrow> user_favorite" where
  "fv_set k r \<equiv> r\<lparr>fv_ID := k\<rparr>"
abbreviation ur_set :: "nat \<Rightarrow> user_recent \<Rightarrow> user_recent" where
  "ur_set k r \<equiv> r\<lparr>ur_ID := k\<rparr>"

lemmas table_ops = insert_row_def update_rows_def delete_rows_def

interpretation uft: keyed_table uf_ID uf_set rows next_key "insert_row uf_set" update_rows delete_rows
  by unfold_locales (simp_all add: table_ops)

interpretation fot: keyed_table fo_ID fo_set rows next_key "insert_row fo_set" update_rows delete_rows
  by unfold_locales (simp_all add: table_ops)

interpretation ust: keyed_table us_ID us_set rows next_key "insert_row us_set" update_rows delete_rows
  by unfold_locales (simp_all add: table_ops)

interpretation fct: keyed_table fc_ID fc_set rows next_key "insert_row fc_set" update_rows delete_rows
  by unfold_locales (simp_all add: table_ops)

interpretation fst_t: keyed_table fs_ID fs_set rows next_key "insert_row fs_set" update_rows delete_rows
  by unfold_locales (simp_all add: table_ops)

interpretation dtt: keyed_table dt_ID dt_set rows next_key "insert_row dt_set" update_rows delete_rows
  by unfold_locales (simp_all add: table_ops)

interpretation adt: keyed_table ad_ID ad_set rows next_key "insert_row ad_set" update_rows delete_rows
  by unfold_locales (simp_all add: table_ops)

section \<open>The database\<close>

record database =
  users :: "user table"
  objects :: "file_object table"
  files :: "user_file table"
  chunks :: "file_chunk table"
  sessions :: "upload_session table"
  shares :: "file_share table"
  tasks :: "download_task table"
  daily :: "user_activity_daily table"
  favorites :: "user_favorite table"
  recents :: "user_recent table"
  accessLogs :: "share_access_log table"

definition empty_db :: database where
  "empty_db = \<lparr>users = empty_table, objects = empty_table, files = empty_table,
     chunks = empty_table, sessions = empty_table, shares = empty_table, tasks = empty_table,
     daily = empty_table, favorites = empty_table, recents = empty_table,
     accessLogs = empty_table\<rparr>"

subsection \<open>Unique indexes\<close>

text \<open>
  A unique index compares strings under the collation of the connection: \<open>ck\<close> maps a string
  to its collation key. Rows with a \<open>NULL\<close> in an indexed column are not compared by MySQL:
  \<open>uk_user_parent_name_active\<close> says nothing about the files of the root folder, whose
  \<open>parent_id\<close> is \<open>NULL\<close>.
\<close>

definition user_unique :: "(string \<Rightarrow> string) \<Rightarrow> user list \<Rightarrow> bool" where
  "user_unique ck us \<longleftrightarrow>
     distinct (map (ck \<circ> u_UserName) us) \<and> distinct (map (ck \<circ> u_Email) us)"

definition file_object_unique :: "(string \<Rightarrow> string) \<Rightarrow> file_object list \<Rightarrow> bool" where
  "file_object_unique ck os \<longleftrightarrow> distinct (map (ck \<circ> fo_Hash) os)"

definition user_file_unique :: "(string \<Rightarrow> string) \<Rightarrow> user_file list \<Rightarrow> bool" where
  "user_file_unique ck fs \<longleftrightarrow>
     distinct (map (\<lambda>r. (uf_UserID r, uf_ParentID r, ck (uf_Name r), uf_IsDeleted r))
       (filter (\<lambda>r. uf_ParentID r \<noteq> None) fs))"

definition upload_session_unique :: "(string \<Rightarrow> string) \<Rightarrow> upload_session list \<Rightarrow> bool" where
  "upload_session_unique ck ss \<longleftrightarrow> distinct (map (ck \<circ> us_UploadID) ss)"

definition file_chunk_unique :: "(string \<Rightarrow> string) \<Rightarrow> file_chunk list \<Rightarrow> bool" where
  "file_chunk_unique ck cs \<longleftrightarrow> distinct (map (\<lambda>c. (ck (fc_UploadID c), fc_ChunkIndex c)) cs)"

definition file_share_unique :: "(string \<Rightarrow> string) \<Rightarrow> file_share list \<Rightarrow> bool" where
  "file_share_unique ck ss \<longleftrightarrow> distinct (map (ck \<circ> fs_ShareID) ss)"

definition user_activity_daily_unique :: "user_activity_daily list \<Rightarrow> bool" where
  "user_activity_daily_unique rs \<longleftrightarrow> distinct (map (\<lambda>r. (ad_UserID r, ad_StatDate r)) rs)"

definition user_favorite_unique :: "user_favorite list \<Rightarrow> bool" where
  "user_favorite_unique rs \<longleftrightarrow> distinct (map (\<lambda>r. (fv_UserID r, fv_FileID r)) rs)"

definition user_recent_unique :: "user_recent list \<Rightarrow> bool" where
  "user_recent_unique rs \<longleftrightarrow> distinct (map (\<lambda>r. (ur_UserID r, ur_FileID r)) rs)"

subsection \<open>Foreign keys\<close>

definition has_key :: "('r \<Rightarrow> nat) \<Rightarrow> 'r table \<Rightarrow> nat \<Rightarrow> bool" where
  "has_key key t k \<longleftrightarrow> list_ex (\<lambda>r. key r = k) (rows t)"

lemma has_key_iff: "has_key key t k \<longleftrightarrow> (\<exists>r\<in>set (rows t). key r = k)"
  by (auto simp: has_key_def list_ex_iff)

definition opt_key :: "('r \<Rightarrow> nat) \<Rightarrow> 'r table \<Rightarrow> nat option \<Rightarrow> bool" where
  "opt_key key t ko \<longleftrightarrow> (case ko of None \<Rightarrow> True | Some k \<Rightarrow> has_key key t k)"

definition file_object_fk :: "database \<Rightarrow> bool" where
  "file_object_fk d \<longleftrightarrow> list_all (\<lambda>o'. has_key u_ID (users d) (fo_UserID o')) (rows (objects d))"

definition user_file_fk :: "database \<Rightarrow> bool" where
  "user_file_fk d \<longleftrightarrow> list_all (\<lambda>f. has_key u_ID (users d) (uf_UserID f)
     \<and> opt_key uf_ID (files d) (uf_ParentID f)
     \<and> opt_key fo_ID (objects d) (uf_ObjectID f)) (rows (files d))"

definition upload_session_fk :: "database \<Rightarrow> bool" where
  "upload_session_fk d \<longleftrightarrow> list_all (\<lambda>s. has_key u_ID (users d) (us_UserID s)) (rows (sessions d))"

definition file_share_fk :: "database \<Rightarrow> bool" where
  "file_share_fk d \<longleftrightarrow> list_all (\<lambda>s. has_key uf_ID (files d) (fs_FileID s)
     \<and> has_key u_ID (users d) (fs_UserID s)) (rows (shares d))"

definition db_valid :: "(string \<Rightarrow> string) \<Rightarrow> database \<Rightarrow> bool" where
  "db_valid ck d \<longleftrightarrow>
     user_unique ck (rows (users d)) \<and> file_object_unique ck (rows (objects d))
   \<and> user_file_unique ck (rows (files d)) \<and> upload_session_unique ck (rows (sessions d))
   \<and> file_chunk_unique ck (rows (chunks d)) \<and> file_share_unique ck (rows (shares d))
   \<and> user_activity_daily_unique (rows (daily d)) \<and> user_favorite_unique (rows (favorites d))
   \<and> user_recent_unique (rows (recents d))
   \<and> file_object_fk d \<and> user_file_fk d \<and> upload_session_fk d \<and> file_share_fk d"

text \<open>Primary keys are distinct and below the next \<open>AUTO_INCREMENT\<close> value in every table.\<close>

definition keys_wf :: "database \<Rightarrow> bool" where
  "keys_wf d \<longleftrightarrow> uft.keys_ok (files d) \<and> fot.keys_ok (objects d) \<and> ust.keys_ok (sessions d)
     \<and> fct.keys_ok (chunks d) \<and> fst_t.keys_ok (shares d) \<and> dtt.keys_ok (tasks d)
     \<and> adt.keys_ok (daily d)"

definition db_wf :: "(string \<Rightarrow> string) \<Rightarrow> database \<Rightarrow> bool" where
  "db_wf ck d \<longleftrightarrow> keys_wf d \<and> db_valid ck d"

lemma db_wf_file_key:
  "db_wf ck d \<Longrightarrow> x \<in> set (rows (files d)) \<Longrightarrow> y \<in> set (rows (files d)) \<Longrightarrow> uf_ID x = uf_ID y
    \<Longrightarrow> x = y"
  unfolding db_wf_def keys_wf_def by (metis uft.keys_ok_same_key)

lemma db_wf_object_key:
  "db_wf ck d \<Longrightarrow> x \<in> set (rows (objects d)) \<Longrightarrow> y \<in> set (rows (objects d)) \<Longrightarrow> fo_ID x = fo_ID y
    \<Longrightarrow> x = y"
  unfolding db_wf_def keys_wf_def by (metis fot.keys_ok_same_key)

lemma opt_key_Some [simp]: "opt_key key t (Some k) = has_key key t k"
  by (simp add: opt_key_def)

lemma opt_key_None [simp]: "opt_key key t None"
  by (simp add: opt_key_def)

lemma db_wf_file_fk:
  assumes "db_wf ck d" "f \<in> set (rows (files d))"
  shows "opt_key uf_ID (files d) (uf_ParentID f) \<and> opt_key fo_ID (objects d) (uf_ObjectID f)"
  using assms by (simp add: db_wf_def db_valid_def user_file_fk_def list_all_iff)

lemma db_wf_parent:
  "db_wf ck d \<Longrightarrow> f \<in> set (rows (files d)) \<Longrightarrow> uf_ParentID f = Some p
    \<Longrightarrow> \<exists>r\<in>set (rows (files d)). uf_ID r = p"
  using db_wf_file_fk [of ck d f] by (simp add: has_key_iff)

lemma db_wf_object:
  "db_wf ck d \<Longrightarrow> f \<in> set (rows (files d)) \<Longrightarrow> uf_ObjectID f = Some k
    \<Longrightarrow> \<exists>r\<in>set (rows (objects d)). fo_ID r = k"
  using db_wf_file_fk [of ck d f] by (simp add: has_key_iff)

end
