(* ===== verification/World.thy ===== *)
theory World
  imports Database "HOL-Library.AList"
begin

text \<open>
  The services around the code and what it cannot control about them. The environment \<open>env\<close> is
  an argument of every definition that talks to a service; its fields stand for behaviour that
  no file of the repository defines: which request fails, what the clock shows, which UUID is
  drawn, how the connection's collation compares strings, how a Redis \<open>SCAN\<close> pages the key
  space, how a time falls on a calendar day and is printed. The world \<open>world\<close> is the state:
  the database, the Redis keys with their expiry, the objects in the bucket store, the queues
  of the broker, and the position in the oracles of \<open>env\<close>.
\<close>

section \<open>Environment\<close>

text \<open>The part of \<open>config.Config\<close> the modelled operations read.\<close>

record config =
  BucketName :: string
  DownloadRetryMax :: int
  DownloadRetryDelays :: "int list"
  DownloadAllowPrivate :: bool
  DownloadAllowedHosts :: "string list"
  DownloadMaxBytes :: int

record env =
  AppConfig :: config
  fault :: "nat \<Rightarrow> bool"                           \<comment> \<open>does the n-th request to a service fail\<close>
  clock :: "nat \<Rightarrow> int"                            \<comment> \<open>the n-th reading of the clock\<close>
  uuid :: "nat \<Rightarrow> string"                          \<comment> \<open>the n-th \<open>uuid.NewString()\<close>\<close>
  collate :: "string \<Rightarrow> string"                     \<comment> \<open>collation key of a string\<close>
  scan_pages :: "string list \<Rightarrow> string list list"   \<comment> \<open>how \<open>SCAN\<close> pages the keys\<close>
  dayOf :: "int \<Rightarrow> int"                            \<comment> \<open>calendar day of a time\<close>
  formatDay :: "int \<Rightarrow> string"                     \<comment> \<open>\<open>Format("2006-01-02")\<close> of a day\<close>
  dateColumn :: "int \<Rightarrow> string"                    \<comment> \<open>a \<open>DATE\<close> column scanned into a string\<close>

definition day_ns :: int where
  "day_ns = 24 * 60 * 60 * 1000000000"

section \<open>World\<close>

text \<open>A Redis value: the JSON texts the code stores are kept as the values they encode.\<close>

datatype rval =
    RShare file_share
  | RObject file_object
  | RUser user
  | RNum nat
  | RFiles "user_file list" int
  | RText string
  | RHash "(string \<times> int) list"
  | RRegister string string string   \<comment> \<open>email, user name, password\<close>

type_synonym redis_db = "(string \<times> (rval \<times> int option)) list"

record world =
  db :: database
  redis :: redis_db
  store :: "((string \<times> string) \<times> string) list"   \<comment> \<open>(bucket, object) to contents\<close>
  queues :: "(string \<times> mq_body \<times> string) list"    \<comment> \<open>queue, body, expiration\<close>
  publisher :: bool                                 \<comment> \<open>\<open>mq.publisher\<close> is set\<close>
  requests :: nat
  reads :: nat
  drawn :: nat

type_synonym 'a step = "world \<Rightarrow> 'a result \<times> world"

definition world0 :: world where
  "world0 = \<lparr>db = empty_db, redis = [], store = [], queues = [], publisher = False,
     requests = 0, reads = 0, drawn = 0\<rparr>"

lemma world0_simps [simp]:
  "db world0 = empty_db" "redis world0 = []" "store world0 = []" "queues world0 = []"
  "publisher world0 = False" "requests world0 = 0" "reads world0 = 0" "drawn world0 = 0"
  by (simp_all add: world0_def)

definition timeNow :: "env \<Rightarrow> world \<Rightarrow> int \<times> world" where
  "timeNow e w = (clock e (reads w), w\<lparr>reads := Suc (reads w)\<rparr>)"

text \<open>\<open>utils.GetToken\<close>.\<close>

definition GetToken :: "env \<Rightarrow> world \<Rightarrow> string \<times> world" where
  "GetToken e w = (uuid e (drawn w), w\<lparr>drawn := Suc (drawn w)\<rparr>)"

text \<open>One request to a service: the environment decides whether it fails.\<close>

definition attempt :: "env \<Rightarrow> 'a step \<Rightarrow> 'a step" where
  "attempt e f w = (let w' = w\<lparr>requests := Suc (requests w)\<rparr> in
     if fault e (requests w) then (Inl ServiceErr, w') else f w')"

section \<open>Statements\<close>

definition query :: "env \<Rightarrow> (database \<Rightarrow> 'a) \<Rightarrow> 'a step" where
  "query e q = attempt e (\<lambda>w. (Inr (q (db w)), w))"

definition query_row :: "env \<Rightarrow> (database \<Rightarrow> 'r option) \<Rightarrow> 'r step" where
  "query_row e q = attempt e (\<lambda>w. (case q (db w) of None \<Rightarrow> Inl RecordNotFound | Some r \<Rightarrow> Inr r, w))"

text \<open>
  A write is refused as a whole when the database it would leave breaks a unique index or a
  foreign key.
\<close>

definition execute :: "env \<Rightarrow> (database \<Rightarrow> 'a \<times> database) \<Rightarrow> 'a step" where
  "execute e f = attempt e (\<lambda>w. let (a, d) = f (db w) in
     if db_valid (collate e) d then (Inr a, w\<lparr>db := d\<rparr>) else (Inl ConstraintErr, w))"

lemma attempt_cases:
  assumes "attempt e f w = (r, w')"
  shows "(r = Inl ServiceErr \<and> w' = w\<lparr>requests := Suc (requests w)\<rparr>) \<or>
         f (w\<lparr>requests := Suc (requests w)\<rparr>) = (r, w')"
  using assms by (auto simp: attempt_def Let_def split: if_splits)

lemma attempt_no_fault:
  "fault e = (\<lambda>_. False) \<Longrightarrow> attempt e f w = f (w\<lparr>requests := Suc (requests w)\<rparr>)"
  by (simp add: attempt_def)

text \<open>The services other than the database.\<close>

definition svcs :: "world \<Rightarrow> redis_db \<times> ((string \<times> string) \<times> string) list \<times>
    (string \<times> mq_body \<times> string) list \<times> bool" where
  "svcs w = (redis w, store w, queues w, publisher w)"

lemma svcs_eq [simp]:
  "svcs w' = svcs w \<longleftrightarrow> redis w' = redis w \<and> store w' = store w \<and> queues w' = queues w
    \<and> publisher w' = publisher w"
  by (simp add: svcs_def)

text \<open>What a statement does, as destruction rules for the operations' proofs.\<close>

lemma query_db [simp]: "db (snd (query e q w)) = db w"
  by (simp add: query_def attempt_def Let_def)

lemma query_row_db [simp]: "db (snd (query_row e q w)) = db w"
  by (simp add: query_row_def attempt_def Let_def)

lemma queryD:
  "query e q w = (r, w') \<Longrightarrow> db w' = db w \<and> svcs w' = svcs w \<and> (\<forall>x. r = Inr x \<longrightarrow> x = q (db w))"
  by (auto simp: query_def attempt_def Let_def split: if_splits)

lemma query_rowD:
  "query_row e q w = (r, w') \<Longrightarrow> db w' = db w \<and> svcs w' = svcs w
    \<and> (\<forall>x. r = Inr x \<longrightarrow> q (db w) = Some x) \<and> (r = Inl RecordNotFound \<longrightarrow> q (db w) = None)"
  by (auto simp: query_row_def attempt_def Let_def split: if_splits option.splits)

lemma execute_frame: "execute e f w = (r, w') \<Longrightarrow> svcs w' = svcs w"
  by (auto simp: execute_def attempt_def Let_def split: if_splits prod.splits)

lemma execute_InrD:
  "execute e f w = (Inr a, w') \<Longrightarrow> f (db w) = (a, db w') \<and> db_valid (collate e) (db w')"
  by (auto simp: execute_def attempt_def Let_def split: if_splits prod.splits)

lemma execute_InlD: "execute e f w = (Inl err, w') \<Longrightarrow> db w' = db w"
  by (auto simp: execute_def attempt_def Let_def split: if_splits prod.splits)

text \<open>A write keeps the database well formed as soon as it keeps the primary keys in order.\<close>

lemma execute_db_wf:
  assumes "db_wf (collate e) (db w)" and "\<And>d. keys_wf d \<Longrightarrow> keys_wf (snd (f d))"
  shows "db_wf (collate e) (db (snd (execute e f w)))"
  using assms(1) assms(2) [of "db w"]
  by (auto simp: execute_def attempt_def Let_def db_wf_def split: prod.splits)

section \<open>The user_file table\<close>

definition find_files :: "env \<Rightarrow> (user_file \<Rightarrow> bool) \<Rightarrow> user_file list step" where
  "find_files e p = query e (\<lambda>d. filter (\<lambda>r. uf_live r \<and> p r) (rows (files d)))"

definition find_files_unscoped :: "env \<Rightarrow> (user_file \<Rightarrow> bool) \<Rightarrow> user_file list step" where
  "find_files_unscoped e p = query e (\<lambda>d. filter p (rows (files d)))"

definition first_file :: "env \<Rightarrow> (user_file \<Rightarrow> bool) \<Rightarrow> user_file step" where
  "first_file e p = query_row e (\<lambda>d. first_row uf_ID (\<lambda>r. uf_live r \<and> p r) (files d))"

definition first_file_unscoped :: "env \<Rightarrow> (user_file \<Rightarrow> bool) \<Rightarrow> user_file step" where
  "first_file_unscoped e p = query_row e (\<lambda>d. first_row uf_ID p (files d))"

definition count_files :: "env \<Rightarrow> (user_file \<Rightarrow> bool) \<Rightarrow> nat step" where
  "count_files e p = query e (\<lambda>d. length (filter (\<lambda>r. uf_live r \<and> p r) (rows (files d))))"

text \<open>GORM stamps \<open>created_at\<close> and \<open>updated_at\<close> with its clock; a new row is not deleted.\<close>

definition create_file :: "env \<Rightarrow> user_file \<Rightarrow> nat step" where
  "create_file e r w = (let (t, w) = timeNow e w in
     execute e (\<lambda>d. (next_key (files d), d\<lparr>files := insert_row uf_set
       (r\<lparr>uf_IsDeleted := False, uf_DeletedAt := None, uf_CreatedAt := t, uf_UpdatedAt := t\<rparr>)
       (files d)\<rparr>)) w)"

definition update_files_unscoped ::
  "env \<Rightarrow> (user_file \<Rightarrow> bool) \<Rightarrow> (user_file \<Rightarrow> user_file) \<Rightarrow> unit step" where
  "update_files_unscoped e p f w = (let (t, w) = timeNow e w in
     execute e (\<lambda>d. ((), d\<lparr>files := update_rows p (\<lambda>r. (f r)\<lparr>uf_UpdatedAt := t\<rparr>) (files d)\<rparr>)) w)"

definition update_files ::
  "env \<Rightarrow> (user_file \<Rightarrow> bool) \<Rightarrow> (user_file \<Rightarrow> user_file) \<Rightarrow> unit step" where
  "update_files e p f = update_files_unscoped e (\<lambda>r. uf_live r \<and> p r) f"

text \<open>
  \<open>Unscoped().Delete(&model.UserFile{}, id)\<close> removes the row; the shares of the file go with it
  (\<open>OnDelete:CASCADE\<close> on \<open>FileShare.File\<close>).
\<close>

definition delete_file_row :: "nat \<Rightarrow> database \<Rightarrow> database" where
  "delete_file_row k d = d\<lparr>files := delete_rows (\<lambda>r. uf_ID r = k) (files d),
     shares := delete_rows (\<lambda>s. fs_FileID s = k) (shares d)\<rparr>"

definition delete_file_unscoped :: "env \<Rightarrow> nat \<Rightarrow> unit step" where
  "delete_file_unscoped e k = execute e (\<lambda>d. ((), delete_file_row k d))"

lemmas file_queries = find_files_def find_files_unscoped_def first_file_def
  first_file_unscoped_def count_files_def

lemma keys_wf_files:
  "keys_wf d \<Longrightarrow> uft.keys_ok t \<Longrightarrow> keys_wf (d\<lparr>files := t\<rparr>)"
  by (simp add: keys_wf_def)

lemma create_file_db_wf:
  "db_wf (collate e) (db w) \<Longrightarrow> db_wf (collate e) (db (snd (create_file e r w)))"
  unfolding create_file_def timeNow_def Let_def prod.case
  by (rule execute_db_wf) (auto simp: keys_wf_def intro: uft.keys_ok_ins)

lemma update_files_unscoped_db_wf:
  "db_wf (collate e) (db w) \<Longrightarrow> (\<And>r. uf_ID (f r) = uf_ID r) \<Longrightarrow>
   db_wf (collate e) (db (snd (update_files_unscoped e p f w)))"
  unfolding update_files_unscoped_def timeNow_def Let_def prod.case
  by (rule execute_db_wf) (auto simp: keys_wf_def intro!: uft.keys_ok_upd)

lemma update_files_db_wf:
  "db_wf (collate e) (db w) \<Longrightarrow> (\<And>r. uf_ID (f r) = uf_ID r) \<Longrightarrow>
   db_wf (collate e) (db (snd (update_files e p f w)))"
  unfolding update_files_def by (rule update_files_unscoped_db_wf)

lemma delete_file_db_wf:
  "db_wf (collate e) (db w) \<Longrightarrow> db_wf (collate e) (db (snd (delete_file_unscoped e k w)))"
  unfolding delete_file_unscoped_def
  by (rule execute_db_wf)
     (auto simp: keys_wf_def delete_file_row_def intro: uft.keys_ok_del fst_t.keys_ok_del)

lemma create_file_frame: "create_file e r w = (x, w') \<Longrightarrow> svcs w' = svcs w"
  by (auto simp: create_file_def timeNow_def dest: execute_frame)

lemma create_file_InrD:
  "create_file e r w = (Inr k, w') \<Longrightarrow> db_valid (collate e) (db w') \<and> k = next_key (files (db w)) \<and>
      db w' = (db w)\<lparr>files := insert_row uf_set (r\<lparr>uf_IsDeleted := False, uf_DeletedAt := None,
        uf_CreatedAt := clock e (reads w), uf_UpdatedAt := clock e (reads w)\<rparr>) (files (db w))\<rparr>"
  by (auto simp: create_file_def timeNow_def dest!: execute_InrD)

lemma create_file_InlD: "create_file e r w = (Inl err, w') \<Longrightarrow> db w' = db w"
  by (auto simp: create_file_def timeNow_def dest!: execute_InlD)

lemma update_files_unscoped_frame: "update_files_unscoped e p f w = (x, w') \<Longrightarrow> svcs w' = svcs w"
  by (auto simp: update_files_unscoped_def timeNow_def dest: execute_frame)

lemma update_files_unscoped_InrD:
  "update_files_unscoped e p f w = (Inr u, w') \<Longrightarrow> db_valid (collate e) (db w') \<and>
      db w' = (db w)\<lparr>files := update_rows p (\<lambda>r. (f r)\<lparr>uf_UpdatedAt := clock e (reads w)\<rparr>)
        (files (db w))\<rparr>"
  by (auto simp: update_files_unscoped_def timeNow_def dest!: execute_InrD)

lemma update_files_unscoped_InlD:
  "update_files_unscoped e p f w = (Inl err, w') \<Longrightarrow> db w' = db w"
  by (auto simp: update_files_unscoped_def timeNow_def dest!: execute_InlD)

lemma update_files_frame: "update_files e p f w = (x, w') \<Longrightarrow> svcs w' = svcs w"
  unfolding update_files_def by (rule update_files_unscoped_frame)

lemma update_files_InrD:
  "update_files e p f w = (Inr u, w') \<Longrightarrow> db_valid (collate e) (db w') \<and>
      db w' = (db w)\<lparr>files := update_rows (\<lambda>r. uf_live r \<and> p r)
        (\<lambda>r. (f r)\<lparr>uf_UpdatedAt := clock e (reads w)\<rparr>) (files (db w))\<rparr>"
  unfolding update_files_def by (rule update_files_unscoped_InrD)

lemma update_files_InlD: "update_files e p f w = (Inl err, w') \<Longrightarrow> db w' = db w"
  unfolding update_files_def by (rule update_files_unscoped_InlD)

lemma delete_file_frame: "delete_file_unscoped e k w = (x, w') \<Longrightarrow> svcs w' = svcs w"
  by (auto simp: delete_file_unscoped_def dest: execute_frame)

lemma delete_file_InrD: "delete_file_unscoped e k w = (Inr u, w') \<Longrightarrow>
    db_valid (collate e) (db w') \<and> db w' = delete_file_row k (db w)"
  by (auto simp: delete_file_unscoped_def dest!: execute_InrD)

lemma delete_file_InlD: "delete_file_unscoped e k w = (Inl err, w') \<Longrightarrow> db w' = db w"
  by (auto simp: delete_file_unscoped_def dest!: execute_InlD)

end
