(* ===== verification/Cache.thy ===== *)
theory Cache
  imports World
begin

text \<open>
  The Redis commands the code issues and the cache of \<open>src/utils/cache.go\<close> over them: the keys
  of \<open>BuildCacheKey\<close>, \<open>RedisCache\<close>, and the typed getters, setters and invalidations. A cache
  error is ignored by every caller, so most operations here return only the new world.
\<close>

section \<open>Decimal printing\<close>

definition digit :: "nat \<Rightarrow> char" where
  "digit n = char_of (48 + n)"

fun show_nat :: "nat \<Rightarrow> string" where
  "show_nat n = (if n < 10 then [digit n] else show_nat (n div 10) @ [digit (n mod 10)])"

declare show_nat.simps [simp del]

definition show_int :: "int \<Rightarrow> string" where
  "show_int i = (if i < 0 then CHR ''-'' # show_nat (nat (- i)) else show_nat (nat i))"

definition show_bool :: "bool \<Rightarrow> string" where
  "show_bool b = (if b then ''true'' else ''false'')"

lemma of_char_digit:
  assumes "n < 10"
  shows "of_char (digit n) = (48 + n :: nat)"
proof -
  have "(48 + n) mod 256 = (48 + n :: nat)" using assms by (intro mod_less) linarith
  then show ?thesis by (simp only: digit_def of_char_of)
qed

lemma digit_inj:
  assumes "m < 10" "n < 10" "digit m = digit n"
  shows "m = n"
proof -
  have "48 + m = of_char (digit m)" using of_char_digit [OF assms(1)] by (rule sym)
  also have "\<dots> = of_char (digit n)" by (simp only: assms(3))
  also have "\<dots> = 48 + n" by (rule of_char_digit [OF assms(2)])
  finally show ?thesis by (rule add_left_imp_eq)
qed

lemma digit_not_colon:
  assumes "n < 10"
  shows "digit n \<noteq> CHR '':''"
proof
  assume "digit n = CHR '':''"
  with of_char_digit [OF assms] have "of_char (CHR '':'') = (48 + n :: nat)" by (simp only:)
  moreover have "of_char (CHR '':'') = (58 :: nat)" by simp
  ultimately have "48 + n = 58" by (simp only:)
  with assms show False by linarith
qed

lemma show_nat_nonempty [simp]: "show_nat n \<noteq> []" "[] \<noteq> show_nat n"
  by (subst show_nat.simps, simp)+

lemma show_nat_no_colon: "CHR '':'' \<notin> set (show_nat n)"
proof (induction n rule: show_nat.induct)
  case (1 n)
  have "digit (n mod 10) \<noteq> CHR '':''" by (rule digit_not_colon) simp
  with 1 show ?case
    by (cases "n < 10") (auto simp: show_nat.simps [of n] dest: digit_not_colon)
qed

lemma show_nat_range:
  "x \<in> set (show_nat n) \<Longrightarrow> 48 \<le> (of_char x :: nat) \<and> (of_char x :: nat) \<le> 57"
proof (induction n rule: show_nat.induct)
  case (1 n)
  have d: "48 \<le> (of_char (digit k) :: nat) \<and> (of_char (digit k) :: nat) \<le> 57" if "k < 10" for k
    unfolding of_char_digit [OF that] using that by linarith
  show ?case
  proof (cases "n < 10")
    case True
    with "1.prems" have "x = digit n" by (simp add: show_nat.simps [of n])
    with d [OF True] show ?thesis by simp
  next
    case False
    with "1.prems" have "x \<in> set (show_nat (n div 10)) \<or> x = digit (n mod 10)"
      by (auto simp: show_nat.simps [of n])
    with "1.IH" [OF False] d [of "n mod 10"] show ?thesis by auto
  qed
qed

lemma show_nat_no_dash: "CHR ''-'' \<notin> set (show_nat n)"
  using show_nat_range by fastforce

lemma show_nat_inj: "show_nat m = show_nat n \<Longrightarrow> m = n"
proof (induction m arbitrary: n rule: show_nat.induct)
  case (1 m)
  consider "m < 10" "n < 10" | "m < 10" "\<not> n < 10" | "\<not> m < 10" "n < 10" | "\<not> m < 10" "\<not> n < 10"
    by blast
  then show ?case
  proof cases
    case 1
    with "1.prems" show ?thesis
      by (simp add: show_nat.simps [of m] show_nat.simps [of n] digit_inj)
  next
    case 2
    with "1.prems" show ?thesis
      by (simp add: show_nat.simps [of m] show_nat.simps [of n])
  next
    case 3
    with "1.prems" show ?thesis
      by (simp add: show_nat.simps [of m] show_nat.simps [of n])
  next
    case 4
    with "1.prems" have "show_nat (m div 10) = show_nat (n div 10)"
      and d: "digit (m mod 10) = digit (n mod 10)"
      by (simp_all add: show_nat.simps [of m] show_nat.simps [of n])
    with "1.IH" 4 have "m div 10 = n div 10" by simp
    moreover from d have "m mod 10 = n mod 10" by (rule digit_inj [rotated 2]) simp_all
    ultimately show ?thesis by (metis div_mult_mod_eq)
  qed
qed

lemma show_int_inj: "inj show_int"
proof (rule injI)
  fix i j
  assume eq: "show_int i = show_int j"
  show "i = j"
  proof (cases "(i < 0) = (j < 0)")
    case True
    with eq show ?thesis by (auto simp: show_int_def split: if_splits dest!: show_nat_inj)
  next
    case False
    then have "\<exists>a b. CHR ''-'' # show_nat a = show_nat b"
      using eq by (cases "i < 0") (auto simp: show_int_def, metis)
    then show ?thesis by (metis list.set_intros(1) show_nat_no_dash)
  qed
qed

lemma colon_split:
  "a @ CHR '':'' # x = b @ CHR '':'' # y \<Longrightarrow> CHR '':'' \<notin> set a \<Longrightarrow> CHR '':'' \<notin> set b \<Longrightarrow> a = b \<and> x = y"
proof (induction a arbitrary: b)
  case Nil
  then show ?case by (cases b) auto
next
  case (Cons c a)
  then show ?case by (cases b) auto
qed

section \<open>Redis commands\<close>

definition redis_now :: "env \<Rightarrow> world \<Rightarrow> string \<Rightarrow> rval option" where
  "redis_now e w k = (case map_of (redis w) k of None \<Rightarrow> None
     | Some (v, exp) \<Rightarrow> (case exp of None \<Rightarrow> Some v
         | Some x \<Rightarrow> if clock e (reads w) < x then Some v else None))"

lemma redis_now_requests [simp]: "redis_now e (w\<lparr>requests := n\<rparr>) k = redis_now e w k"
  by (cases "map_of (redis w) k") (auto simp: redis_now_def split: option.splits)

definition redis_get :: "env \<Rightarrow> string \<Rightarrow> rval step" where
  "redis_get e k = attempt e (\<lambda>w.
     (case redis_now e w k of None \<Rightarrow> Inl RedisNil | Some v \<Rightarrow> Inr v,
      w\<lparr>reads := Suc (reads w)\<rparr>))"

definition expiry :: "int \<Rightarrow> int \<Rightarrow> int option" where
  "expiry t ttl = (if 0 < ttl then Some (t + ttl) else None)"

definition redis_set :: "env \<Rightarrow> string \<Rightarrow> rval \<Rightarrow> int \<Rightarrow> unit step" where
  "redis_set e k v ttl = attempt e (\<lambda>w.
     (Inr (), w\<lparr>redis := AList.update k (v, expiry (clock e (reads w)) ttl) (redis w),
        reads := Suc (reads w)\<rparr>))"

definition redis_setnx :: "env \<Rightarrow> string \<Rightarrow> rval \<Rightarrow> int \<Rightarrow> bool step" where
  "redis_setnx e k v ttl = attempt e (\<lambda>w.
     (case redis_now e w k of Some _ \<Rightarrow> (Inr False, w\<lparr>reads := Suc (reads w)\<rparr>)
      | None \<Rightarrow> (Inr True, w\<lparr>redis := AList.update k (v, expiry (clock e (reads w)) ttl) (redis w),
          reads := Suc (reads w)\<rparr>)))"

definition redis_exists :: "env \<Rightarrow> string \<Rightarrow> bool step" where
  "redis_exists e k = attempt e (\<lambda>w. (Inr (redis_now e w k \<noteq> None), w\<lparr>reads := Suc (reads w)\<rparr>))"

definition redis_del :: "env \<Rightarrow> string list \<Rightarrow> unit step" where
  "redis_del e ks = attempt e (\<lambda>w.
     (Inr (), w\<lparr>redis := filter (\<lambda>kv. fst kv \<notin> set ks) (redis w)\<rparr>))"

text \<open>What the cache layer never touches.\<close>

definition core :: "world \<Rightarrow> database \<times> ((string \<times> string) \<times> string) list \<times>
    (string \<times> mq_body \<times> string) list \<times> bool \<times> nat" where
  "core w = (db w, store w, queues w, publisher w, drawn w)"

lemma core_eq [simp]:
  "core w' = core w \<longleftrightarrow> db w' = db w \<and> store w' = store w \<and> queues w' = queues w
    \<and> publisher w' = publisher w \<and> drawn w' = drawn w"
  by (simp add: core_def)

lemmas redis_defs = redis_get_def redis_set_def redis_setnx_def redis_del_def attempt_def Let_def

lemma redis_frame [frame]:
  "core (snd (redis_get e k w)) = core w"
  "core (snd (redis_set e k v ttl w)) = core w"
  "core (snd (redis_setnx e k v ttl w)) = core w"
  "core (snd (redis_del e ks w)) = core w"
  by (simp_all add: redis_defs split: option.splits)

lemma redis_frameD:
  "redis_get e k w = (r, w') \<Longrightarrow> core w' = core w"
  "redis_set e k v ttl w = (r2, w') \<Longrightarrow> core w' = core w"
  "redis_setnx e k v ttl w = (r3, w') \<Longrightarrow> core w' = core w"
  "redis_del e ks w = (r4, w') \<Longrightarrow> core w' = core w"
  using redis_frame by (metis snd_conv)+

section \<open>Keys\<close>

text \<open>\<open>BuildCacheKey\<close>: the parameters are printed with \<open>%v\<close>.\<close>

definition BuildCacheKey :: "string \<Rightarrow> string list \<Rightarrow> string" where
  "BuildCacheKey prefix params = foldl (\<lambda>key param. key @ '':'' @ param) prefix params"

definition CacheKeyUserFileList :: string where "CacheKeyUserFileList = ''user:file:list''"
definition CacheKeyUserInfo :: string where "CacheKeyUserInfo = ''user:info''"
definition CacheKeyFileObject :: string where "CacheKeyFileObject = ''file:object''"
definition CacheKeyFileObjectHash :: string where "CacheKeyFileObjectHash = ''file:object:hash''"
definition CacheKeyFileObjectPath :: string where "CacheKeyFileObjectPath = ''file:object:path''"

definition file_list_key ::
  "nat \<Rightarrow> nat \<Rightarrow> int \<Rightarrow> int \<Rightarrow> string \<Rightarrow> bool \<Rightarrow> string" where
  "file_list_key userId parentId page pageSize orderBy orderDesc =
     BuildCacheKey CacheKeyUserFileList [show_nat userId, show_nat parentId, show_int page,
       show_int pageSize, orderBy, show_bool orderDesc]"

definition user_info_key :: "nat \<Rightarrow> string" where
  "user_info_key userId = BuildCacheKey CacheKeyUserInfo [show_nat userId]"

definition file_object_key :: "nat \<Rightarrow> string" where
  "file_object_key objectId = BuildCacheKey CacheKeyFileObject [show_nat objectId]"

definition file_object_hash_key :: "string \<Rightarrow> string" where
  "file_object_hash_key hash = BuildCacheKey CacheKeyFileObjectHash [hash]"

definition file_object_path_key :: "string \<Rightarrow> string \<Rightarrow> string" where
  "file_object_path_key bucket object = BuildCacheKey CacheKeyFileObjectPath [bucket, object]"

section \<open>Glob patterns and SCAN\<close>

text \<open>Redis glob matching, for patterns of literal characters and \<open>*\<close> as the code builds them.\<close>

fun glob :: "string \<Rightarrow> string \<Rightarrow> bool" where
  "glob [] s = (s = [])"
| "glob (c # p) [] = (c = CHR ''*'' \<and> glob p [])"
| "glob (c # p) (x # s) =
     (if c = CHR ''*'' then glob p (x # s) \<or> glob (c # p) s else c = x \<and> glob p s)"

lemma glob_star [simp]: "glob [CHR ''*''] s"
  by (induction s) auto

lemma glob_literal_prefix:
  "CHR ''*'' \<notin> set p \<Longrightarrow> glob (p @ [CHR ''*'']) s \<longleftrightarrow> (\<exists>t. s = p @ t)"
proof (induction p arbitrary: s)
  case Nil
  then show ?case by simp
next
  case (Cons c p)
  then show ?case by (cases s) auto
qed

text \<open>
  \<open>RedisCache.DeleteByPattern\<close>: one \<open>SCAN\<close> per page until the cursor is back at 0, and a
  \<open>DEL\<close> of the page's matches. The pages are Redis's choice.
\<close>

fun delete_pages :: "env \<Rightarrow> string \<Rightarrow> string list list \<Rightarrow> unit step" where
  "delete_pages e pattern [] w = (Inr (), w)"
| "delete_pages e pattern (page # pages) w =
     (case attempt e (\<lambda>w. (Inr (filter (glob pattern) page), w)) w of
        (Inl err, w) \<Rightarrow> (Inl err, w)
      | (Inr keys, w) \<Rightarrow>
          if keys \<noteq> [] then
            (case redis_del e keys w of
               (Inl err, w) \<Rightarrow> (Inl err, w)
             | (Inr _, w) \<Rightarrow> delete_pages e pattern pages w)
          else delete_pages e pattern pages w)"

definition DeleteByPattern :: "env \<Rightarrow> string \<Rightarrow> unit step" where
  "DeleteByPattern e pattern w =
     delete_pages e pattern (scan_pages e (map fst (redis w))) w"

lemma delete_pages_core: "core (snd (delete_pages e p pgs w)) = core w"
proof (induction pgs arbitrary: w)
  case Nil
  then show ?case by simp
next
  case (Cons pg pgs)
  show ?case
    using Cons.IH redis_frame(4)
    by (simp add: attempt_def Let_def split: prod.splits sum.splits)
       (metis (no_types, lifting) snd_conv world.select_convs world.surjective world.update_convs(6))
qed

section \<open>The typed cache\<close>

definition GetUserFileListFromCache ::
  "env \<Rightarrow> nat \<Rightarrow> nat \<Rightarrow> int \<Rightarrow> int \<Rightarrow> string \<Rightarrow> bool \<Rightarrow> world
    \<Rightarrow> (user_file list \<times> int) option \<times> world" where
  "GetUserFileListFromCache e userId parentId page pageSize orderBy orderDesc w =
     (case redis_get e (file_list_key userId parentId page pageSize orderBy orderDesc) w of
        (Inr (RFiles fs n), w) \<Rightarrow> (Some (fs, n), w)
      | (_, w) \<Rightarrow> (None, w))"

definition SetUserFileListToCache ::
  "env \<Rightarrow> nat \<Rightarrow> nat \<Rightarrow> int \<Rightarrow> int \<Rightarrow> string \<Rightarrow> bool \<Rightarrow> user_file list \<Rightarrow> int \<Rightarrow> int
    \<Rightarrow> world \<Rightarrow> world" where
  "SetUserFileListToCache e userId parentId page pageSize orderBy orderDesc fs n ttl w =
     snd (redis_set e (file_list_key userId parentId page pageSize orderBy orderDesc)
       (RFiles fs n) ttl w)"

definition InvalidateUserFileListCache :: "env \<Rightarrow> nat \<Rightarrow> nat \<Rightarrow> world \<Rightarrow> world" where
  "InvalidateUserFileListCache e userId parentId w =
     snd (DeleteByPattern e
       (BuildCacheKey CacheKeyUserFileList [show_nat userId, show_nat parentId] @ '':*'') w)"

text \<open>\<open>model.User\<close> marshals without its password (\<open>json:"-"\<close>).\<close>

definition GetUserInfoFromCache :: "env \<Rightarrow> nat \<Rightarrow> world \<Rightarrow> user option \<times> world" where
  "GetUserInfoFromCache e userId w =
     (case redis_get e (user_info_key userId) w of
        (Inr (RUser u), w) \<Rightarrow> (Some u, w) | (_, w) \<Rightarrow> (None, w))"

definition SetUserInfoToCache :: "env \<Rightarrow> nat \<Rightarrow> user \<Rightarrow> int \<Rightarrow> world \<Rightarrow> world" where
  "SetUserInfoToCache e userId u ttl w =
     snd (redis_set e (user_info_key userId) (RUser (u\<lparr>u_Password := ''''\<rparr>)) ttl w)"

definition InvalidateUserInfoCache :: "env \<Rightarrow> nat \<Rightarrow> world \<Rightarrow> world" where
  "InvalidateUserInfoCache e userId w = snd (redis_del e [user_info_key userId] w)"

definition GetFileObjectFromCache :: "env \<Rightarrow> nat \<Rightarrow> world \<Rightarrow> file_object option \<times> world" where
  "GetFileObjectFromCache e objectId w =
     (case redis_get e (file_object_key objectId) w of
        (Inr (RObject o'), w) \<Rightarrow> (Some o', w) | (_, w) \<Rightarrow> (None, w))"

definition SetFileObjectToCache :: "env \<Rightarrow> nat \<Rightarrow> file_object \<Rightarrow> int \<Rightarrow> world \<Rightarrow> world" where
  "SetFileObjectToCache e objectId obj ttl w =
     snd (redis_set e (file_object_key objectId) (RObject obj) ttl w)"

definition InvalidateFileObjectCache :: "env \<Rightarrow> nat \<Rightarrow> world \<Rightarrow> world" where
  "InvalidateFileObjectCache e objectId w = snd (redis_del e [file_object_key objectId] w)"

definition GetFileObjectIDByHash :: "env \<Rightarrow> string \<Rightarrow> world \<Rightarrow> nat option \<times> world" where
  "GetFileObjectIDByHash e hash w =
     (case redis_get e (file_object_hash_key hash) w of
        (Inr (RNum n), w) \<Rightarrow> (if n = 0 then None else Some n, w) | (_, w) \<Rightarrow> (None, w))"

definition SetFileObjectIDByHash :: "env \<Rightarrow> string \<Rightarrow> nat \<Rightarrow> int \<Rightarrow> world \<Rightarrow> world" where
  "SetFileObjectIDByHash e hash objectId ttl w =
     snd (redis_set e (file_object_hash_key hash) (RNum objectId) ttl w)"

definition InvalidateFileObjectHashCache :: "env \<Rightarrow> string \<Rightarrow> world \<Rightarrow> world" where
  "InvalidateFileObjectHashCache e hash w = snd (redis_del e [file_object_hash_key hash] w)"

definition GetFileObjectIDByPath :: "env \<Rightarrow> string \<Rightarrow> string \<Rightarrow> world \<Rightarrow> nat option \<times> world" where
  "GetFileObjectIDByPath e bucket object w =
     (case redis_get e (file_object_path_key bucket object) w of
        (Inr (RNum n), w) \<Rightarrow> (if n = 0 then None else Some n, w) | (_, w) \<Rightarrow> (None, w))"

definition SetFileObjectIDByPath ::
  "env \<Rightarrow> string \<Rightarrow> string \<Rightarrow> nat \<Rightarrow> int \<Rightarrow> world \<Rightarrow> world" where
  "SetFileObjectIDByPath e bucket object objectId ttl w =
     snd (redis_set e (file_object_path_key bucket object) (RNum objectId) ttl w)"

definition InvalidateFileObjectPathCache ::
  "env \<Rightarrow> string \<Rightarrow> string \<Rightarrow> world \<Rightarrow> world" where
  "InvalidateFileObjectPathCache e bucket object w =
     snd (redis_del e [file_object_path_key bucket object] w)"

text \<open>The cache writes and invalidations leave the rest of the world alone.\<close>

lemma cache_write_frame [frame]:
  "core (SetUserFileListToCache e u p pg ps ob od fs n ttl w) = core w"
  "core (InvalidateUserFileListCache e u p w) = core w"
  "core (SetUserInfoToCache e u us ttl w) = core w"
  "core (InvalidateUserInfoCache e u w) = core w"
  "core (SetFileObjectToCache e k obj ttl w) = core w"
  "core (InvalidateFileObjectCache e k w) = core w"
  "core (SetFileObjectIDByHash e h k ttl w) = core w"
  "core (InvalidateFileObjectHashCache e h w) = core w"
  "core (SetFileObjectIDByPath e b ob k ttl w) = core w"
  "core (InvalidateFileObjectPathCache e b ob w) = core w"
  using redis_frame delete_pages_core
  unfolding SetUserFileListToCache_def InvalidateUserFileListCache_def SetUserInfoToCache_def
    InvalidateUserInfoCache_def SetFileObjectToCache_def InvalidateFileObjectCache_def
    SetFileObjectIDByHash_def InvalidateFileObjectHashCache_def SetFileObjectIDByPath_def
    InvalidateFileObjectPathCache_def DeleteByPattern_def
  by simp_all

lemmas cache_write_frame_simps [simp] = cache_write_frame [unfolded core_eq]

lemma cache_read_frame:
  "GetUserFileListFromCache e u p pg ps ob od w = (r1, w') \<Longrightarrow> core w' = core w"
  "GetUserInfoFromCache e u w = (r2, w') \<Longrightarrow> core w' = core w"
  "GetFileObjectFromCache e k w = (r3, w') \<Longrightarrow> core w' = core w"
  "GetFileObjectIDByHash e h w = (r4, w') \<Longrightarrow> core w' = core w"
  "GetFileObjectIDByPath e b ob w = (r4, w') \<Longrightarrow> core w' = core w"
  unfolding GetUserFileListFromCache_def GetUserInfoFromCache_def GetFileObjectFromCache_def
    GetFileObjectIDByHash_def GetFileObjectIDByPath_def
  by (auto split: prod.splits sum.splits rval.splits dest!: redis_frameD(1))

section \<open>Invalidation is exact\<close>

lemma map_of_filter_key:
  "map_of (filter (\<lambda>kv. P (fst kv)) xs) k = (if P k then map_of xs k else None)"
  by (induction xs) auto

lemma delete_pages_no_fault:
  assumes "fault e = (\<lambda>_. False)"
  shows "redis (snd (delete_pages e pat pgs w)) =
    filter (\<lambda>kv. \<not> (fst kv \<in> set (concat pgs) \<and> glob pat (fst kv))) (redis w)"
proof (induction pgs arbitrary: w)
  case Nil
  then show ?case by simp
next
  case (Cons pg pgs)
  show ?case
    using assms
    by (auto simp: Cons.IH attempt_def redis_del_def filter_empty_conv intro!: filter_cong)
qed

lemma DeleteByPattern_no_fault:
  assumes "fault e = (\<lambda>_. False)" and "\<And>ks. set (concat (scan_pages e ks)) = set ks"
  shows "redis (snd (DeleteByPattern e pat w)) = filter (\<lambda>kv. \<not> glob pat (fst kv)) (redis w)"
  unfolding DeleteByPattern_def delete_pages_no_fault [OF assms(1)] assms(2)
  by (rule filter_cong) auto

lemma file_list_key_form:
  "file_list_key u p pg ps ob od = ''user:file:list:'' @ show_nat u @ '':'' @ show_nat p @ '':''
     @ show_int pg @ '':'' @ show_int ps @ '':'' @ ob @ '':'' @ show_bool od"
  by (simp add: file_list_key_def BuildCacheKey_def CacheKeyUserFileList_def)

definition file_list_prefix :: "nat \<Rightarrow> nat \<Rightarrow> string" where
  "file_list_prefix u p = ''user:file:list:'' @ show_nat u @ '':'' @ show_nat p @ '':''"

lemma digit_not_star:
  assumes "n < 10"
  shows "digit n \<noteq> CHR ''*''"
proof
  assume "digit n = CHR ''*''"
  with of_char_digit [OF assms] have "of_char (CHR ''*'') = (48 + n :: nat)" by (simp only:)
  moreover have "of_char (CHR ''*'') = (42 :: nat)" by simp
  ultimately have "48 + n = 42" by (simp only:)
  then show False by linarith
qed

lemma show_nat_no_star: "CHR ''*'' \<notin> set (show_nat n)"
proof (induction n rule: show_nat.induct)
  case (1 n)
  have "digit (n mod 10) \<noteq> CHR ''*''" by (rule digit_not_star) simp
  with 1 show ?case
    by (cases "n < 10") (auto simp: show_nat.simps [of n] dest: digit_not_star)
qed

lemma glob_file_list:
  "glob (BuildCacheKey CacheKeyUserFileList [show_nat u, show_nat p] @ '':*'') k
     \<longleftrightarrow> (\<exists>t. k = file_list_prefix u p @ t)"
proof -
  have "BuildCacheKey CacheKeyUserFileList [show_nat u, show_nat p] @ '':*''
      = file_list_prefix u p @ [CHR ''*'']"
    by (simp add: BuildCacheKey_def CacheKeyUserFileList_def file_list_prefix_def)
  moreover have "CHR ''*'' \<notin> set (file_list_prefix u p)"
    using show_nat_no_star by (simp add: file_list_prefix_def)
  ultimately show ?thesis by (metis glob_literal_prefix)
qed

lemma file_list_key_prefix:
  "(\<exists>t. file_list_key u' p' pg ps ob od = file_list_prefix u p @ t) \<longleftrightarrow> u' = u \<and> p' = p"
  (is "?L \<longleftrightarrow> ?R")
proof
  assume ?L
  then obtain t where t: "show_nat u' @ CHR '':'' # (show_nat p' @ CHR '':'' # (show_int pg @ '':''
      @ show_int ps @ '':'' @ ob @ '':'' @ show_bool od)) = show_nat u @ CHR '':'' # (show_nat p @ CHR '':'' # t)"
    by (auto simp: file_list_key_form file_list_prefix_def)
  from colon_split [OF this show_nat_no_colon show_nat_no_colon]
  have u: "show_nat u' = show_nat u" and
    "show_nat p' @ CHR '':'' # (show_int pg @ '':'' @ show_int ps @ '':'' @ ob @ '':'' @ show_bool od)
      = show_nat p @ CHR '':'' # t" by auto
  with colon_split [OF this(2) show_nat_no_colon show_nat_no_colon] show ?R
    by (auto dest: show_nat_inj)
next
  assume ?R
  then show ?L by (simp add: file_list_key_form file_list_prefix_def)
qed

text \<open>C29: with Redis reachable and \<open>SCAN\<close> visiting every key, \<open>InvalidateUserFileListCache\<close> drops
  every cached listing of the folder, whatever its page, size and order, keeps the listings of
  every other user and folder (user 1 and folder 2 never match user 12), and keeps the cached
  file objects.\<close>
theorem InvalidateUserFileListCache_exact:
  assumes "fault e = (\<lambda>_. False)" and "\<And>ks. set (concat (scan_pages e ks)) = set ks"
  shows "map_of (redis (InvalidateUserFileListCache e u p w)) (file_list_key u' p' pg ps ob od) =
      (if u' = u \<and> p' = p then None else map_of (redis w) (file_list_key u' p' pg ps ob od))
    \<and> map_of (redis (InvalidateUserFileListCache e u p w)) (file_object_key k) =
      map_of (redis w) (file_object_key k)"
proof -
  have r: "redis (InvalidateUserFileListCache e u p w) =
      filter (\<lambda>kv. \<not> (\<exists>t. fst kv = file_list_prefix u p @ t)) (redis w)"
    by (simp add: InvalidateUserFileListCache_def DeleteByPattern_no_fault [OF assms] glob_file_list)
  have "\<not> (\<exists>t. file_object_key k = file_list_prefix u p @ t)"
    by (simp add: file_object_key_def BuildCacheKey_def CacheKeyFileObject_def file_list_prefix_def)
  then show ?thesis
    unfolding r map_of_filter_key [where P = "\<lambda>k. \<not> (\<exists>t. k = file_list_prefix u p @ t)"]
    by (simp add: file_list_key_prefix)
qed

text \<open>An environment without faults, on the simplest choices everywhere, for the witnesses.\<close>

definition config0 :: config where
  "config0 = \<lparr>BucketName = ''netdisk'', DownloadRetryMax = 5, DownloadRetryDelays = [10, 30],
     DownloadAllowPrivate = False, DownloadAllowedHosts = [], DownloadMaxBytes = 0\<rparr>"

definition env0 :: env where
  "env0 = \<lparr>AppConfig = config0, fault = (\<lambda>_. False), clock = int, uuid = show_nat,
     collate = id, scan_pages = (\<lambda>ks. [ks]), dayOf = (\<lambda>t. t div day_ns),
     formatDay = show_int, dateColumn = show_int\<rparr>"

lemma env0_simps [simp]:
  "AppConfig env0 = config0" "fault env0 = (\<lambda>_. False)" "clock env0 = int"
  "uuid env0 = show_nat" "collate env0 = id" "scan_pages env0 = (\<lambda>ks. [ks])"
  "dayOf env0 = (\<lambda>t. t div day_ns)" "formatDay env0 = show_int" "dateColumn env0 = show_int"
  by (simp_all add: env0_def)

lemma InvalidateUserFileListCache_exact_witness:
  "map_of (redis (InvalidateUserFileListCache env0 1 2
      (world0\<lparr>redis := [(file_list_key 1 2 1 20 '''' False, (RFiles [] 0, None))]\<rparr>)))
     (file_list_key 1 2 1 20 '''' False) = None"
  using InvalidateUserFileListCache_exact [of env0 1 2 _ 1 2] by simp

end
