(* ===== verification/Mq.thy ===== *)
theory Mq
  imports Cache
begin

text \<open>
  The RabbitMQ client of \<open>src/internal/mq/rabbitmq.go\<close>: the exchanges, queues and bindings it
  declares, the publisher it keeps, and the publish operations. A message published to an
  exchange reaches the queues bound to it under its routing key; a message of the retry queue
  that expires is dead-lettered to the exchange of the tasks.
\<close>

definition ExchangeTasks :: string where "ExchangeTasks = ''download.exchange''"
definition ExchangeRetry :: string where "ExchangeRetry = ''download.retry.exchange''"
definition ExchangeDLQ :: string where "ExchangeDLQ = ''download.dlq.exchange''"
definition ExchangeActivity :: string where "ExchangeActivity = ''activity.exchange''"
definition QueueTasks :: string where "QueueTasks = ''download.queue''"
definition QueueRetry :: string where "QueueRetry = ''download.retry.queue''"
definition QueueDLQ :: string where "QueueDLQ = ''download.dlq.queue''"
definition QueueActivity :: string where "QueueActivity = ''activity.queue''"
definition RoutingTask :: string where "RoutingTask = ''download''"
definition RoutingRetry :: string where "RoutingRetry = ''download.retry''"
definition RoutingDLQ :: string where "RoutingDLQ = ''download.dlq''"
definition RoutingActivity :: string where "RoutingActivity = ''activity''"

lemmas mq_names = ExchangeTasks_def ExchangeRetry_def ExchangeDLQ_def ExchangeActivity_def
  QueueTasks_def QueueRetry_def QueueDLQ_def QueueActivity_def
  RoutingTask_def RoutingRetry_def RoutingDLQ_def RoutingActivity_def

text \<open>\<open>DeclareTopology\<close>: the bindings (queue, routing key, exchange) and the dead-letter
  arguments of the queues.\<close>

record topology =
  tp_exchanges :: "string list"
  tp_queues :: "(string \<times> (string \<times> string) option) list"
  tp_bindings :: "(string \<times> string \<times> string) list"

definition DeclareTopology :: topology where
  "DeclareTopology = \<lparr>
     tp_exchanges = [ExchangeTasks, ExchangeRetry, ExchangeDLQ, ExchangeActivity],
     tp_queues = [(QueueTasks, None), (QueueRetry, Some (ExchangeTasks, RoutingTask)),
       (QueueDLQ, None), (QueueActivity, None)],
     tp_bindings = [(QueueTasks, RoutingTask, ExchangeTasks),
       (QueueRetry, RoutingRetry, ExchangeRetry), (QueueDLQ, RoutingDLQ, ExchangeDLQ),
       (QueueActivity, RoutingActivity, ExchangeActivity)]\<rparr>"

definition route :: "string \<Rightarrow> string \<Rightarrow> string list" where
  "route exchange key = map fst (filter (\<lambda>(q, k, x). k = key \<and> x = exchange)
     (tp_bindings DeclareTopology))"

definition dead_letter :: "string \<Rightarrow> (string \<times> string) option" where
  "dead_letter q = (case map_of (tp_queues DeclareTopology) q of None \<Rightarrow> None | Some a \<Rightarrow> a)"

text \<open>\<open>Dial\<close> followed by \<open>DeclareTopology\<close>, and \<open>GetPublisher\<close>: the environment decides whether
  the kept connection is still open.\<close>

definition dial_publisher :: "env \<Rightarrow> unit step" where
  "dial_publisher e w =
     (case attempt e (\<lambda>w. (Inr (), w)) w of
        (Inl err, w) \<Rightarrow> (Inl err, w)
      | (Inr _, w) \<Rightarrow>
          (case attempt e (\<lambda>w. (Inr (), w)) w of
             (Inl err, w) \<Rightarrow> (Inl err, w)
           | (Inr _, w) \<Rightarrow> (Inr (), w\<lparr>publisher := True\<rparr>)))"

definition GetPublisher :: "env \<Rightarrow> unit step" where
  "GetPublisher e w =
     (if publisher w then
        (case attempt e (\<lambda>w. (Inr (), w)) w of
           (Inr _, w) \<Rightarrow> (Inr (), w)
         | (Inl _, w) \<Rightarrow> dial_publisher e (w\<lparr>publisher := False\<rparr>))
      else dial_publisher e w)"

definition publish :: "env \<Rightarrow> string \<Rightarrow> string \<Rightarrow> mq_body \<Rightarrow> string \<Rightarrow> unit step" where
  "publish e exchange key body expiration = attempt e (\<lambda>w.
     (Inr (), w\<lparr>queues := queues w @ map (\<lambda>q. (q, body, expiration)) (route exchange key)\<rparr>))"

definition PublishTask :: "env \<Rightarrow> mq_body \<Rightarrow> unit step" where
  "PublishTask e body = publish e ExchangeTasks RoutingTask body ''''"

text \<open>\<open>delay.Milliseconds()\<close> of a duration in nanoseconds.\<close>

definition PublishRetry :: "env \<Rightarrow> mq_body \<Rightarrow> int \<Rightarrow> unit step" where
  "PublishRetry e body delay =
     (let delay = (if delay < 0 then 0 else delay);
          expiration = show_int (delay div 1000000)
      in publish e ExchangeRetry RoutingRetry body expiration)"

definition PublishDLQ :: "env \<Rightarrow> mq_body \<Rightarrow> unit step" where
  "PublishDLQ e body = publish e ExchangeDLQ RoutingDLQ body ''''"

definition PublishActivity :: "env \<Rightarrow> mq_body \<Rightarrow> unit step" where
  "PublishActivity e body = publish e ExchangeActivity RoutingActivity body ''''"

lemma route_simps [simp]:
  "route ExchangeTasks RoutingTask = [QueueTasks]"
  "route ExchangeRetry RoutingRetry = [QueueRetry]"
  "route ExchangeDLQ RoutingDLQ = [QueueDLQ]"
  "route ExchangeActivity RoutingActivity = [QueueActivity]"
  by (simp_all add: route_def DeclareTopology_def mq_names)

text \<open>What publishing never touches: the database, Redis and the object store.\<close>

definition data :: "world \<Rightarrow> database \<times> redis_db \<times> ((string \<times> string) \<times> string) list" where
  "data w = (db w, redis w, store w)"

lemma data_eq [simp]:
  "data w' = data w \<longleftrightarrow> db w' = db w \<and> redis w' = redis w \<and> store w' = store w"
  by (simp add: data_def)

lemma attempt_okD:
  "attempt e (\<lambda>w. (Inr (), w)) w = (r, w') \<Longrightarrow> w' = w\<lparr>requests := Suc (requests w)\<rparr>"
  by (auto simp: attempt_def Let_def split: if_splits)

lemma GetPublisher_data: "GetPublisher e w = (r, w') \<Longrightarrow> data w' = data w \<and> queues w' = queues w"
  by (auto simp: GetPublisher_def dial_publisher_def split: if_splits prod.splits sum.splits
      dest!: attempt_okD)

lemma publish_data: "publish e x k b exp w = (r, w') \<Longrightarrow> data w' = data w"
  by (auto simp: publish_def attempt_def Let_def split: if_splits)

lemma Publish_data:
  "PublishTask e b w = (r, w') \<Longrightarrow> data w' = data w"
  "PublishRetry e b dl w = (r, w') \<Longrightarrow> data w' = data w"
  "PublishDLQ e b w = (r, w') \<Longrightarrow> data w' = data w"
  "PublishActivity e b w = (r, w') \<Longrightarrow> data w' = data w"
  by (auto simp: PublishTask_def PublishRetry_def PublishDLQ_def PublishActivity_def Let_def
      dest: publish_data)

text \<open>A retry message is parked in the retry queue, with its delay in milliseconds as its
  expiration, and when it expires the broker's dead-letter arguments send it to the queue of the
  tasks and nowhere else, so that the worker sees it again.\<close>
theorem retry_returns_to_tasks:
  assumes "PublishRetry e body delay w = (Inr (), w')"
  shows "queues w' = queues w @ [(QueueRetry, body, show_int (max 0 delay div 1000000))]
    \<and> (\<exists>x k. dead_letter QueueRetry = Some (x, k) \<and> route x k = [QueueTasks])
    \<and> (\<forall>q. dead_letter q \<noteq> None \<longleftrightarrow> q = QueueRetry)"
proof -
  have "queues w' = queues w @ [(QueueRetry, body, show_int (max 0 delay div 1000000))]"
    using assms
    by (auto simp: PublishRetry_def publish_def attempt_def Let_def max_def split: if_splits)
  moreover have "dead_letter QueueRetry = Some (ExchangeTasks, RoutingTask)"
    by (simp add: dead_letter_def DeclareTopology_def mq_names)
  moreover have "dead_letter q \<noteq> None \<longleftrightarrow> q = QueueRetry" for q
    by (simp add: dead_letter_def DeclareTopology_def mq_names)
  ultimately show ?thesis by simp
qed

lemma retry_returns_to_tasks_witness:
  "queues (snd (PublishRetry env0 (RawMsg ''m'') 10000000 world0)) =
     [(QueueRetry, RawMsg ''m'', show_int 10)]"
proof -
  have "PublishRetry env0 (RawMsg ''m'') 10000000 world0 =
      (Inr (), snd (PublishRetry env0 (RawMsg ''m'') 10000000 world0))"
    by (simp add: PublishRetry_def publish_def attempt_def Let_def)
  from retry_returns_to_tasks [OF this] show ?thesis by (simp add: world0_def)
qed

end
