(* ===== verification/Activity.thy ===== *)
theory Activity
  imports Mq
begin

text \<open>
  The activity statistics of \<open>src/internal/activity/\<close> and the worker that feeds them
  (\<open>src/internal/worker/activity_worker.go\<close>): an event is published to RabbitMQ, or applied at
  once when publishing fails; applying it adds its counts to the user's row of the day in MySQL
  and to the Redis hash of the day, once per event id as long as Redis answers.
\<close>

section \<open>Events\<close>

definition ActionUpload :: string where "ActionUpload = ''upload''"
definition ActionDelete :: string where "ActionDelete = ''delete''"
definition ActionShare :: string where "ActionShare = ''share''"
definition ActionDownload :: string where "ActionDownload = ''download''"

lemmas action_names = ActionUpload_def ActionDelete_def ActionShare_def ActionDownload_def

definition validActions :: "string list" where
  "validActions = [ActionUpload, ActionDelete, ActionShare, ActionDownload]"

definition no_increments :: increments where
  "no_increments = \<lparr>UploadCount = 0, UploadBytes = 0, DeleteCount = 0, DeleteBytes = 0,
     ShareCount = 0, DownloadCount = 0, DownloadBytes = 0\<rparr>"

definition buildIncrements :: "string \<Rightarrow> int \<Rightarrow> increments" where
  "buildIncrements action bytes =
     (let bytes = (if bytes < 0 then 0 else bytes) in
      if action = ActionUpload then no_increments\<lparr>UploadCount := 1, UploadBytes := bytes\<rparr>
      else if action = ActionDelete then no_increments\<lparr>DeleteCount := 1, DeleteBytes := bytes\<rparr>
      else if action = ActionShare then no_increments\<lparr>ShareCount := 1\<rparr>
      else if action = ActionDownload then
        no_increments\<lparr>DownloadCount := 1, DownloadBytes := bytes\<rparr>
      else no_increments)"

definition add_increments :: "increments \<Rightarrow> increments \<Rightarrow> increments" where
  "add_increments a b = \<lparr>UploadCount = UploadCount a + UploadCount b,
     UploadBytes = UploadBytes a + UploadBytes b, DeleteCount = DeleteCount a + DeleteCount b,
     DeleteBytes = DeleteBytes a + DeleteBytes b, ShareCount = ShareCount a + ShareCount b,
     DownloadCount = DownloadCount a + DownloadCount b,
     DownloadBytes = DownloadBytes a + DownloadBytes b\<rparr>"

lemma add_increments_assoc:
  "add_increments (add_increments a b) c = add_increments a (add_increments b c)"
  by (simp add: add_increments_def)

lemma add_increments_commute: "add_increments a b = add_increments b a"
  by (simp add: add_increments_def)

lemma add_no_increments [simp]:
  "add_increments no_increments a = a" "add_increments a no_increments = a"
  by (simp_all add: add_increments_def no_increments_def)

section \<open>Applying an event\<close>

definition eventDedupPrefix :: string where "eventDedupPrefix = ''activity:event:dedup''"
definition dailyRedisPrefix :: string where "dailyRedisPrefix = ''activity:daily''"
definition eventDedupTTL :: int where "eventDedupTTL = day_ns"
definition dailyRedisTTL :: int where "dailyRedisTTL = 14 * day_ns"

text \<open>\<open>INSERT ... ON DUPLICATE KEY UPDATE\<close> on the index (user_id, stat_date).\<close>

definition upsert_daily :: "nat \<Rightarrow> int \<Rightarrow> increments \<Rightarrow> int
    \<Rightarrow> user_activity_daily table \<Rightarrow> user_activity_daily table" where
  "upsert_daily userID statDate inc t tbl =
     (let p = (\<lambda>r. ad_UserID r = userID \<and> ad_StatDate r = statDate) in
      if list_ex p (rows tbl)
      then update_rows p (\<lambda>r. r\<lparr>ad_Counts := add_increments (ad_Counts r) inc\<rparr>) tbl
      else insert_row ad_set \<lparr>ad_ID = 0, ad_UserID = userID, ad_StatDate = statDate,
             ad_Counts = inc, ad_CreatedAt = t, ad_UpdatedAt = t\<rparr> tbl)"

definition upsertDailyRow :: "env \<Rightarrow> nat \<Rightarrow> int \<Rightarrow> increments \<Rightarrow> unit step" where
  "upsertDailyRow e userID statDate inc w = (let (t, w) = timeNow e w in
     execute e (\<lambda>d. ((), d\<lparr>daily := upsert_daily userID statDate inc t (daily d)\<rparr>)) w)"

definition redisDailyKey :: "env \<Rightarrow> nat \<Rightarrow> int \<Rightarrow> string" where
  "redisDailyKey e userID statDate =
     dailyRedisPrefix @ '':'' @ show_nat userID @ '':'' @ formatDay e statDate"

definition hincr :: "string \<Rightarrow> int \<Rightarrow> (string \<times> int) list \<Rightarrow> (string \<times> int) list" where
  "hincr f n h = AList.update f ((case map_of h f of None \<Rightarrow> 0 | Some v \<Rightarrow> v) + n) h"

definition hincr_all :: "increments \<Rightarrow> (string \<times> int) list \<Rightarrow> (string \<times> int) list" where
  "hincr_all inc h =
     hincr ''download_bytes'' (DownloadBytes inc) (hincr ''download_count'' (DownloadCount inc)
     (hincr ''share_count'' (ShareCount inc) (hincr ''delete_bytes'' (DeleteBytes inc)
     (hincr ''delete_count'' (DeleteCount inc) (hincr ''upload_bytes'' (UploadBytes inc)
     (hincr ''upload_count'' (UploadCount inc) h))))))"

text \<open>The pipeline is one transaction of Redis; its error is ignored by the caller.\<close>

definition redis_add_daily :: "env \<Rightarrow> string \<Rightarrow> increments \<Rightarrow> unit step" where
  "redis_add_daily e key inc = attempt e (\<lambda>w.
     (let t = clock e (reads w); w' = w\<lparr>reads := Suc (reads w)\<rparr> in
      case redis_now e w key of
        None \<Rightarrow> (Inr (), w'\<lparr>redis := AList.update key
                   (RHash (hincr_all inc []), Some (t + dailyRedisTTL)) (redis w)\<rparr>)
      | Some (RHash h) \<Rightarrow> (Inr (), w'\<lparr>redis := AList.update key
                   (RHash (hincr_all inc h), Some (t + dailyRedisTTL)) (redis w)\<rparr>)
      | Some _ \<Rightarrow> (Inl ServiceErr, w')))"

definition dedup_key :: "event \<Rightarrow> string" where
  "dedup_key ev = eventDedupPrefix @ '':'' @ ev_EventID ev"

definition ApplyEvent :: "env \<Rightarrow> event \<Rightarrow> unit step" where
  "ApplyEvent e ev w =
     (if ev_UserID ev = 0 then (Inr (), w)
      else if ev_Action ev \<notin> set validActions then (Inr (), w)
      else
        let (occurredAt, w) = (if ev_OccurredAt ev = 0 then timeNow e w else (ev_OccurredAt ev, w));
            statDate = dayOf e occurredAt;
            inc = buildIncrements (ev_Action ev) (ev_FileBytes ev);
            (seen, dedupSet, w) =
              (if ev_EventID ev \<noteq> '''' then
                 (case redis_setnx e (dedup_key ev) (RText ''1'') eventDedupTTL w of
                    (Inl _, w) \<Rightarrow> (False, False, w)
                  | (Inr ok, w) \<Rightarrow> (\<not> ok, ok, w))
               else (False, False, w))
        in if seen then (Inr (), w)
        else
          (case upsertDailyRow e (ev_UserID ev) statDate inc w of
             (Inl err, w) \<Rightarrow>
               (Inl err, if dedupSet then snd (redis_del e [dedup_key ev] w) else w)
           | (Inr _, w) \<Rightarrow>
               (Inr (), snd (redis_add_daily e (redisDailyKey e (ev_UserID ev) statDate) inc w))))"

section \<open>Publishing an event\<close>

definition Publish :: "env \<Rightarrow> event \<Rightarrow> world \<Rightarrow> unit result \<times> event \<times> world" where
  "Publish e ev w =
     (if ev_UserID ev = 0 then (Inl (Errorf ''invalid user id''), ev, w)
      else if ev_Action ev \<notin> set validActions then (Inl (Errorf ''invalid action''), ev, w)
      else
        let (ev, w) = (if ev_EventID ev = '''' then
                         let (tok, w) = GetToken e w in (ev\<lparr>ev_EventID := tok\<rparr>, w) else (ev, w));
            (ev, w) = (if ev_OccurredAt ev = 0 then
                         let (t, w) = timeNow e w in (ev\<lparr>ev_OccurredAt := t\<rparr>, w) else (ev, w))
        in case GetPublisher e w of
             (Inl err, w) \<Rightarrow> (Inl err, ev, w)
           | (Inr _, w) \<Rightarrow> (let (r, w) = PublishActivity e (EventMsg ev) w in (r, ev, w)))"

definition Emit :: "env \<Rightarrow> nat \<Rightarrow> string \<Rightarrow> nat \<Rightarrow> int \<Rightarrow> unit step" where
  "Emit e userID action fileID fileBytes w =
     (let (tok, w) = GetToken e w;
          (t, w) = timeNow e w;
          ev = \<lparr>ev_EventID = tok, ev_UserID = userID, ev_Action = action, ev_FileID = fileID,
                ev_FileBytes = fileBytes, ev_OccurredAt = t\<rparr>
      in case Publish e ev w of
           (Inl _, ev, w) \<Rightarrow> ApplyEvent e ev w
         | (Inr _, _, w) \<Rightarrow> (Inr (), w))"

text \<open>
  \<open>handleActivityMessage\<close>: the delivery is acknowledged when its body does not decode or the
  event is applied, and goes back to the queue when applying it fails.
\<close>

datatype ack = Ack | NackRequeue

definition handleActivityMessage :: "env \<Rightarrow> mq_body \<Rightarrow> world \<Rightarrow> ack \<times> world" where
  "handleActivityMessage e body w =
     (case body of
        EventMsg ev \<Rightarrow> (case ApplyEvent e ev w of
                          (Inl _, w) \<Rightarrow> (NackRequeue, w) | (Inr _, w) \<Rightarrow> (Ack, w))
      | _ \<Rightarrow> (Ack, w))"

section \<open>The summary\<close>

text \<open>\<open>parseInt64(hash[f], fallback)\<close>: a missing field reads as the empty string.\<close>

definition parseInt64 :: "(string \<times> int) list \<Rightarrow> string \<Rightarrow> int \<Rightarrow> int" where
  "parseInt64 h f fallback = (case map_of h f of None \<Rightarrow> fallback | Some v \<Rightarrow> v)"

definition overlay :: "(string \<times> int) list \<Rightarrow> increments \<Rightarrow> increments" where
  "overlay h c = \<lparr>UploadCount = parseInt64 h ''upload_count'' (UploadCount c),
     UploadBytes = parseInt64 h ''upload_bytes'' (UploadBytes c),
     DeleteCount = parseInt64 h ''delete_count'' (DeleteCount c),
     DeleteBytes = parseInt64 h ''delete_bytes'' (DeleteBytes c),
     ShareCount = parseInt64 h ''share_count'' (ShareCount c),
     DownloadCount = parseInt64 h ''download_count'' (DownloadCount c),
     DownloadBytes = parseInt64 h ''download_bytes'' (DownloadBytes c)\<rparr>"

text \<open>
  One day of \<open>GetSummary\<close>: the row of MySQL is looked up by the printed date, in a map keyed by
  what the driver scanned from the \<open>DATE\<close> column; a non-empty Redis hash overrides it.
\<close>

definition summary_day :: "env \<Rightarrow> nat \<Rightarrow> user_activity_daily list \<Rightarrow> int \<Rightarrow> world
    \<Rightarrow> (string \<times> increments) \<times> world" where
  "summary_day e userID rs day w =
     (let date = formatDay e day;
          counts = (case map_of (rev (map (\<lambda>r. (dateColumn e (ad_StatDate r), ad_Counts r)) rs)) date of
                      None \<Rightarrow> no_increments | Some c \<Rightarrow> c)
      in case redis_get e (redisDailyKey e userID day) w of
           (Inr (RHash h), w) \<Rightarrow> ((date, if h = [] then counts else overlay h counts), w)
         | (_, w) \<Rightarrow> ((date, counts), w))"

fun summary_days :: "env \<Rightarrow> nat \<Rightarrow> user_activity_daily list \<Rightarrow> int \<Rightarrow> nat \<Rightarrow> world
    \<Rightarrow> (string \<times> increments) list \<times> world" where
  "summary_days e userID rs day 0 w = ([], w)"
| "summary_days e userID rs day (Suc n) w =
     (let (x, w) = summary_day e userID rs day w;
          (xs, w) = summary_days e userID rs (day + 1) n w in (x # xs, w))"

definition clamp_days :: "int \<Rightarrow> int" where
  "clamp_days days = (let days = (if days \<le> 0 then 7 else days) in if 90 < days then 90 else days)"

definition GetSummary :: "env \<Rightarrow> nat \<Rightarrow> int \<Rightarrow> (string \<times> increments) list step" where
  "GetSummary e userID days w =
     (let days = clamp_days days;
          (now, w) = timeNow e w;
          today = dayOf e now;
          start = today - (days - 1)
      in case query e (\<lambda>d. filter (\<lambda>r. ad_UserID r = userID \<and> start \<le> ad_StatDate r
                                      \<and> ad_StatDate r \<le> today) (rows (daily d))) w of
           (Inl err, w) \<Rightarrow> (Inl err, w)
         | (Inr rs, w) \<Rightarrow> (let (xs, w) = summary_days e userID rs start (nat days) w in (Inr xs, w)))"

section \<open>What applying an event does\<close>

lemma db_valid_daily:
  "db_valid ck d \<Longrightarrow> user_activity_daily_unique (rows t) \<Longrightarrow> db_valid ck (d\<lparr>daily := t\<rparr>)"
  by (simp add: db_valid_def file_object_fk_def user_file_fk_def upload_session_fk_def
      file_share_fk_def)

lemma upsert_daily_unique:
  assumes "user_activity_daily_unique (rows tbl)"
  shows "user_activity_daily_unique (rows (upsert_daily userID statDate inc t tbl))"
proof (cases "list_ex (\<lambda>r. ad_UserID r = userID \<and> ad_StatDate r = statDate) (rows tbl)")
  case True
  then show ?thesis
    using assms map_update_where [of "\<lambda>r. (ad_UserID r, ad_StatDate r)"
        "\<lambda>r. r\<lparr>ad_Counts := add_increments (ad_Counts r) inc\<rparr>"]
    by (simp add: upsert_daily_def user_activity_daily_unique_def update_rows_def del: map_map)
next
  case False
  then show ?thesis
    using assms
    by (auto simp: upsert_daily_def user_activity_daily_unique_def insert_row_def list_ex_iff Let_def)
qed

text \<open>The counts MySQL holds for a user and a day.\<close>

definition day_count :: "database \<Rightarrow> nat \<Rightarrow> int \<Rightarrow> increments" where
  "day_count d userID day =
     (case find (\<lambda>r. ad_UserID r = userID \<and> ad_StatDate r = day) (rows (daily d)) of
        None \<Rightarrow> no_increments | Some r \<Rightarrow> ad_Counts r)"

lemma find_append:
  "find p (xs @ ys) = (case find p xs of None \<Rightarrow> find p ys | Some x \<Rightarrow> Some x)"
  by (induction xs) auto

lemma find_update_where:
  "(\<And>r. q (f r) = q r) \<Longrightarrow>
   find q (update_where p f rs) = map_option (\<lambda>r. if p r then f r else r) (find q rs)"
  by (induction rs) auto

lemma find_None_list_ex: "find p xs = None \<longleftrightarrow> \<not> list_ex p xs"
  by (auto simp: find_None_iff list_ex_iff)

lemma day_count_upsert:
  "day_count (d\<lparr>daily := upsert_daily userID statDate inc t (daily d)\<rparr>) u day =
     (if u = userID \<and> day = statDate then add_increments (day_count d u day) inc
      else day_count d u day)"
proof -
  let ?p = "\<lambda>r. ad_UserID r = userID \<and> ad_StatDate r = statDate"
  let ?q = "\<lambda>r. ad_UserID r = u \<and> ad_StatDate r = day"
  let ?f = "\<lambda>r. r\<lparr>ad_Counts := add_increments (ad_Counts r) inc\<rparr>"
  show ?thesis
  proof (cases "list_ex ?p (rows (daily d))")
    case True
    then have r: "rows (upsert_daily userID statDate inc t (daily d)) =
        update_where ?p ?f (rows (daily d))"
      by (simp add: upsert_daily_def update_rows_def)
    have f: "find ?q (update_where ?p ?f (rows (daily d))) =
        map_option (\<lambda>r. if ?p r then ?f r else r) (find ?q (rows (daily d)))"
      by (rule find_update_where) simp
    show ?thesis
    proof (cases "find ?q (rows (daily d))")
      case None
      with True have "\<not> (u = userID \<and> day = statDate)" by (auto simp: find_None_list_ex)
      with None show ?thesis by (auto simp: day_count_def r f)
    next
      case (Some x)
      then have "?q x" by (auto simp: find_Some_iff)
      with Some show ?thesis by (auto simp: day_count_def r f)
    qed
  next
    case False
    then have "find ?p (rows (daily d)) = None" by (simp add: find_None_list_ex)
    with False show ?thesis
      by (auto simp: day_count_def upsert_daily_def insert_row_def find_append Let_def
          split: option.splits)
  qed
qed

lemma upsertDailyRow_no_fault:
  assumes "fault e = (\<lambda>_. False)" and "db_valid (collate e) (db w)"
  shows "upsertDailyRow e u day inc w = (Inr (), w\<lparr>requests := Suc (requests w),
    reads := Suc (reads w),
    db := (db w)\<lparr>daily := upsert_daily u day inc (clock e (reads w)) (daily (db w))\<rparr>\<rparr>)"
proof -
  from assms(2) have "db_valid (collate e)
      ((db w)\<lparr>daily := upsert_daily u day inc (clock e (reads w)) (daily (db w))\<rparr>)"
    by (intro db_valid_daily upsert_daily_unique) (simp_all add: db_valid_def)
  with assms(1) show ?thesis
    by (simp add: upsertDailyRow_def timeNow_def execute_def attempt_def)
qed

lemma redis_add_daily_core: "core (snd (redis_add_daily e k inc w)) = core w"
  by (simp add: redis_add_daily_def attempt_def Let_def split: option.splits rval.splits)

lemma map_of_update: "map_of (AList.update k v xs) = (map_of xs)(k \<mapsto> v)"
  by (rule update_conv')

lemma redis_setnx_no_fault:
  assumes "fault e = (\<lambda>_. False)"
  shows "redis_setnx e k v ttl w = (Inr (redis_now e w k = None),
    w\<lparr>requests := Suc (requests w), reads := Suc (reads w),
      redis := (if redis_now e w k = None
                then AList.update k (v, expiry (clock e (reads w)) ttl) (redis w) else redis w)\<rparr>)"
  using assms by (auto simp: redis_setnx_def attempt_def redis_now_def split: option.splits)

text \<open>An event the service accepts: a user, a known action, an id, a time.\<close>

definition acceptable :: "event \<Rightarrow> bool" where
  "acceptable ev \<longleftrightarrow> ev_UserID ev \<noteq> 0 \<and> ev_Action ev \<in> set validActions \<and> ev_EventID ev \<noteq> ''''
     \<and> ev_OccurredAt ev \<noteq> 0"



section \<open>Redelivery\<close>

lemma daily_key_not_dedup: "redisDailyKey e u day \<noteq> dedup_key ev"
  by (simp add: redisDailyKey_def dedup_key_def dailyRedisPrefix_def eventDedupPrefix_def)

lemma redis_add_daily_other:
  "k' \<noteq> k \<Longrightarrow> map_of (redis (snd (redis_add_daily e k inc w))) k' = map_of (redis w) k'"
  by (simp add: redis_add_daily_def attempt_def Let_def map_of_update
      split: option.splits rval.splits)

lemma ApplyEvent_seen:
  assumes "fault e = (\<lambda>_. False)" and "acceptable ev" and "redis_now e w (dedup_key ev) \<noteq> None"
  shows "fst (ApplyEvent e ev w) = Inr () \<and> db (snd (ApplyEvent e ev w)) = db w
    \<and> redis (snd (ApplyEvent e ev w)) = redis w"
  using assms by (auto simp: ApplyEvent_def acceptable_def redis_setnx_no_fault Let_def)

text \<open>An event that was applied and is delivered again before its deduplication key expires is
  acknowledged without a second effect: neither the counters nor the Redis keys change.\<close>
theorem ApplyEvent_redelivered:
  assumes "fault e = (\<lambda>_. False)" and "db_valid (collate e) (db w)" and "acceptable ev"
    and "redis_now e w (dedup_key ev) = None"
    and "clock e (reads (snd (ApplyEvent e ev w))) < clock e (reads w) + eventDedupTTL"
  shows "fst (ApplyEvent e ev (snd (ApplyEvent e ev w))) = Inr ()
    \<and> db (snd (ApplyEvent e ev (snd (ApplyEvent e ev w)))) = db (snd (ApplyEvent e ev w))
    \<and> redis (snd (ApplyEvent e ev (snd (ApplyEvent e ev w)))) = redis (snd (ApplyEvent e ev w))"
proof -
  let ?w1 = "snd (ApplyEvent e ev w)"
  have "map_of (redis ?w1) (dedup_key ev) =
      Some (RText ''1'', Some (clock e (reads w) + eventDedupTTL))"
    using assms(1-4)
    by (simp add: ApplyEvent_def acceptable_def redis_setnx_no_fault upsertDailyRow_no_fault Let_def
        redis_add_daily_other daily_key_not_dedup [symmetric] map_of_update expiry_def
        eventDedupTTL_def day_ns_def)
  with assms(5) have "redis_now e ?w1 (dedup_key ev) \<noteq> None"
    by (simp add: redis_now_def)
  with assms(1,3) show ?thesis by (intro ApplyEvent_seen)
qed

definition ev0 :: event where
  "ev0 = \<lparr>ev_EventID = ''x'', ev_UserID = 1, ev_Action = ''upload'', ev_FileID = 2,
     ev_FileBytes = 5, ev_OccurredAt = 7\<rparr>"

lemmas db_valid_defs = db_valid_def user_unique_def file_object_unique_def user_file_unique_def
  upload_session_unique_def file_chunk_unique_def file_share_unique_def
  user_activity_daily_unique_def user_favorite_unique_def user_recent_unique_def
  file_object_fk_def user_file_fk_def upload_session_fk_def file_share_fk_def

lemma db_valid_empty [simp]: "db_valid ck empty_db"
  by (simp add: db_valid_defs empty_db_def empty_table_def)

lemma acceptable_ev0 [simp]: "acceptable ev0"
  by (simp add: acceptable_def ev0_def validActions_def action_names)

lemma redis_now_world0 [simp]: "redis_now e world0 k = None"
  by (simp add: redis_now_def)

lemma ApplyEvent_ev0_reads: "reads (snd (ApplyEvent env0 ev0 world0)) = 3"
  by (simp add: ApplyEvent_def redis_setnx_no_fault upsertDailyRow_no_fault Let_def
      redis_add_daily_def attempt_def redis_now_def map_of_update daily_key_not_dedup)
     (simp add: ev0_def validActions_def action_names)

lemma ApplyEvent_redelivered_witness:
  "db (snd (ApplyEvent env0 ev0 (snd (ApplyEvent env0 ev0 world0)))) =
   db (snd (ApplyEvent env0 ev0 world0))"
  using ApplyEvent_redelivered [of env0 world0 ev0] ApplyEvent_ev0_reads
  by (simp add: eventDedupTTL_def day_ns_def)



section \<open>The summary of the last days\<close>

lemma summary_days_dates:
  "map fst (fst (summary_days e u rs day n w)) = map (\<lambda>i. formatDay e (day + int i)) [0..<n]"
proof (induction n arbitrary: day w)
  case 0
  then show ?case by simp
next
  case (Suc n)
  have d: "fst (fst (summary_day e u rs day w)) = formatDay e day" for w
    by (simp add: summary_day_def Let_def split: prod.splits sum.splits rval.splits)
  have "fst (summary_days e u rs day (Suc n) w) = fst (summary_day e u rs day w)
      # fst (summary_days e u rs (day + 1) n (snd (summary_day e u rs day w)))"
    by (simp split: prod.splits)
  moreover have "[0..<Suc n] = 0 # map Suc [0..<n]" by (simp only: upt_conv_Cons map_Suc_upt zero_less_Suc)
  ultimately show ?case
    using d [of w] by (simp only: list.map Suc.IH) (simp add: comp_def add.assoc)
qed

text \<open>The summary of a user has one entry per day of the clamped range (7 by default, 90 at
  most), in order, consecutive, and ends today.\<close>
theorem GetSummary_dates:
  assumes "GetSummary e u days w = (Inr xs, w')"
  shows "1 \<le> clamp_days days \<and> clamp_days days \<le> 90 \<and> map fst xs =
    map (\<lambda>i. formatDay e (dayOf e (clock e (reads w)) - (clamp_days days - 1) + int i))
      [0..<nat (clamp_days days)]"
proof -
  have "1 \<le> clamp_days days \<and> clamp_days days \<le> 90" by (simp add: clamp_days_def Let_def)
  moreover from assms obtain rs w1 where
    "xs = fst (summary_days e u rs (dayOf e (clock e (reads w)) - (clamp_days days - 1))
       (nat (clamp_days days)) w1)"
    by (auto simp: GetSummary_def timeNow_def Let_def split: prod.splits sum.splits) (metis fst_conv)
  ultimately show ?thesis using summary_days_dates by metis
qed

lemma GetSummary_dates_witness:
  "map fst (projr (fst (GetSummary env0 1 2 world0))) = [show_int (- 1), show_int 0]"
proof -
  have "GetSummary env0 1 2 world0 =
      (Inr (projr (fst (GetSummary env0 1 2 world0))), snd (GetSummary env0 1 2 world0))"
    by (simp add: GetSummary_def timeNow_def query_def attempt_def Let_def split: prod.splits)
  from GetSummary_dates [OF this] show ?thesis
    by (simp add: clamp_days_def day_ns_def upt_rec [of 0] upt_rec [of "Suc 0"] numeral_2_eq_2)
qed

section \<open>A cold Redis\<close>

text \<open>The counts \<open>GetSummary\<close> reads from the rows of MySQL for one day.\<close>

definition mysql_counts :: "env \<Rightarrow> user_activity_daily list \<Rightarrow> int \<Rightarrow> increments" where
  "mysql_counts e rs day =
     (case map_of (rev (map (\<lambda>r. (dateColumn e (ad_StatDate r), ad_Counts r)) rs)) (formatDay e day) of
        None \<Rightarrow> no_increments | Some c \<Rightarrow> c)"

lemma summary_day_cold:
  assumes "redis w = []"
  shows "fst (summary_day e u rs day w) = (formatDay e day, mysql_counts e rs day)
    \<and> redis (snd (summary_day e u rs day w)) = []"
  using assms
  by (simp add: summary_day_def mysql_counts_def Let_def redis_get_def attempt_def redis_now_def)

lemma summary_days_cold:
  "redis w = [] \<Longrightarrow> fst (summary_days e u rs day n w) =
     map (\<lambda>i. (formatDay e (day + int i), mysql_counts e rs (day + int i))) [0..<n]"
proof (induction n arbitrary: day w)
  case 0
  then show ?case by simp
next
  case (Suc n)
  note c = summary_day_cold [OF Suc.prems, of e u rs day]
  have "fst (summary_days e u rs day (Suc n) w) = fst (summary_day e u rs day w)
      # fst (summary_days e u rs (day + 1) n (snd (summary_day e u rs day w)))"
    by (simp split: prod.splits)
  moreover have "[0..<Suc n] = 0 # map Suc [0..<n]" by (simp only: upt_conv_Cons map_Suc_upt zero_less_Suc)
  ultimately show ?case
    using c by (simp only: list.map Suc.IH) (simp add: comp_def add.assoc)
qed

lemma map_of_rev_distinct:
  assumes "distinct (map fst xs)"
  shows "map_of (rev xs) k = map_of xs k"
proof (cases "map_of xs k")
  case None
  then have "k \<notin> fst ` set (rev xs)" by (simp add: map_of_eq_None_iff)
  then have "map_of (rev xs) k = None" by (simp only: map_of_eq_None_iff not_False_eq_True)
  with None show ?thesis by simp
next
  case (Some v)
  have d: "distinct (map fst (rev xs))" using assms by (simp add: rev_map [symmetric])
  from Some have "(k, v) \<in> set (rev xs)" by (simp add: map_of_SomeD)
  with d Some show ?thesis by (simp only: map_of_is_SomeI)
qed

lemma map_of_find:
  "inj k \<Longrightarrow> map_of (map (\<lambda>r. (k (a r), v r)) rs) (k x) = map_option v (find (\<lambda>r. a r = x) rs)"
  by (induction rs) (auto dest: injD)

lemma find_filter: "find p (filter q rs) = find (\<lambda>r. q r \<and> p r) rs"
  by (induction rs) auto

lemma find_cong_on: "(\<And>r. r \<in> set rs \<Longrightarrow> p r = q r) \<Longrightarrow> find p rs = find q rs"
  by (induction rs) auto

lemma mysql_counts_day_count:
  assumes "user_activity_daily_unique (rows (daily d))" and "inj (formatDay e)"
    and "dateColumn e = formatDay e" and "lo \<le> day" and "day \<le> hi"
  shows "mysql_counts e (filter (\<lambda>r. ad_UserID r = u \<and> lo \<le> ad_StatDate r \<and> ad_StatDate r \<le> hi)
    (rows (daily d))) day = day_count d u day"
proof -
  let ?rs = "filter (\<lambda>r. ad_UserID r = u \<and> lo \<le> ad_StatDate r \<and> ad_StatDate r \<le> hi) (rows (daily d))"
  let ?xs = "map (\<lambda>r. (formatDay e (ad_StatDate r), ad_Counts r)) ?rs"
  have "distinct (map (\<lambda>r. (ad_UserID r, ad_StatDate r)) ?rs)"
    using assms(1) unfolding user_activity_daily_unique_def by (rule distinct_map_filterI)
  then have "distinct (map (\<lambda>r. formatDay e (ad_StatDate r)) ?rs)"
    using assms(2) by (auto simp: distinct_map inj_on_def dest: injD)
  then have "distinct (map fst ?xs)" by (simp add: comp_def)
  then have "map_of (rev ?xs) (formatDay e day) = map_of ?xs (formatDay e day)"
    by (rule map_of_rev_distinct)
  also have "\<dots> = map_option ad_Counts (find (\<lambda>r. ad_StatDate r = day) ?rs)"
    using assms(2) by (rule map_of_find)
  also have "find (\<lambda>r. ad_StatDate r = day) ?rs =
      find (\<lambda>r. ad_UserID r = u \<and> ad_StatDate r = day) (rows (daily d))"
    unfolding find_filter using assms(4,5) by (intro find_cong_on) auto
  finally show ?thesis
    by (simp add: mysql_counts_def day_count_def assms(3) rev_map split: option.splits)
qed

text \<open>With an empty Redis and a date column that reads back in the format the code prints, the
  summary shows the counts of MySQL for every day of the range.\<close>
theorem GetSummary_cold:
  assumes "fault e = (\<lambda>_. False)" and "redis w = []"
    and "user_activity_daily_unique (rows (daily (db w)))" and "inj (formatDay e)"
    and "dateColumn e = formatDay e"
  shows "fst (GetSummary e u days w) = Inr (map (\<lambda>i.
    let day = dayOf e (clock e (reads w)) - (clamp_days days - 1) + int i
    in (formatDay e day, day_count (db w) u day)) [0..<nat (clamp_days days)])"
proof -
  have b: "clamp_days days \<ge> 1" by (simp add: clamp_days_def Let_def)
  show ?thesis
    using assms(1,2) b
    by (simp add: GetSummary_def timeNow_def query_def attempt_def Let_def case_prod_beta
        summary_days_cold mysql_counts_day_count [OF assms(3-5)])
qed

lemma GetSummary_cold_witness:
  "fst (GetSummary env0 1 2 world0) =
     Inr [(show_int (- 1), no_increments), (show_int 0, no_increments)]"
  using GetSummary_cold [of env0 world0 1 2] show_int_inj
  by (simp add: user_activity_daily_unique_def empty_db_def empty_table_def clamp_days_def day_ns_def
      day_count_def numeral_2_eq_2)

text \<open>When the driver hands the \<open>DATE\<close> column over in a format that is never the printed one
  (an RFC 3339 time, as with \<open>parseTime=True\<close>), the rows of MySQL are not found: with an empty
  Redis every day of the summary is zero, whatever MySQL holds.\<close>
theorem GetSummary_other_date_format:
  assumes "fault e = (\<lambda>_. False)" and "redis w = []"
    and "\<And>a b. dateColumn e a \<noteq> formatDay e b"
  shows "fst (GetSummary e u days w) = Inr (map (\<lambda>i.
    (formatDay e (dayOf e (clock e (reads w)) - (clamp_days days - 1) + int i), no_increments))
      [0..<nat (clamp_days days)])"
proof -
  have "mysql_counts e rs day = no_increments" for rs day
  proof -
    have "map_of (rev (map (\<lambda>r. (dateColumn e (ad_StatDate r), ad_Counts r)) rs)) (formatDay e day) = None"
      using assms(3) by (auto simp: map_of_eq_None_iff dest: sym)
    then show ?thesis by (simp add: mysql_counts_def)
  qed
  then show ?thesis
    using assms(1,2)
    by (simp add: GetSummary_def timeNow_def query_def attempt_def Let_def case_prod_beta
        summary_days_cold)
qed

lemma GetSummary_other_date_format_witness:
  "let e = env0\<lparr>dateColumn := (\<lambda>d. show_int d @ ''T'')\<rparr>;
       day = \<lparr>ad_ID = 1, ad_UserID = 1, ad_StatDate = 0,
               ad_Counts = no_increments\<lparr>UploadCount := 3\<rparr>, ad_CreatedAt = 0, ad_UpdatedAt = 0\<rparr>;
       w = world0\<lparr>db := empty_db\<lparr>daily := \<lparr>rows = [day], next_key = 2\<rparr>\<rparr>\<rparr>
   in fst (GetSummary e 1 1 w) = Inr [(show_int 0, no_increments)]"
proof -
  have "show_int a @ ''T'' \<noteq> show_int b" for a b
  proof
    assume "show_int a @ ''T'' = show_int b"
    then have "CHR ''T'' \<in> set (show_int b)" by (metis in_set_conv_decomp)
    then show False using show_nat_range [of "CHR ''T''"] by (auto simp: show_int_def split: if_splits)
  qed
  then show ?thesis
    using GetSummary_other_date_format [of "env0\<lparr>dateColumn := (\<lambda>d. show_int d @ ''T'')\<rparr>"
        "world0\<lparr>db := empty_db\<lparr>daily := \<lparr>rows = [\<lparr>ad_ID = 1, ad_UserID = 1, ad_StatDate = 0,
               ad_Counts = no_increments\<lparr>UploadCount := 3\<rparr>, ad_CreatedAt = 0, ad_UpdatedAt = 0\<rparr>],
             next_key = 2\<rparr>\<rparr>\<rparr>" 1 1]
    by (simp add: clamp_days_def day_ns_def)
qed

end
