(* ===== verification/Tables.thy ===== *)
theory Tables
  imports Activity
begin

text \<open>
  The statements the services issue on the tables of file objects, upload sessions, chunks and
  users, in the shape of those on \<open>user_file\<close> in \<open>World\<close>, with what each does to the database.
\<close>

section \<open>Timed statements\<close>

definition execute_at :: "env \<Rightarrow> (int \<Rightarrow> database \<Rightarrow> 'a \<times> database) \<Rightarrow> 'a step" where
  "execute_at e f w = (let (t, w) = timeNow e w in execute e (f t) w)"

lemma execute_at_frame: "execute_at e f w = (r, w') \<Longrightarrow> svcs w' = svcs w"
  by (auto simp: execute_at_def timeNow_def dest: execute_frame)

lemma execute_at_InrD:
  "execute_at e f w = (Inr a, w') \<Longrightarrow>
   f (clock e (reads w)) (db w) = (a, db w') \<and> db_valid (collate e) (db w')"
  by (auto simp: execute_at_def timeNow_def dest: execute_InrD)

lemma execute_okD:
  "execute e f w = (Inr a, w') \<Longrightarrow>
   db w' = snd (f (db w)) \<and> a = fst (f (db w)) \<and> db_valid (collate e) (db w')"
  using execute_InrD [of e f w a w'] by (metis fst_conv snd_conv)

lemma execute_at_okD:
  "execute_at e f w = (Inr a, w') \<Longrightarrow> db w' = snd (f (clock e (reads w)) (db w))
    \<and> a = fst (f (clock e (reads w)) (db w)) \<and> db_valid (collate e) (db w')"
  using execute_at_InrD [of e f w a w'] by (metis fst_conv snd_conv)

lemma execute_at_InlD: "execute_at e f w = (Inl err, w') \<Longrightarrow> db w' = db w"
  by (auto simp: execute_at_def timeNow_def dest: execute_InlD)

lemma execute_at_db_wf:
  assumes "db_wf (collate e) (db w)" and "\<And>t d. keys_wf d \<Longrightarrow> keys_wf (snd (f t d))"
  shows "db_wf (collate e) (db (snd (execute_at e f w)))"
  using assms by (auto simp: execute_at_def timeNow_def intro: execute_db_wf)

lemma execute_no_fault:
  assumes "fault e = (\<lambda>_. False)" and "f (db w) = (a, d)" and "db_valid (collate e) d"
  shows "execute e f w = (Inr a, w\<lparr>requests := Suc (requests w), db := d\<rparr>)"
  using assms by (simp add: execute_def attempt_def)

lemma query_no_fault:
  "fault e = (\<lambda>_. False) \<Longrightarrow> query e q w = (Inr (q (db w)), w\<lparr>requests := Suc (requests w)\<rparr>)"
  by (simp add: query_def attempt_def)

lemma query_row_no_fault:
  "fault e = (\<lambda>_. False) \<Longrightarrow> query_row e q w =
     (case q (db w) of None \<Rightarrow> Inl RecordNotFound | Some r \<Rightarrow> Inr r, w\<lparr>requests := Suc (requests w)\<rparr>)"
  by (simp add: query_row_def attempt_def)

section \<open>The file_object table\<close>

definition first_object :: "env \<Rightarrow> (file_object \<Rightarrow> bool) \<Rightarrow> file_object step" where
  "first_object e p = query_row e (\<lambda>d. first_row fo_ID p (objects d))"

text \<open>A zero \<open>RefCount\<close> is written as the column's default, 1.\<close>

definition create_object :: "env \<Rightarrow> file_object \<Rightarrow> nat step" where
  "create_object e r = execute_at e (\<lambda>t d. (next_key (objects d), d\<lparr>objects := insert_row fo_set
     (r\<lparr>fo_RefCount := (if fo_RefCount r = 0 then 1 else fo_RefCount r), fo_CreatedAt := t\<rparr>)
     (objects d)\<rparr>))"

definition update_objects ::
  "env \<Rightarrow> (file_object \<Rightarrow> bool) \<Rightarrow> (file_object \<Rightarrow> file_object) \<Rightarrow> unit step" where
  "update_objects e p f = execute e (\<lambda>d. ((), d\<lparr>objects := update_rows p f (objects d)\<rparr>))"

definition delete_object :: "env \<Rightarrow> nat \<Rightarrow> unit step" where
  "delete_object e k =
     execute e (\<lambda>d. ((), d\<lparr>objects := delete_rows (\<lambda>r. fo_ID r = k) (objects d)\<rparr>))"

section \<open>The upload_session and file_chunk tables\<close>

text \<open>\<open>Order("id desc").First\<close> on a condition.\<close>

definition last_session :: "env \<Rightarrow> (upload_session \<Rightarrow> bool) \<Rightarrow> upload_session step" where
  "last_session e p = query_row e (\<lambda>d. last_row us_ID p (sessions d))"

definition first_session :: "env \<Rightarrow> (upload_session \<Rightarrow> bool) \<Rightarrow> upload_session step" where
  "first_session e p = query_row e (\<lambda>d. first_row us_ID p (sessions d))"

definition create_session :: "env \<Rightarrow> upload_session \<Rightarrow> nat step" where
  "create_session e r = execute_at e (\<lambda>t d. (next_key (sessions d), d\<lparr>sessions := insert_row us_set
     (r\<lparr>us_CreatedAt := t, us_UpdatedAt := t\<rparr>) (sessions d)\<rparr>))"

definition delete_session :: "env \<Rightarrow> nat \<Rightarrow> unit step" where
  "delete_session e k =
     execute e (\<lambda>d. ((), d\<lparr>sessions := delete_rows (\<lambda>r. us_ID r = k) (sessions d)\<rparr>))"

definition find_chunks :: "env \<Rightarrow> (file_chunk \<Rightarrow> bool) \<Rightarrow> file_chunk list step" where
  "find_chunks e p = query e (\<lambda>d. filter p (rows (chunks d)))"

text \<open>\<open>INSERT ... ON DUPLICATE KEY UPDATE chunk_size, chunk_path, status, updated_at\<close>.\<close>

definition upsert_chunk_row ::
  "(string \<Rightarrow> string) \<Rightarrow> file_chunk \<Rightarrow> int \<Rightarrow> file_chunk table \<Rightarrow> file_chunk table" where
  "upsert_chunk_row ck c t tbl =
     (let p = (\<lambda>r. ck (fc_UploadID r) = ck (fc_UploadID c) \<and> fc_ChunkIndex r = fc_ChunkIndex c) in
      if list_ex p (rows tbl)
      then update_rows p (\<lambda>r. r\<lparr>fc_ChunkSize := fc_ChunkSize c, fc_ChunkPath := fc_ChunkPath c,
             fc_Status := fc_Status c, fc_UpdatedAt := t\<rparr>) tbl
      else insert_row fc_set (c\<lparr>fc_CreatedAt := t, fc_UpdatedAt := t\<rparr>) tbl)"

definition upsert_chunk :: "env \<Rightarrow> file_chunk \<Rightarrow> unit step" where
  "upsert_chunk e c = execute_at e (\<lambda>t d.
     ((), d\<lparr>chunks := upsert_chunk_row (collate e) c t (chunks d)\<rparr>))"

definition delete_chunks :: "env \<Rightarrow> (file_chunk \<Rightarrow> bool) \<Rightarrow> unit step" where
  "delete_chunks e p = execute e (\<lambda>d. ((), d\<lparr>chunks := delete_rows p (chunks d)\<rparr>))"

section \<open>The user table\<close>

definition first_user :: "env \<Rightarrow> (user \<Rightarrow> bool) \<Rightarrow> user step" where
  "first_user e p = query_row e (\<lambda>d. first_row u_ID (\<lambda>r. u_live r \<and> p r) (users d))"

section \<open>What the statements do\<close>

lemma keys_wf_objects: "keys_wf d \<Longrightarrow> fot.keys_ok t \<Longrightarrow> keys_wf (d\<lparr>objects := t\<rparr>)"
  by (simp add: keys_wf_def)

lemma create_object_db_wf:
  "db_wf (collate e) (db w) \<Longrightarrow> db_wf (collate e) (db (snd (create_object e r w)))"
  unfolding create_object_def
  by (rule execute_at_db_wf) (auto simp: keys_wf_def intro: fot.keys_ok_ins)

lemma update_objects_db_wf:
  "db_wf (collate e) (db w) \<Longrightarrow> (\<And>r. fo_ID (f r) = fo_ID r) \<Longrightarrow>
   db_wf (collate e) (db (snd (update_objects e p f w)))"
  unfolding update_objects_def
  by (rule execute_db_wf) (auto simp: keys_wf_def intro!: fot.keys_ok_upd)

lemma delete_object_db_wf:
  "db_wf (collate e) (db w) \<Longrightarrow> db_wf (collate e) (db (snd (delete_object e k w)))"
  unfolding delete_object_def
  by (rule execute_db_wf) (auto simp: keys_wf_def intro: fot.keys_ok_del)

lemma create_session_db_wf:
  "db_wf (collate e) (db w) \<Longrightarrow> db_wf (collate e) (db (snd (create_session e r w)))"
  unfolding create_session_def
  by (rule execute_at_db_wf) (auto simp: keys_wf_def intro: ust.keys_ok_ins)

lemma delete_session_db_wf:
  "db_wf (collate e) (db w) \<Longrightarrow> db_wf (collate e) (db (snd (delete_session e k w)))"
  unfolding delete_session_def
  by (rule execute_db_wf) (auto simp: keys_wf_def intro: ust.keys_ok_del)

lemma upsert_chunk_db_wf:
  "db_wf (collate e) (db w) \<Longrightarrow> db_wf (collate e) (db (snd (upsert_chunk e c w)))"
  unfolding upsert_chunk_def
  by (rule execute_at_db_wf)
     (auto simp: keys_wf_def upsert_chunk_row_def Let_def intro: fct.keys_ok_ins fct.keys_ok_upd)

lemma delete_chunks_db_wf:
  "db_wf (collate e) (db w) \<Longrightarrow> db_wf (collate e) (db (snd (delete_chunks e p w)))"
  unfolding delete_chunks_def
  by (rule execute_db_wf) (auto simp: keys_wf_def intro: fct.keys_ok_del)

text \<open>The statements on sessions and chunks touch neither the files nor the objects.\<close>

definition tree :: "database \<Rightarrow> user_file table \<times> file_object table \<times> file_share table" where
  "tree d = (files d, objects d, shares d)"

lemma tree_eq [simp]:
  "tree d' = tree d \<longleftrightarrow> files d' = files d \<and> objects d' = objects d \<and> shares d' = shares d"
  by (simp add: tree_def)

lemma execute_tree:
  "execute e f w = (r, w') \<Longrightarrow> (\<And>d. tree (snd (f d)) = tree d) \<Longrightarrow> tree (db w') = tree (db w)"
proof -
  assume a: "execute e f w = (r, w')" and t: "\<And>d. tree (snd (f d)) = tree d"
  show ?thesis
  proof (cases r)
    case (Inl x)
    with execute_InlD a show ?thesis by metis
  next
    case (Inr x)
    with execute_InrD a have "f (db w) = (x, db w')" by metis
    with t [of "db w"] show ?thesis by (metis snd_conv)
  qed
qed

lemma execute_at_tree:
  "execute_at e f w = (r, w') \<Longrightarrow> (\<And>t d. tree (snd (f t d)) = tree d) \<Longrightarrow> tree (db w') = tree (db w)"
  by (auto simp: execute_at_def timeNow_def simp del: tree_eq dest!: execute_tree)

lemma upload_tree:
  "create_session e r w = (x1, w') \<Longrightarrow> tree (db w') = tree (db w)"
  "delete_session e k w = (x2, w') \<Longrightarrow> tree (db w') = tree (db w)"
  "upsert_chunk e c w = (x2, w') \<Longrightarrow> tree (db w') = tree (db w)"
  "delete_chunks e p w = (x2, w') \<Longrightarrow> tree (db w') = tree (db w)"
  unfolding create_session_def delete_session_def upsert_chunk_def delete_chunks_def
  by (erule execute_tree execute_at_tree, simp)+

lemma upload_frame:
  "create_session e r w = (x1, w') \<Longrightarrow> svcs w' = svcs w"
  "delete_session e k w = (x2, w') \<Longrightarrow> svcs w' = svcs w"
  "upsert_chunk e c w = (x2, w') \<Longrightarrow> svcs w' = svcs w"
  "delete_chunks e p w = (x2, w') \<Longrightarrow> svcs w' = svcs w"
  unfolding create_session_def delete_session_def upsert_chunk_def delete_chunks_def
  by (erule execute_frame execute_at_frame)+

lemma object_frame:
  "create_object e r w = (x1, w') \<Longrightarrow> svcs w' = svcs w"
  "update_objects e p f w = (x2, w') \<Longrightarrow> svcs w' = svcs w"
  "delete_object e k w = (x2, w') \<Longrightarrow> svcs w' = svcs w"
  unfolding create_object_def update_objects_def delete_object_def
  by (erule execute_frame execute_at_frame)+

end
