(* ===== verification/Storage.thy ===== *)
theory Storage
  imports Tables
begin

text \<open>
  The object store behind \<open>storage.Store\<close> (\<open>src/internal/storage/store.go\<close>), as \<open>MinioStore\<close>
  of \<open>src/internal/storage/minio.go\<close> offers it, and the contract its clients rely on: an object
  reads back what was put last under its bucket and name, other objects are not affected, a
  composed object holds its sources one after the other.
\<close>

section \<open>The contract\<close>

locale object_store =
  fixes get :: "'k \<Rightarrow> 's \<Rightarrow> 'c list option"
    and put :: "'k \<Rightarrow> 'c list \<Rightarrow> 's \<Rightarrow> 's"
    and del :: "'k \<Rightarrow> 's \<Rightarrow> 's"
  assumes get_put: "get k (put k' v s) = (if k = k' then Some v else get k s)"
    and get_del: "get k (del k' s) = (if k = k' then None else get k s)"
begin

definition collect :: "'k list \<Rightarrow> 's \<Rightarrow> 'c list option" where
  "collect ks s = (if \<forall>k\<in>set ks. get k s \<noteq> None
     then Some (concat (map (\<lambda>k. the (get k s)) ks)) else None)"

lemma collect_cong:
  "(\<And>k. k \<in> set ks \<Longrightarrow> get k s' = get k s) \<Longrightarrow> collect ks s' = collect ks s"
proof -
  assume a: "\<And>k. k \<in> set ks \<Longrightarrow> get k s' = get k s"
  then have m: "map (\<lambda>k. the (get k s')) ks = map (\<lambda>k. the (get k s)) ks" by simp
  from a show ?thesis unfolding collect_def m by auto
qed

lemma collect_Some:
  "(\<And>k. k \<in> set ks \<Longrightarrow> get k s = Some (f k)) \<Longrightarrow> collect ks s = Some (concat (map f ks))"
proof -
  assume a: "\<And>k. k \<in> set ks \<Longrightarrow> get k s = Some (f k)"
  then have m: "map (\<lambda>k. the (get k s)) ks = map f ks" by simp
  from a show ?thesis unfolding collect_def m by auto
qed

lemma collect_put_fresh: "k \<notin> set ks \<Longrightarrow> collect ks (put k v s) = collect ks s"
  by (rule collect_cong) (auto simp: get_put)

lemma get_dels: "get k (fold del ks s) = (if k \<in> set ks then None else get k s)"
  by (induction ks arbitrary: s) (auto simp: get_del)

text \<open>Composing parts that were put under distinct keys gives the parts in order.\<close>

lemma get_puts:
  "distinct (map fst kvs) \<Longrightarrow> (k, v) \<in> set kvs \<Longrightarrow> get k (fold (\<lambda>(k, v). put k v) kvs s) = Some v"
proof (induction kvs arbitrary: s)
  case Nil
  then show ?case by simp
next
  case (Cons kv kvs)
  have other: "k \<notin> fst ` set kvs \<Longrightarrow> get k (fold (\<lambda>(k, v). put k v) kvs s') = get k s'" for s'
    by (induction kvs arbitrary: s') (auto simp: get_put)
  show ?case
  proof (cases "kv = (k, v)")
    case True
    with Cons.prems show ?thesis by (auto simp: other get_put)
  next
    case False
    with Cons.prems have "(k, v) \<in> set kvs" by auto
    with Cons show ?thesis by (auto split: prod.splits)
  qed
qed

lemma collect_puts:
  assumes "distinct (map fst kvs)"
  shows "collect (map fst kvs) (fold (\<lambda>(k, v). put k v) kvs s) = Some (concat (map snd kvs))"
proof -
  let ?s = "fold (\<lambda>(k, v). put k v) kvs s"
  have g: "\<And>kv. kv \<in> set kvs \<Longrightarrow> get (fst kv) ?s = Some (snd kv)"
    using get_puts [OF assms] by (metis prod.collapse)
  then have "map (\<lambda>k. the (get k ?s)) (map fst kvs) = map snd kvs" by simp
  with g show ?thesis by (auto simp: collect_def simp del: map_map)
qed

end

section \<open>MinioStore\<close>

definition obj_get :: "string \<times> string \<Rightarrow> world \<Rightarrow> string option" where
  "obj_get k w = map_of (store w) k"

definition obj_put :: "string \<times> string \<Rightarrow> string \<Rightarrow> world \<Rightarrow> world" where
  "obj_put k v w = w\<lparr>store := AList.update k v (store w)\<rparr>"

definition obj_del :: "string \<times> string \<Rightarrow> world \<Rightarrow> world" where
  "obj_del k w = w\<lparr>store := filter (\<lambda>kv. fst kv \<noteq> k) (store w)\<rparr>"

interpretation os: object_store obj_get obj_put obj_del
  by unfold_locales
     (simp_all add: obj_get_def obj_put_def obj_del_def map_of_update
        map_of_filter_key [where P = "\<lambda>k. k \<noteq> k'" for k'])

definition PutObject :: "env \<Rightarrow> string \<Rightarrow> string \<Rightarrow> string \<Rightarrow> unit step" where
  "PutObject e bucket object contents =
     attempt e (\<lambda>w. (Inr (), obj_put (bucket, object) contents w))"

text \<open>\<open>GetObject\<close> reads the object's size with \<open>Stat\<close> and fails for an object not there.\<close>

definition GetObject :: "env \<Rightarrow> string \<Rightarrow> string \<Rightarrow> string step" where
  "GetObject e bucket object = attempt e (\<lambda>w.
     (case obj_get (bucket, object) w of None \<Rightarrow> Inl ServiceErr | Some c \<Rightarrow> Inr c, w))"

text \<open>Removing an object that is not there succeeds.\<close>

definition RemoveStoreObject :: "env \<Rightarrow> string \<Rightarrow> string \<Rightarrow> unit step" where
  "RemoveStoreObject e bucket object = attempt e (\<lambda>w. (Inr (), obj_del (bucket, object) w))"

definition obj_collect :: "(string \<times> string) list \<Rightarrow> world \<Rightarrow> string option" where
  "obj_collect ks w = (if list_all (\<lambda>k. obj_get k w \<noteq> None) ks
     then Some (concat (map (\<lambda>k. the (obj_get k w)) ks)) else None)"

lemma obj_collect_eq: "obj_collect ks w = os.collect ks w"
  by (simp add: obj_collect_def os.collect_def list_all_iff)

definition ComposeObject ::
  "env \<Rightarrow> string \<times> string \<Rightarrow> (string \<times> string) list \<Rightarrow> unit step" where
  "ComposeObject e dest sources = attempt e (\<lambda>w.
     (case obj_collect sources w of
        None \<Rightarrow> (Inl ServiceErr, w)
      | Some c \<Rightarrow> (Inr (), obj_put dest c w)))"

lemmas store_defs = PutObject_def GetObject_def RemoveStoreObject_def ComposeObject_def

text \<open>What a request to the object store never touches.\<close>

definition meta :: "world \<Rightarrow> database \<times> redis_db \<times> (string \<times> mq_body \<times> string) list \<times> bool" where
  "meta w = (db w, redis w, queues w, publisher w)"

lemma meta_eq [simp]:
  "meta w' = meta w \<longleftrightarrow> db w' = db w \<and> redis w' = redis w \<and> queues w' = queues w
    \<and> publisher w' = publisher w"
  by (simp add: meta_def)

lemma obj_meta [simp]:
  "db (obj_put k v w) = db w" "redis (obj_put k v w) = redis w" "queues (obj_put k v w) = queues w"
  "publisher (obj_put k v w) = publisher w" "requests (obj_put k v w) = requests w"
  "reads (obj_put k v w) = reads w" "drawn (obj_put k v w) = drawn w"
  "db (obj_del k w) = db w" "redis (obj_del k w) = redis w" "queues (obj_del k w) = queues w"
  "publisher (obj_del k w) = publisher w" "requests (obj_del k w) = requests w"
  "reads (obj_del k w) = reads w" "drawn (obj_del k w) = drawn w"
  by (simp_all add: obj_put_def obj_del_def)

lemma obj_get_cong [simp]:
  "obj_get k (w\<lparr>requests := n\<rparr>) = obj_get k w" "obj_get k (w\<lparr>db := d\<rparr>) = obj_get k w"
  "obj_get k (w\<lparr>redis := rd\<rparr>) = obj_get k w" "obj_get k (w\<lparr>reads := n\<rparr>) = obj_get k w"
  by (simp_all add: obj_get_def)

lemma obj_get_store: "store w' = store w \<Longrightarrow> obj_get k w' = obj_get k w"
  by (simp add: obj_get_def)

lemma store_frame:
  "PutObject e b ob c w = (r1, w') \<Longrightarrow> meta w' = meta w"
  "GetObject e b ob w = (r2, w') \<Longrightarrow> meta w' = meta w \<and> store w' = store w"
  "RemoveStoreObject e b ob w = (r1, w') \<Longrightarrow> meta w' = meta w"
  "ComposeObject e dst srcs w = (r1, w') \<Longrightarrow> meta w' = meta w"
  by (auto simp: store_defs attempt_def Let_def split: if_splits option.splits)

lemma PutObject_get:
  "PutObject e b ob c w = (r, w') \<Longrightarrow> k \<noteq> (b, ob) \<Longrightarrow> obj_get k w' = obj_get k w"
  by (auto simp: PutObject_def attempt_def Let_def os.get_put split: if_splits)

lemma PutObject_ok: "PutObject e b ob c w = (Inr (), w') \<Longrightarrow> obj_get (b, ob) w' = Some c"
  by (auto simp: PutObject_def attempt_def Let_def os.get_put split: if_splits)

lemma RemoveStoreObject_get:
  "RemoveStoreObject e b ob w = (r, w') \<Longrightarrow> k \<noteq> (b, ob) \<Longrightarrow> obj_get k w' = obj_get k w"
  by (auto simp: RemoveStoreObject_def attempt_def Let_def os.get_del split: if_splits)

lemma ComposeObject_get:
  "ComposeObject e dst srcs w = (r, w') \<Longrightarrow> k \<noteq> dst \<Longrightarrow> obj_get k w' = obj_get k w"
  by (auto simp: ComposeObject_def attempt_def Let_def os.get_put split: if_splits option.splits)

lemma ComposeObject_ok:
  "ComposeObject e dst srcs w = (Inr (), w') \<Longrightarrow>
   \<exists>c. os.collect srcs w = Some c \<and> obj_get dst w' = Some c"
proof -
  assume a: "ComposeObject e dst srcs w = (Inr (), w')"
  have "os.collect srcs (w\<lparr>requests := n\<rparr>) = os.collect srcs w" for n
    by (rule os.collect_cong) simp
  with a show ?thesis
    by (auto simp: ComposeObject_def attempt_def Let_def os.get_put obj_collect_eq
        split: if_splits option.splits)
qed

end
