(* ===== verification/FileObjects.thy ===== *)
theory FileObjects
  imports Storage
begin

text \<open>
  The file objects of \<open>src/internal/service/file_object.go\<close>: lookups through the cache, the
  reference count of an object, and its removal with the last reference. The uploads of the
  same file are in \<open>Uploads\<close>.
\<close>

section \<open>Operations\<close>

definition fileObjectCacheTTL :: int where
  "fileObjectCacheTTL = 5 * 60 * 1000000000"

definition cacheFileObject :: "env \<Rightarrow> file_object \<Rightarrow> world \<Rightarrow> world" where
  "cacheFileObject e obj w =
     (let w = SetFileObjectToCache e (fo_ID obj) obj fileObjectCacheTTL w;
          w = (if fo_Hash obj \<noteq> '''' then
                 SetFileObjectIDByHash e (fo_Hash obj) (fo_ID obj) fileObjectCacheTTL w else w)
      in if fo_BucketName obj \<noteq> '''' \<and> fo_ObjectName obj \<noteq> '''' then
           SetFileObjectIDByPath e (fo_BucketName obj) (fo_ObjectName obj) (fo_ID obj)
             fileObjectCacheTTL w
         else w)"

definition BuildObjectName :: "string \<Rightarrow> string \<Rightarrow> string" where
  "BuildObjectName username hash = ''files/'' @ username @ ''/'' @ hash"

definition DeleteMinioFile :: "env \<Rightarrow> file_object \<Rightarrow> unit step" where
  "DeleteMinioFile e fileObject =
     RemoveStoreObject e (fo_BucketName fileObject) (fo_ObjectName fileObject)"

text \<open>The record created, with its key and time, is what is cached and handed back.\<close>

definition CreateFilesObject :: "env \<Rightarrow> file_object \<Rightarrow> file_object step" where
  "CreateFilesObject e dir w =
     (let t = clock e (reads w) in
      case create_object e dir w of
        (Inl err, w) \<Rightarrow> (Inl err, w)
      | (Inr k, w) \<Rightarrow>
          (let dir = dir\<lparr>fo_ID := k, fo_CreatedAt := t,
                         fo_RefCount := (if fo_RefCount dir = 0 then 1 else fo_RefCount dir)\<rparr>
           in (Inr dir, cacheFileObject e dir w)))"

definition GetFileObjectById :: "env \<Rightarrow> nat \<Rightarrow> file_object step" where
  "GetFileObjectById e k w =
     (case GetFileObjectFromCache e k w of
        (Some cached, w) \<Rightarrow> (Inr cached, cacheFileObject e cached w)
      | (None, w) \<Rightarrow>
          (case first_object e (\<lambda>r. fo_ID r = k) w of
             (Inl err, w) \<Rightarrow> (Inl err, w)
           | (Inr obj, w) \<Rightarrow> (Inr obj, cacheFileObject e obj w)))"

definition GetFileByObject_db :: "env \<Rightarrow> string \<Rightarrow> string \<Rightarrow> file_object step" where
  "GetFileByObject_db e bucket object w =
     (case first_object e (\<lambda>r. collate e (fo_BucketName r) = collate e bucket
                              \<and> collate e (fo_ObjectName r) = collate e object) w of
        (Inl err, w) \<Rightarrow> (Inl err, w)
      | (Inr obj, w) \<Rightarrow> (Inr obj, cacheFileObject e obj w))"

definition GetFileByObject :: "env \<Rightarrow> string \<Rightarrow> string \<Rightarrow> file_object step" where
  "GetFileByObject e bucket object w =
     (case GetFileObjectIDByPath e bucket object w of
        (Some k, w) \<Rightarrow>
          (case GetFileObjectById e k w of
             (Inr obj, w) \<Rightarrow> (Inr obj, w)
           | (Inl err, w) \<Rightarrow>
               if err = RecordNotFound
               then GetFileByObject_db e bucket object (InvalidateFileObjectPathCache e bucket object w)
               else (Inl err, w))
      | (None, w) \<Rightarrow> GetFileByObject_db e bucket object w)"

definition GetFileObjectByHash_db :: "env \<Rightarrow> string \<Rightarrow> file_object step" where
  "GetFileObjectByHash_db e hash w =
     (case first_object e (\<lambda>r. collate e (fo_Hash r) = collate e hash) w of
        (Inl err, w) \<Rightarrow> (Inl err, w)
      | (Inr obj, w) \<Rightarrow> (Inr obj, cacheFileObject e obj w))"

definition GetFileObjectByHash :: "env \<Rightarrow> string \<Rightarrow> file_object step" where
  "GetFileObjectByHash e hash w =
     (case GetFileObjectIDByHash e hash w of
        (Some k, w) \<Rightarrow>
          (case GetFileObjectById e k w of
             (Inr obj, w) \<Rightarrow> (Inr obj, w)
           | (Inl err, w) \<Rightarrow>
               if err = RecordNotFound
               then GetFileObjectByHash_db e hash (InvalidateFileObjectHashCache e hash w)
               else (Inl err, w))
      | (None, w) \<Rightarrow> GetFileObjectByHash_db e hash w)"

definition IncreaseRefCount :: "env \<Rightarrow> nat \<Rightarrow> unit step" where
  "IncreaseRefCount e k w =
     (case update_objects e (\<lambda>r. fo_ID r = k) (\<lambda>r. r\<lparr>fo_RefCount := fo_RefCount r + 1\<rparr>) w of
        (Inl err, w) \<Rightarrow> (Inl err, w)
      | (Inr _, w) \<Rightarrow> (Inr (), InvalidateFileObjectCache e k w))"

definition DecreaseRefCount :: "env \<Rightarrow> nat \<Rightarrow> int step" where
  "DecreaseRefCount e k w =
     (case first_object e (\<lambda>r. fo_ID r = k) w of
        (Inl err, w) \<Rightarrow> (Inl err, w)
      | (Inr fileObject, w) \<Rightarrow>
          if 1 < fo_RefCount fileObject then
            (case update_objects e (\<lambda>r. fo_ID r = k)
                    (\<lambda>r. r\<lparr>fo_RefCount := fo_RefCount r - 1\<rparr>) w of
               (Inl err, w) \<Rightarrow> (Inl err, w)
             | (Inr _, w) \<Rightarrow>
                 (Inr (fo_RefCount fileObject - 1), InvalidateFileObjectCache e k w))
          else (Inr 0, w))"

text \<open>A failing read of the object counts as its absence.\<close>

definition isFileObjectAvailable :: "env \<Rightarrow> file_object \<Rightarrow> bool step" where
  "isFileObjectAvailable e obj w =
     (case GetObject e (fo_BucketName obj) (fo_ObjectName obj) w of
        (Inl _, w) \<Rightarrow> (Inr False, w)
      | (Inr _, w) \<Rightarrow> (Inr True, w))"

definition FindObjectIdByName :: "env \<Rightarrow> string \<Rightarrow> nat step" where
  "FindObjectIdByName e name w =
     (case first_object e (\<lambda>r. collate e (fo_ObjectName r) = collate e name) w of
        (Inl err, w) \<Rightarrow> (Inl err, w)
      | (Inr fileObject, w) \<Rightarrow> (Inr (fo_ID fileObject), w))"

definition RemoveObject :: "env \<Rightarrow> nat \<Rightarrow> unit step" where
  "RemoveObject e objectId w =
     (case first_object e (\<lambda>r. fo_ID r = objectId) w of
        (Inl err, w) \<Rightarrow> (Inl err, w)
      | (Inr fileObject, w) \<Rightarrow>
     (case DecreaseRefCount e objectId w of
        (Inl err, w) \<Rightarrow> (Inl err, w)
      | (Inr remain, w) \<Rightarrow>
          if 0 < remain then (Inr (), w) else
     (case DeleteMinioFile e fileObject w of
        (Inl err, w) \<Rightarrow> (Inl err, w)
      | (Inr _, w) \<Rightarrow>
     (case delete_object e objectId w of
        (Inl err, w) \<Rightarrow> (Inl err, w)
      | (Inr _, w) \<Rightarrow>
          (let w = InvalidateFileObjectCache e objectId w;
               w = InvalidateFileObjectHashCache e (fo_Hash fileObject) w;
               w = InvalidateFileObjectPathCache e (fo_BucketName fileObject)
                     (fo_ObjectName fileObject) w
           in case last_session e (\<lambda>s. collate e (us_FileHash s) = collate e (fo_Hash fileObject)
                                     \<and> us_UserID s = fo_UserID fileObject) w of
                (Inl _, w) \<Rightarrow> (Inr (), w)
              | (Inr session, w) \<Rightarrow>
                  delete_chunks e (\<lambda>c. collate e (fc_UploadID c) = collate e (us_UploadID session)) w)))))"

section \<open>What the cache operations leave alone\<close>

lemma cacheFileObject_core [simp]: "core (cacheFileObject e obj w) = core w"
  by (simp add: cacheFileObject_def Let_def del: cache_write_frame_simps core_eq
      add: cache_write_frame split: if_splits)

lemmas cacheFileObject_frame [simp] = cacheFileObject_core [unfolded core_eq]

lemma first_object_core: "first_object e p w = (r, w') \<Longrightarrow> core w' = core w"
  by (auto simp: first_object_def query_row_def attempt_def Let_def split: if_splits)

lemma first_object_InrD:
  "first_object e p w = (Inr r, w') \<Longrightarrow> r \<in> set (rows (objects (db w))) \<and> p r"
  unfolding first_object_def by (meson first_row_SomeD query_rowD)

lemma GetFileObjectById_core: "GetFileObjectById e k w = (r, w') \<Longrightarrow> core w' = core w"
  by (auto simp: GetFileObjectById_def split: prod.splits sum.splits option.splits
      dest!: cache_read_frame first_object_core)

lemma GetFileObjectByHash_core: "GetFileObjectByHash e h w = (r, w') \<Longrightarrow> core w' = core w"
  by (auto simp: GetFileObjectByHash_def GetFileObjectByHash_db_def
      split: prod.splits sum.splits option.splits if_splits
      dest!: cache_read_frame first_object_core GetFileObjectById_core)

lemma GetFileByObject_core: "GetFileByObject e b ob w = (r, w') \<Longrightarrow> core w' = core w"
  by (auto simp: GetFileByObject_def GetFileByObject_db_def
      split: prod.splits sum.splits option.splits if_splits
      dest!: cache_read_frame first_object_core GetFileObjectById_core)

lemma isFileObjectAvailable_frame:
  "isFileObjectAvailable e obj w = (r, w') \<Longrightarrow> meta w' = meta w \<and> store w' = store w
    \<and> (\<exists>b. r = Inr b \<and> (b \<longrightarrow> obj_get (fo_BucketName obj, fo_ObjectName obj) w \<noteq> None))"
  by (auto simp: isFileObjectAvailable_def GetObject_def attempt_def Let_def
      split: prod.splits sum.splits if_splits option.splits)

section \<open>Reference counts\<close>

text \<open>The number of \<open>user_file\<close> rows, recycled ones included, that reference an object.\<close>

definition refs :: "database \<Rightarrow> nat \<Rightarrow> int" where
  "refs d k = int (length (filter (\<lambda>f. uf_ObjectID f = Some k) (rows (files d))))"

text \<open>
  The count of an object against its references and what is owed on top of them (a reference
  counted and not yet created, or removed and not yet uncounted). With \<open>x\<close> the count is exact
  and positive; without, it is at least the number of references: the object cannot be removed
  while a file uses it.
\<close>

definition ref_rel :: "bool \<Rightarrow> (nat \<Rightarrow> int) \<Rightarrow> database \<Rightarrow> bool" where
  "ref_rel x owed d \<longleftrightarrow> (\<forall>r\<in>set (rows (objects d)).
     if x then refs d (fo_ID r) + owed (fo_ID r) = fo_RefCount r \<and> 1 \<le> fo_RefCount r
     else refs d (fo_ID r) + owed (fo_ID r) \<le> fo_RefCount r)"

abbreviation none :: "nat \<Rightarrow> int" where
  "none \<equiv> \<lambda>_. 0"

definition ref_safe :: "database \<Rightarrow> bool" where
  "ref_safe d \<longleftrightarrow> (\<forall>r\<in>set (rows (objects d)). refs d (fo_ID r) \<le> fo_RefCount r)"

definition ref_exact :: "database \<Rightarrow> bool" where
  "ref_exact d \<longleftrightarrow> (\<forall>r\<in>set (rows (objects d)). refs d (fo_ID r) = fo_RefCount r \<and> 1 \<le> fo_RefCount r)"

lemma ref_safe_rel: "ref_safe d \<longleftrightarrow> ref_rel False none d"
  by (simp add: ref_safe_def ref_rel_def)

lemma ref_exact_rel: "ref_exact d \<longleftrightarrow> ref_rel True none d"
  by (simp add: ref_exact_def ref_rel_def)

lemma ref_exact_safe: "ref_exact d \<Longrightarrow> ref_safe d"
  by (simp add: ref_exact_def ref_safe_def)

lemma refs_nonneg [simp]: "0 \<le> refs d k"
  by (simp add: refs_def)

lemma refs_cong: "files d' = files d \<Longrightarrow> refs d' k = refs d k"
  by (simp add: refs_def)

lemma ref_rel_cong: "files d' = files d \<Longrightarrow> objects d' = objects d \<Longrightarrow> ref_rel x s d' = ref_rel x s d"
  by (simp add: ref_rel_def refs_def)

lemma ref_rel_weaken: "ref_rel x s d \<Longrightarrow> (\<And>k. s' k \<le> s k) \<Longrightarrow> ref_rel False s' d"
  unfolding ref_rel_def by (auto split: if_splits) (metis add_left_mono order_trans)+

lemma refs_pos: "f \<in> set (rows (files d)) \<Longrightarrow> uf_ObjectID f = Some k \<Longrightarrow> 1 \<le> refs d k"
  using length_filter_pos [of f "rows (files d)" "\<lambda>f. uf_ObjectID f = Some k"]
  by (simp add: refs_def Suc_le_eq)

lemma refs_zero: "refs d k \<le> 0 \<Longrightarrow> f \<in> set (rows (files d)) \<Longrightarrow> uf_ObjectID f \<noteq> Some k"
  using refs_pos by fastforce

subsection \<open>Counting a reference\<close>

lemma update_objects_rel:
  assumes "update_objects e (\<lambda>r. fo_ID r = k) (\<lambda>r. r\<lparr>fo_RefCount := fo_RefCount r + n\<rparr>) w = (Inr (), w')"
    and "ref_rel x s (db w)" and "\<And>r. x \<Longrightarrow> r \<in> set (rows (objects (db w))) \<Longrightarrow> fo_ID r = k \<Longrightarrow> 1 \<le> fo_RefCount r + n"
  shows "ref_rel x (s(k := s k + n)) (db w') \<and> files (db w') = files (db w)"
proof -
  from assms(1) have d: "db w' = (db w)\<lparr>objects := update_rows (\<lambda>r. fo_ID r = k)
      (\<lambda>r. r\<lparr>fo_RefCount := fo_RefCount r + n\<rparr>) (objects (db w))\<rparr>"
    unfolding update_objects_def by (auto dest: execute_InrD)
  have "refs (db w') j = refs (db w) j" for j by (simp add: refs_def d)
  with assms(2,3) show ?thesis
    by (fastforce simp: ref_rel_def d update_rows_def split: if_splits)
qed

lemma IncreaseRefCount_rel:
  assumes "IncreaseRefCount e k w = (Inr (), w')" and "ref_rel x s (db w)"
  shows "ref_rel x (s(k := s k + 1)) (db w') \<and> files (db w') = files (db w)"
proof -
  from assms(1) obtain w1 where
    u: "update_objects e (\<lambda>r. fo_ID r = k) (\<lambda>r. r\<lparr>fo_RefCount := fo_RefCount r + 1\<rparr>) w = (Inr (), w1)"
    and w': "db w' = db w1"
    by (auto simp: IncreaseRefCount_def split: prod.splits sum.splits)
  have "\<And>r. x \<Longrightarrow> r \<in> set (rows (objects (db w))) \<Longrightarrow> 1 \<le> fo_RefCount r + 1"
    using assms(2) by (fastforce simp: ref_rel_def)
  from update_objects_rel [OF u assms(2)] this w' show ?thesis by metis
qed

lemma update_objects_InlD: "update_objects e p f w = (Inl err, w') \<Longrightarrow> db w' = db w"
  unfolding update_objects_def by (rule execute_InlD)

lemma IncreaseRefCount_InlD: "IncreaseRefCount e k w = (Inl err, w') \<Longrightarrow> db w' = db w"
  by (auto simp: IncreaseRefCount_def split: prod.splits sum.splits dest!: update_objects_InlD)

lemma IncreaseRefCount_store:
  "IncreaseRefCount e k w = (r, w') \<Longrightarrow> store w' = store w"
  by (auto simp: IncreaseRefCount_def split: prod.splits sum.splits dest!: object_frame(2))

lemma DecreaseRefCount_store: "DecreaseRefCount e k w = (r, w') \<Longrightarrow> store w' = store w"
  by (auto simp: DecreaseRefCount_def split: prod.splits sum.splits if_splits
      dest!: object_frame(2) first_object_core)

text \<open>Uncounting: the count goes down unless it is already at 1.\<close>

lemma DecreaseRefCount_cases:
  assumes "DecreaseRefCount e k w = (Inr n, w')"
  obtains r where "r \<in> set (rows (objects (db w)))" "fo_ID r = k" "1 < fo_RefCount r"
      "n = fo_RefCount r - 1" "db w' = (db w)\<lparr>objects := update_rows (\<lambda>r. fo_ID r = k)
        (\<lambda>r. r\<lparr>fo_RefCount := fo_RefCount r - 1\<rparr>) (objects (db w))\<rparr>" "db_valid (collate e) (db w')"
  | r where "r \<in> set (rows (objects (db w)))" "fo_ID r = k" "fo_RefCount r \<le> 1" "n = 0" "db w' = db w"
proof -
  from assms obtain r w1 where f: "first_object e (\<lambda>r. fo_ID r = k) w = (Inr r, w1)"
    by (auto simp: DecreaseRefCount_def split: prod.splits sum.splits)
  from first_object_InrD [OF f] first_object_core [OF f] have r: "r \<in> set (rows (objects (db w)))"
    "fo_ID r = k" and db: "db w1 = db w" by auto
  show ?thesis
  proof (cases "1 < fo_RefCount r")
    case False
    with assms f db r show ?thesis by (intro that(2)) (auto simp: DecreaseRefCount_def)
  next
    case True
    with assms f obtain u w2 where u: "update_objects e (\<lambda>r. fo_ID r = k)
        (\<lambda>r. r\<lparr>fo_RefCount := fo_RefCount r - 1\<rparr>) w1 = (Inr u, w2)"
      and w': "db w' = db w2" "n = fo_RefCount r - 1"
      by (auto simp: DecreaseRefCount_def split: prod.splits sum.splits)
    from u db have "db w2 = (db w)\<lparr>objects := update_rows (\<lambda>r. fo_ID r = k)
        (\<lambda>r. r\<lparr>fo_RefCount := fo_RefCount r - 1\<rparr>) (objects (db w))\<rparr> \<and> db_valid (collate e) (db w2)"
      unfolding update_objects_def by (auto dest: execute_InrD)
    with True r w' show ?thesis by (intro that(1) [of r]) (auto simp: db)
  qed
qed

lemma DecreaseRefCount_InlD: "DecreaseRefCount e k w = (Inl err, w') \<Longrightarrow> db w' = db w"
  by (auto simp: DecreaseRefCount_def split: prod.splits sum.splits if_splits
      dest!: first_object_core update_objects_InlD)

lemma DecreaseRefCount_safe:
  assumes "DecreaseRefCount e k w = (r, w')" and "ref_rel False s (db w)"
  shows "ref_rel False (s(k := s k - 1)) (db w') \<and> files (db w') = files (db w)"
proof -
  have weak: "ref_rel False (s(k := s k - 1)) (db w)"
    by (rule ref_rel_weaken [OF assms(2)]) simp
  show ?thesis
  proof (cases r)
    case (Inl err)
    with assms(1) DecreaseRefCount_InlD weak show ?thesis by metis
  next
    case (Inr n)
    with assms(1) have "DecreaseRefCount e k w = (Inr n, w')" by simp
    then show ?thesis
    proof (cases rule: DecreaseRefCount_cases)
      case (1 r)
      have "refs (db w') j = refs (db w) j" for j by (simp add: refs_def 1)
      with assms(2) show ?thesis by (auto simp: ref_rel_def 1 update_rows_def)
    next
      case (2 r)
      with weak show ?thesis by simp
    qed
  qed
qed

text \<open>A count of 2 or more is taken back exactly; this is the rollback of an increase.\<close>

lemma DecreaseRefCount_exact:
  assumes "DecreaseRefCount e k w = (Inr n, w')" and "ref_rel True s (db w)"
    and "\<And>r. r \<in> set (rows (objects (db w))) \<Longrightarrow> fo_ID r = k \<Longrightarrow> 2 \<le> fo_RefCount r"
  shows "ref_rel True (s(k := s k - 1)) (db w') \<and> files (db w') = files (db w)"
  using assms(1)
proof (cases rule: DecreaseRefCount_cases)
  case (1 r)
  have "refs (db w') j = refs (db w) j" for j by (simp add: refs_def 1)
  with assms(2,3) show ?thesis by (fastforce simp: ref_rel_def 1 update_rows_def)
next
  case (2 r)
  with assms(3) show ?thesis by fastforce
qed

section \<open>Removing an object\<close>

lemma last_session_core: "last_session e p w = (r, w') \<Longrightarrow> core w' = core w"
  by (auto simp: last_session_def query_row_def attempt_def Let_def split: if_splits)

lemma DeleteMinioFile_frame:
  "DeleteMinioFile e obj w = (r, w') \<Longrightarrow> meta w' = meta w
    \<and> (\<forall>p. p \<noteq> (fo_BucketName obj, fo_ObjectName obj) \<longrightarrow> obj_get p w' = obj_get p w)"
  unfolding DeleteMinioFile_def using store_frame(3) RemoveStoreObject_get by blast

abbreviation path :: "file_object \<Rightarrow> string \<times> string" where
  "path r \<equiv> (fo_BucketName r, fo_ObjectName r)"

lemma delete_object_cases:
  assumes "delete_object e k w = (x, w')"
  shows "files (db w') = files (db w) \<and> store w' = store w \<and> (objects (db w') = objects (db w) \<or>
    objects (db w') = delete_rows (\<lambda>r. fo_ID r = k) (objects (db w)))"
proof (cases x)
  case (Inl err)
  with assms object_frame(3) [OF assms] show ?thesis
    unfolding delete_object_def by (auto dest: execute_InlD)
next
  case (Inr u)
  with assms object_frame(3) [OF assms] show ?thesis
    unfolding delete_object_def by (auto dest: execute_okD)
qed

lemma RemoveObject_tail_frame:
  assumes "(case last_session e p w of (Inl _, w) \<Rightarrow> (Inr (), w)
     | (Inr session, w) \<Rightarrow> delete_chunks e (q session) w) = (r, w')"
  shows "tree (db w') = tree (db w) \<and> store w' = store w"
proof -
  obtain y w1 where l: "last_session e p w = (y, w1)" by fastforce
  have "tree (db w') = tree (db w1) \<and> store w' = store w1"
  proof (cases y)
    case (Inl err)
    with assms l show ?thesis by simp
  next
    case (Inr s)
    with assms l have "delete_chunks e (q s) w1 = (r, w')" by simp
    with upload_tree(4) [OF this] upload_frame(4) [OF this] show ?thesis by simp
  qed
  with last_session_core [OF l] show ?thesis by simp
qed

text \<open>What \<open>RemoveObject\<close> can do: nothing, count one reference less, or remove the object with
  its last reference, from the store and, unless that statement fails, from the table.\<close>

lemma DecreaseRefCount_stop:
  assumes "first_object e (\<lambda>r. fo_ID r = k) w = (Inr r, w1)"
    and "DecreaseRefCount e k w1 = (Inr n, w2)" and "\<not> 0 < n"
  shows "fo_RefCount r \<le> 1 \<and> db w2 = db w \<and> store w2 = store w"
proof -
  from assms(1) have r: "first_row fo_ID (\<lambda>r. fo_ID r = k) (objects (db w)) = Some r"
    by (auto simp: first_object_def dest: query_rowD)
  note w1 = first_object_core [OF assms(1)]
  from assms(2) obtain r' w3 where f: "first_object e (\<lambda>r. fo_ID r = k) w1 = (Inr r', w3)"
    and i: "(if 1 < fo_RefCount r' then case update_objects e (\<lambda>r. fo_ID r = k)
                    (\<lambda>r. r\<lparr>fo_RefCount := fo_RefCount r - 1\<rparr>) w3 of
               (Inl err, w) \<Rightarrow> (Inl err, w)
             | (Inr _, w) \<Rightarrow> (Inr (fo_RefCount r' - 1), InvalidateFileObjectCache e k w)
          else (Inr 0, w3)) = (Inr n, w2)"
    unfolding DecreaseRefCount_def by (elim seqE) auto
  from f have "first_row fo_ID (\<lambda>r. fo_ID r = k) (objects (db w1)) = Some r'"
    by (auto simp: first_object_def dest: query_rowD)
  with r w1 have "r' = r" by simp
  with i assms(3) first_object_core [OF f] w1 show ?thesis
    by (auto elim!: if_eqE seqE)
qed

lemma RemoveObject_cases:
  assumes "RemoveObject e k w = (x, w')"
  obtains "tree (db w') = tree (db w)" "store w' = store w"
  | r where "r \<in> set (rows (objects (db w)))" "fo_ID r = k" "1 < fo_RefCount r"
      "files (db w') = files (db w)" "objects (db w') = update_rows (\<lambda>r. fo_ID r = k)
        (\<lambda>r. r\<lparr>fo_RefCount := fo_RefCount r - 1\<rparr>) (objects (db w))" "store w' = store w"
  | r where "r \<in> set (rows (objects (db w)))" "fo_ID r = k" "fo_RefCount r \<le> 1"
      "\<And>p. p \<noteq> path r \<Longrightarrow> obj_get p w' = obj_get p w" "files (db w') = files (db w)"
      "objects (db w') = objects (db w) \<or>
       objects (db w') = delete_rows (\<lambda>r. fo_ID r = k) (objects (db w))"
  using assms unfolding RemoveObject_def
proof (elim seqE if_eqE, goal_cases)
  case (1 err)
  with first_object_core [OF 1(4)] show ?case by auto
next
  case (2 r w1 err)
  with first_object_core [OF 2(4)] DecreaseRefCount_InlD [OF 2(5)] DecreaseRefCount_store [OF 2(5)]
  show ?case by auto
next
  case (3 r w1 n w2)
  from 3(5) show ?case
  proof (cases rule: DecreaseRefCount_cases)
    case (1 r)
    with 3 first_object_core [OF 3(4)] DecreaseRefCount_store [OF 3(5)] show ?thesis
      by (intro 3(2) [of r]) auto
  qed (use 3 in simp)
next
  case (4 r w1 n w2 err)
  note r = first_object_InrD [OF 4(4)] and s = DecreaseRefCount_stop [OF 4(4,5,6)]
    and m = DeleteMinioFile_frame [OF 4(7)]
  from r s m show ?case by (intro 4(3) [of r]) (auto simp: obj_get_def)
next
  case (5 r w1 n w2 u w3 err)
  note r = first_object_InrD [OF 5(4)] and s = DecreaseRefCount_stop [OF 5(4,5,6)]
    and m = DeleteMinioFile_frame [OF 5(7)] and d = delete_object_cases [OF 5(8)]
  from r s m d show ?case by (intro 5(3) [of r]) (auto simp: obj_get_def)
next
  case (6 r w1 n w2 u w3 u' w4)
  note r = first_object_InrD [OF 6(4)] and s = DecreaseRefCount_stop [OF 6(4,5,6)]
    and m = DeleteMinioFile_frame [OF 6(7)] and d = delete_object_cases [OF 6(8)]
    and t = RemoveObject_tail_frame [OF 6(9) [unfolded Let_def]]
  from r s m d t show ?case by (intro 6(3) [of r]) (auto simp: obj_get_def)
qed

abbreviation owes :: "nat \<Rightarrow> nat \<Rightarrow> int" where
  "owes k \<equiv> (\<lambda>_. 0)(k := 1)"

lemma RemoveObject_files: "RemoveObject e k w = (x, w') \<Longrightarrow> files (db w') = files (db w)"
  by (erule RemoveObject_cases) auto

lemma RemoveObject_safe:
  assumes "RemoveObject e k w = (x, w')" and "ref_rel False (owes k) (db w)"
  shows "ref_rel False none (db w')"
proof -
  have weak: "ref_rel False none (db w)" by (rule ref_rel_weaken [OF assms(2)]) simp
  note f = refs_cong [OF RemoveObject_files [OF assms(1)]]
  from assms(1) show ?thesis
  proof (cases rule: RemoveObject_cases)
    case 1
    with weak show ?thesis using ref_rel_cong by (metis tree_eq)
  next
    case (2 r)
    with assms(2) show ?thesis by (auto simp: ref_rel_def f update_rows_def split: if_splits)
  next
    case (3 r)
    with weak show ?thesis by (auto simp: ref_rel_def f delete_rows_def)
  qed
qed

text \<open>Which objects keep their row and their contents: those a file still references.\<close>

definition paths_distinct :: "database \<Rightarrow> bool" where
  "paths_distinct d \<longleftrightarrow> inj_on path (set (rows (objects d)))"

definition kept :: "world \<Rightarrow> world \<Rightarrow> bool" where
  "kept w w' \<longleftrightarrow> (\<forall>r\<in>set (rows (objects (db w))). 1 \<le> refs (db w') (fo_ID r) \<longrightarrow>
     (\<exists>n. r\<lparr>fo_RefCount := n\<rparr> \<in> set (rows (objects (db w'))))
     \<and> obj_get (path r) w' = obj_get (path r) w)"

lemma kept_refl_tree:
  "tree (db w') = tree (db w) \<Longrightarrow> store w' = store w \<Longrightarrow> kept w w'"
proof -
  assume a: "tree (db w') = tree (db w)" "store w' = store w"
  have "r = r\<lparr>fo_RefCount := fo_RefCount r\<rparr>" for r :: file_object by simp
  with a show ?thesis unfolding kept_def obj_get_def by (metis tree_eq)
qed

lemma kept_trans:
  assumes "kept w w1" and "kept w1 w2" and "\<And>k. refs (db w2) k \<le> refs (db w1) k"
  shows "kept w w2"
  unfolding kept_def
proof (intro ballI impI)
  fix r
  assume r: "r \<in> set (rows (objects (db w)))" and n: "1 \<le> refs (db w2) (fo_ID r)"
  with assms(3) [of "fo_ID r"] assms(1) obtain n1 where
    n1: "r\<lparr>fo_RefCount := n1\<rparr> \<in> set (rows (objects (db w1)))"
    and g: "obj_get (path r) w1 = obj_get (path r) w" by (fastforce simp: kept_def)
  from n1 n assms(2) obtain n2 where "r\<lparr>fo_RefCount := n2\<rparr> \<in> set (rows (objects (db w2)))"
    and "obj_get (path r) w2 = obj_get (path r) w1" by (fastforce simp: kept_def)
  with g show "(\<exists>n. r\<lparr>fo_RefCount := n\<rparr> \<in> set (rows (objects (db w2))))
     \<and> obj_get (path r) w2 = obj_get (path r) w" by auto
qed

lemma paths_distinct_update:
  assumes "inj_on path (set rs)" and "\<And>r. path (f r) = path r"
  shows "inj_on path (set (update_where p f rs))"
proof (rule inj_onI)
  fix x y
  assume "x \<in> set (update_where p f rs)" "y \<in> set (update_where p f rs)" and eq: "path x = path y"
  then obtain a b where "a \<in> set rs" "b \<in> set rs" and x: "x = (if p a then f a else a)"
    and y: "y = (if p b then f b else b)" by auto
  moreover from x y eq assms(2) have "path a = path b" by (simp only: split: if_splits)
  ultimately have "a = b" using assms(1) by (simp only: inj_on_def)
  with x y show "x = y" by simp
qed

lemma RemoveObject_kept:
  assumes "RemoveObject e k w = (x, w')" and "ref_rel False (owes k) (db w)"
    and "db_wf ck (db w)" and "paths_distinct (db w)"
  shows "kept w w' \<and> paths_distinct (db w')"
proof -
  note f = refs_cong [OF RemoveObject_files [OF assms(1)]]
  note same = db_wf_object_key [OF assms(3)]
  from assms(1) show ?thesis
  proof (cases rule: RemoveObject_cases)
    case 1
    then show ?thesis using kept_refl_tree assms(4) by (simp add: paths_distinct_def)
  next
    case (2 r)
    have "\<exists>n. r'\<lparr>fo_RefCount := n\<rparr> \<in> set (rows (objects (db w')))"
      if "r' \<in> set (rows (objects (db w)))" for r'
    proof (cases "fo_ID r' = k")
      case True
      with that show ?thesis by (auto simp: 2 update_rows_def)
    next
      case False
      with that have "r'\<lparr>fo_RefCount := fo_RefCount r'\<rparr> \<in> set (rows (objects (db w')))"
        by (auto simp: 2 update_rows_def image_iff)
      then show ?thesis by blast
    qed
    moreover have "paths_distinct (db w')"
      using paths_distinct_update [OF assms(4) [unfolded paths_distinct_def], of _ "\<lambda>r. fo_ID r = k"]
      unfolding paths_distinct_def 2(5) update_rows_def by simp
    ultimately show ?thesis using 2(6) by (simp add: kept_def obj_get_def)
  next
    case (3 r)
    have "refs (db w) k \<le> 0" using assms(2) 3 by (fastforce simp: ref_rel_def)
    then have n: "fo_ID r' \<noteq> k \<and> r' \<noteq> r" if "1 \<le> refs (db w') (fo_ID r')" for r'
      using that 3(2) by (auto simp: f)
    have "r'\<lparr>fo_RefCount := fo_RefCount r'\<rparr> \<in> set (rows (objects (db w')))"
      if "r' \<in> set (rows (objects (db w)))" "fo_ID r' \<noteq> k" for r'
      using that 3(6) by (auto simp: delete_rows_def)
    moreover have "path r' \<noteq> path r" if "r' \<in> set (rows (objects (db w)))" "r' \<noteq> r" for r'
      using that 3(1) assms(4) unfolding paths_distinct_def inj_on_def by blast
    moreover have "paths_distinct (db w')"
      using 3(6) assms(4) by (auto simp: paths_distinct_def delete_rows_def inj_on_def)
    ultimately show ?thesis using n 3(4) unfolding kept_def by blast
  qed
qed

subsection \<open>Without faults\<close>

lemma db_valid_same_hash:
  assumes "db_valid ck d"
    and "map fo_Hash (rows t) = map fo_Hash (rows (objects d))"
    and "map fo_ID (rows t) = map fo_ID (rows (objects d))"
    and "map fo_UserID (rows t) = map fo_UserID (rows (objects d))"
  shows "db_valid ck (d\<lparr>objects := t\<rparr>)"
proof -
  have "map (ck \<circ> fo_Hash) (rows t) = map (ck \<circ> fo_Hash) (rows (objects d))"
    using assms(2) by (metis map_map)
  moreover have k: "has_key fo_ID t = has_key fo_ID (objects d)"
  proof
    fix k
    have "has_key fo_ID t' k \<longleftrightarrow> k \<in> set (map fo_ID (rows t'))" for t' :: "file_object table"
      by (auto simp: has_key_iff)
    with assms(3) show "has_key fo_ID t k = has_key fo_ID (objects d) k" by (simp only:)
  qed
  moreover have "list_all (\<lambda>r. has_key u_ID (users d) (fo_UserID r)) (rows t) =
      list_all (\<lambda>r. has_key u_ID (users d) (fo_UserID r)) (rows (objects d))"
    using assms(4) by (metis (mono_tags, lifting) comp_apply list.map_comp list_all_iff list.pred_map)
  moreover have "opt_key fo_ID t = opt_key fo_ID (objects d)"
    by (rule ext) (simp add: opt_key_def k split: option.splits)
  ultimately show ?thesis
    using assms(1) unfolding db_valid_def file_object_unique_def file_object_fk_def user_file_fk_def
      upload_session_fk_def file_share_fk_def by simp
qed

lemma db_valid_update_count:
  "db_valid ck d \<Longrightarrow> db_valid ck (d\<lparr>objects := update_rows p (\<lambda>r. r\<lparr>fo_RefCount := g r\<rparr>) (objects d)\<rparr>)"
  by (erule db_valid_same_hash) (simp_all add: update_rows_def)

lemma db_valid_delete_object:
  assumes "db_valid ck d" and "refs d k \<le> 0"
  shows "db_valid ck (d\<lparr>objects := delete_rows (\<lambda>r. fo_ID r = k) (objects d)\<rparr>)"
proof -
  have "opt_key fo_ID (delete_rows (\<lambda>r. fo_ID r = k) (objects d)) (uf_ObjectID f)"
    if "f \<in> set (rows (files d))" for f
  proof (cases "uf_ObjectID f")
    case (Some j)
    with that refs_zero [OF assms(2) that] have "j \<noteq> k" by simp
    moreover have "has_key fo_ID (objects d) j"
      using assms(1) that Some unfolding db_valid_def user_file_fk_def list_all_iff by fastforce
    ultimately show ?thesis using Some by (auto simp: has_key_iff delete_rows_def)
  qed simp
  with assms(1) show ?thesis
    unfolding db_valid_def file_object_unique_def file_object_fk_def user_file_fk_def
      upload_session_fk_def file_share_fk_def
    by (auto simp: delete_rows_def list_all_iff)
qed

lemma first_object_key_no_fault:
  assumes "fault e = (\<lambda>_. False)" and "db_wf ck (db w)" and "r \<in> set (rows (objects (db w)))"
  shows "first_object e (\<lambda>x. fo_ID x = fo_ID r) w = (Inr r, w\<lparr>requests := Suc (requests w)\<rparr>)"
proof -
  have "distinct (map fo_ID (rows (objects (db w))))"
    using assms(2) by (auto simp: db_wf_def keys_wf_def intro: fot.keys_ok_distinct)
  from first_row_unique [OF this assms(3), of "\<lambda>_. True"] assms(1) show ?thesis
    by (simp add: first_object_def query_row_no_fault)
qed

lemma RemoveObject_no_fault:
  assumes "fault e = (\<lambda>_. False)" and "db_wf (collate e) (db w)" and "r \<in> set (rows (objects (db w)))"
    and "refs (db w) (fo_ID r) < fo_RefCount r" and "RemoveObject e (fo_ID r) w = (x, w')"
  shows "objects (db w') = (if 1 < fo_RefCount r
    then update_rows (\<lambda>x. fo_ID x = fo_ID r) (\<lambda>x. x\<lparr>fo_RefCount := fo_RefCount x - 1\<rparr>) (objects (db w))
    else delete_rows (\<lambda>x. fo_ID x = fo_ID r) (objects (db w)))"
proof -
  let ?k = "fo_ID r"
  from assms(2) have v: "db_valid (collate e) (db w)" by (simp add: db_wf_def)
  note f = first_object_key_no_fault [OF assms(1)]
  show ?thesis
  proof (cases "1 < fo_RefCount r")
    case True
    with assms(5) assms(1) f [OF assms(2,3)] f [of "collate e" "w\<lparr>requests := Suc (requests w)\<rparr>" r]
      assms(2,3) db_valid_update_count [OF v]
    show ?thesis
      by (auto simp: RemoveObject_def DecreaseRefCount_def update_objects_def execute_no_fault)
  next
    case False
    with assms(4) have "refs (db w) ?k \<le> 0" by simp
    from db_valid_delete_object [OF v this] False assms(5) assms(1) f [OF assms(2,3)]
      f [of "collate e" "w\<lparr>requests := Suc (requests w)\<rparr>" r] assms(2,3)
    show ?thesis
      by (auto simp: RemoveObject_def DecreaseRefCount_def delete_object_def execute_no_fault
          DeleteMinioFile_def RemoveStoreObject_def attempt_no_fault Let_def
          dest!: RemoveObject_tail_frame)
  qed
qed

lemma RemoveObject_rel:
  assumes "RemoveObject e k w = (y, w')" and "ref_rel x (owes k) (db w)"
    and "db_wf (collate e) (db w)" and "x \<Longrightarrow> fault e = (\<lambda>_. False)"
    and "has_key fo_ID (objects (db w)) k"
  shows "ref_rel x none (db w')"
proof (cases x)
  case False
  with assms RemoveObject_safe show ?thesis by metis
next
  case True
  from assms(5) obtain r where r: "r \<in> set (rows (objects (db w)))" "k = fo_ID r"
    by (auto simp: has_key_iff)
  have "refs (db w) (fo_ID r) < fo_RefCount r" using assms(2) True r by (auto simp: ref_rel_def)
  from RemoveObject_no_fault [OF assms(4) [OF True] assms(3) r(1) this] assms(1) r(2)
  have o': "objects (db w') = (if 1 < fo_RefCount r
    then update_rows (\<lambda>x. fo_ID x = k) (\<lambda>x. x\<lparr>fo_RefCount := fo_RefCount x - 1\<rparr>) (objects (db w))
    else delete_rows (\<lambda>x. fo_ID x = k) (objects (db w)))" by simp
  have u: "r' = r" if "r' \<in> set (rows (objects (db w)))" "fo_ID r' = k" for r'
    using db_wf_object_key [OF assms(3)] that r by metis
  show ?thesis
    using assms(2) True u
    by (auto simp: ref_rel_def o' refs_cong [OF RemoveObject_files [OF assms(1)]] update_rows_def
        delete_rows_def split: if_splits)
qed

end
