(* ===== verification/UserFiles.thy ===== *)
theory UserFiles
  imports FileObjects
begin

text \<open>
  The file tree of \<open>src/internal/service/user_file.go\<close>: creating files and folders, the recycle
  bin, renaming, moving, copying and permanent deletion. The loops over the tree that need not
  end carry fuel: the value \<open>None\<close> is a computation still running.
\<close>

section \<open>Creating entries\<close>

definition cacheParentID :: "nat option \<Rightarrow> nat" where
  "cacheParentID parentID = (case parentID of None \<Rightarrow> 0 | Some p \<Rightarrow> p)"

definition invalidateFileListCache :: "env \<Rightarrow> nat \<Rightarrow> nat option \<Rightarrow> world \<Rightarrow> world" where
  "invalidateFileListCache e userID parentID w =
     InvalidateUserFileListCache e userID (cacheParentID parentID) w"

definition getFileParentID :: "env \<Rightarrow> nat \<Rightarrow> nat \<Rightarrow> nat option step" where
  "getFileParentID e userID fileID w =
     (case first_file_unscoped e (\<lambda>r. uf_ID r = fileID \<and> uf_UserID r = userID) w of
        (Inl err, w) \<Rightarrow> (Inl err, w)
      | (Inr file, w) \<Rightarrow> (Inr (uf_ParentID file), w))"

definition new_file :: "nat \<Rightarrow> nat option \<Rightarrow> string \<Rightarrow> bool \<Rightarrow> nat option \<Rightarrow> int \<Rightarrow> user_file" where
  "new_file userID parentID name isDir objectID sz = \<lparr>uf_ID = 0, uf_UserID = userID,
     uf_ParentID = parentID, uf_Name = name, uf_IsDir = isDir, uf_ObjectID = objectID,
     uf_Size = sz, uf_IsDeleted = False, uf_CreatedAt = 0, uf_UpdatedAt = 0, uf_DeletedAt = None\<rparr>"

definition CreateUserFile :: "env \<Rightarrow> user_file \<Rightarrow> nat step" where
  "CreateUserFile e userFile w =
     (if uf_ObjectID userFile = None then (Inl (Errorf ''file must have objectId''), w)
      else
     (case create_file e (new_file (uf_UserID userFile) (uf_ParentID userFile) (uf_Name userFile)
             False (uf_ObjectID userFile) (uf_Size userFile)) w of
        (Inl err, w) \<Rightarrow> (Inl err, w)
      | (Inr k, w) \<Rightarrow>
          (let w = invalidateFileListCache e (uf_UserID userFile) (uf_ParentID userFile) w;
               (_, w) = Emit e (uf_UserID userFile) ActionUpload k (uf_Size userFile) w
           in (Inr k, w))))"

definition isLiveDir :: "nat \<Rightarrow> nat \<Rightarrow> user_file \<Rightarrow> bool" where
  "isLiveDir k userID r \<longleftrightarrow> uf_ID r = k \<and> uf_UserID r = userID \<and> uf_IsDir r \<and> \<not> uf_IsDeleted r"

definition CreateUserDir :: "env \<Rightarrow> user_file \<Rightarrow> nat step" where
  "CreateUserDir e userFile w =
     (case (case uf_ParentID userFile of
              None \<Rightarrow> (Inr (), w)
            | Some p \<Rightarrow> if p = 0 then (Inr (), w)
                else (case first_file e (isLiveDir p (uf_UserID userFile)) w of
                        (Inl _, w) \<Rightarrow> (Inl (Errorf ''parent not exist or not dir''), w)
                      | (Inr _, w) \<Rightarrow> (Inr (), w))) of
        (Inl err, w) \<Rightarrow> (Inl err, w)
      | (Inr _, w) \<Rightarrow>
     (case create_file e (new_file (uf_UserID userFile) (uf_ParentID userFile) (uf_Name userFile)
             True None 0) w of
        (Inl err, w) \<Rightarrow> (Inl err, w)
      | (Inr k, w) \<Rightarrow>
          (Inr k, invalidateFileListCache e (uf_UserID userFile) (uf_ParentID userFile) w)))"

definition CreateUserFileEntry :: "env \<Rightarrow> user_file \<Rightarrow> nat step" where
  "CreateUserFileEntry e userFile =
     (if uf_IsDir userFile then CreateUserDir e userFile else CreateUserFile e userFile)"

section \<open>Recycle bin\<close>

definition GetDeletedFile :: "env \<Rightarrow> nat \<Rightarrow> nat \<Rightarrow> user_file step" where
  "GetDeletedFile e userID fileID =
     first_file_unscoped e (\<lambda>r. uf_ID r = fileID \<and> uf_UserID r = userID \<and> uf_IsDeleted r)"

definition recycled :: "int \<Rightarrow> user_file \<Rightarrow> user_file" where
  "recycled now r = r\<lparr>uf_IsDeleted := True, uf_DeletedAt := Some now\<rparr>"

definition MoveToRecycle :: "env \<Rightarrow> nat \<Rightarrow> nat \<Rightarrow> unit step" where
  "MoveToRecycle e userId fileId w =
     (let (now, w) = timeNow e w in
      case getFileParentID e userId fileId w of
        (Inl err, w) \<Rightarrow> (Inl err, w)
      | (Inr parentID, w) \<Rightarrow>
     (case update_files e (\<lambda>r. uf_ID r = fileId \<and> uf_UserID r = userId \<and> \<not> uf_IsDeleted r)
             (recycled now) w of
        (Inl err, w) \<Rightarrow> (Inl err, w)
      | (Inr _, w) \<Rightarrow> (Inr (), invalidateFileListCache e userId parentID w)))"

text \<open>\<open>Order("deleted_at DESC")\<close>; a stable sort stands for the engine's order of ties.\<close>

definition ListRecycleFiles :: "env \<Rightarrow> nat \<Rightarrow> user_file list step" where
  "ListRecycleFiles e userID w =
     (case find_files_unscoped e (\<lambda>r. uf_UserID r = userID \<and> uf_IsDeleted r) w of
        (Inl err, w) \<Rightarrow> (Inl err, w)
      | (Inr fs, w) \<Rightarrow> (Inr (sort_key (\<lambda>r. case uf_DeletedAt r of None \<Rightarrow> 1 | Some t \<Rightarrow> - t) fs), w))"

definition RestoreFile :: "env \<Rightarrow> nat \<Rightarrow> nat \<Rightarrow> unit step" where
  "RestoreFile e userID fileID w =
     (case getFileParentID e userID fileID w of
        (Inl err, w) \<Rightarrow> (Inl err, w)
      | (Inr parentID, w) \<Rightarrow>
     (case update_files_unscoped e
             (\<lambda>r. uf_ID r = fileID \<and> uf_UserID r = userID \<and> uf_IsDeleted r)
             (\<lambda>r. r\<lparr>uf_IsDeleted := False, uf_DeletedAt := None\<rparr>) w of
        (Inl err, w) \<Rightarrow> (Inl err, w)
      | (Inr _, w) \<Rightarrow> (Inr (), invalidateFileListCache e userID parentID w)))"

text \<open>The parents whose listings change: a Go map's keys, here in the order of insertion.\<close>

definition invalidateParents :: "env \<Rightarrow> nat \<Rightarrow> user_file list \<Rightarrow> world \<Rightarrow> world" where
  "invalidateParents e userID fs w =
     fold (\<lambda>p. invalidateFileListCache e userID (Some p))
       (remdups (map (\<lambda>f. cacheParentID (uf_ParentID f)) fs)) w"

definition BatchMoveToRecycle :: "env \<Rightarrow> nat \<Rightarrow> nat list \<Rightarrow> unit step" where
  "BatchMoveToRecycle e userID fileIDs w =
     (let (now, w) = timeNow e w;
          p = (\<lambda>r. uf_ID r \<in> set fileIDs \<and> uf_UserID r = userID \<and> \<not> uf_IsDeleted r)
      in case find_files e p w of
        (Inl err, w) \<Rightarrow> (Inl err, w)
      | (Inr fs, w) \<Rightarrow>
     (case update_files e p (recycled now) w of
        (Inl err, w) \<Rightarrow> (Inl err, w)
      | (Inr _, w) \<Rightarrow> (Inr (), invalidateParents e userID fs w)))"

section \<open>Permanent deletion\<close>

text \<open>A file's row goes first, then the reference to its object.\<close>

definition delete_leaf :: "env \<Rightarrow> user_file \<Rightarrow> unit step" where
  "delete_leaf e f w =
     (case delete_file_unscoped e (uf_ID f) w of
        (Inl err, w) \<Rightarrow> (Inl err, w)
      | (Inr _, w) \<Rightarrow>
          (case uf_ObjectID f of None \<Rightarrow> (Inr (), w) | Some k \<Rightarrow> RemoveObject e k w))"

fun deleteFolderRecursively :: "env \<Rightarrow> nat \<Rightarrow> nat \<Rightarrow> world \<Rightarrow> (int result \<times> world) option"
  and delete_children ::
    "env \<Rightarrow> nat \<Rightarrow> user_file list \<Rightarrow> int \<Rightarrow> world \<Rightarrow> (int result \<times> world) option" where
  "deleteFolderRecursively e 0 folderID w = None"
| "deleteFolderRecursively e (Suc n) folderID w =
     (case find_files_unscoped e (\<lambda>r. uf_ParentID r = Some folderID) w of
        (Inl err, w) \<Rightarrow> Some (Inl err, w)
      | (Inr children, w) \<Rightarrow> delete_children e n children 0 w)"
| "delete_children e n [] deletedBytes w = Some (Inr deletedBytes, w)"
| "delete_children e n (child # children) deletedBytes w =
     (if uf_IsDir child then
        (case deleteFolderRecursively e n (uf_ID child) w of
           None \<Rightarrow> None
         | Some (Inl err, w) \<Rightarrow> Some (Inl err, w)
         | Some (Inr childBytes, w) \<Rightarrow>
             (case delete_file_unscoped e (uf_ID child) w of
                (Inl err, w) \<Rightarrow> Some (Inl err, w)
              | (Inr _, w) \<Rightarrow>
                  delete_children e n children (wrap64 (deletedBytes + childBytes)) w))
      else
        (case delete_leaf e child w of
           (Inl err, w) \<Rightarrow> Some (Inl err, w)
         | (Inr _, w) \<Rightarrow>
             delete_children e n children (wrap64 (deletedBytes + uf_Size child)) w))"

definition deleteFile_finish :: "env \<Rightarrow> nat \<Rightarrow> user_file \<Rightarrow> int \<Rightarrow> unit step" where
  "deleteFile_finish e userID file deletedBytes w =
     (let w = invalidateFileListCache e userID (uf_ParentID file) w;
          (_, w) = Emit e userID ActionDelete (uf_ID file) deletedBytes w
      in (Inr (), w))"

definition DeleteFileRecord ::
  "env \<Rightarrow> nat \<Rightarrow> nat \<Rightarrow> nat \<Rightarrow> world \<Rightarrow> (unit result \<times> world) option" where
  "DeleteFileRecord e fuel userID fileID w =
     (case GetDeletedFile e userID fileID w of
        (Inl _, w) \<Rightarrow> Some (Inl (Errorf ''file not found''), w)
      | (Inr file, w) \<Rightarrow>
          if uf_IsDir file then
            (case deleteFolderRecursively e fuel (uf_ID file) w of
               None \<Rightarrow> None
             | Some (Inl err, w) \<Rightarrow> Some (Inl err, w)
             | Some (Inr deletedBytes, w) \<Rightarrow>
                 (case delete_file_unscoped e fileID w of
                    (Inl err, w) \<Rightarrow> Some (Inl err, w)
                  | (Inr _, w) \<Rightarrow> Some (deleteFile_finish e userID file deletedBytes w)))
          else
            (case delete_leaf e file w of
               (Inl err, w) \<Rightarrow> Some (Inl err, w)
             | (Inr _, w) \<Rightarrow> Some (deleteFile_finish e userID file (uf_Size file) w)))"

section \<open>Lookups\<close>

definition CheckFileOwner :: "env \<Rightarrow> nat \<Rightarrow> nat \<Rightarrow> world \<Rightarrow> bool \<times> world" where
  "CheckFileOwner e userID fileID w =
     (case count_files e (\<lambda>r. uf_ID r = fileID \<and> uf_UserID r = userID \<and> \<not> uf_IsDeleted r) w of
        (Inl _, w) \<Rightarrow> (False, w)
      | (Inr count, w) \<Rightarrow> (0 < count, w))"

definition GetUserFileById :: "env \<Rightarrow> nat \<Rightarrow> user_file step" where
  "GetUserFileById e fileID = first_file e (\<lambda>r. uf_ID r = fileID \<and> \<not> uf_IsDeleted r)"

definition GetUserFileByObjectID :: "env \<Rightarrow> nat \<Rightarrow> nat \<Rightarrow> user_file step" where
  "GetUserFileByObjectID e userID objectID = first_file e
     (\<lambda>r. uf_UserID r = userID \<and> uf_ObjectID r = Some objectID \<and> \<not> uf_IsDeleted r \<and> \<not> uf_IsDir r)"

section \<open>Renaming, moving, copying\<close>

text \<open>
  \<open>parent_id = ?\<close> against a \<open>NULL\<close> parameter holds for no row: for a file of the root folder the
  duplicate check counts nothing.
\<close>

definition sql_eq_parent :: "nat option \<Rightarrow> user_file \<Rightarrow> bool" where
  "sql_eq_parent p r \<longleftrightarrow> p \<noteq> None \<and> uf_ParentID r = p"

definition RenameFile :: "env \<Rightarrow> nat \<Rightarrow> nat \<Rightarrow> string \<Rightarrow> unit step" where
  "RenameFile e userID fileID newName w =
     (case first_file e (\<lambda>r. uf_ID r = fileID \<and> uf_UserID r = userID \<and> \<not> uf_IsDeleted r) w of
        (Inl _, w) \<Rightarrow> (Inl (Errorf ''file not found''), w)
      | (Inr file, w) \<Rightarrow>
     (case count_files e (\<lambda>r. uf_UserID r = userID \<and> sql_eq_parent (uf_ParentID file) r
              \<and> collate e (uf_Name r) = collate e newName \<and> uf_ID r \<noteq> fileID \<and> \<not> uf_IsDeleted r) w of
        (Inl err, w) \<Rightarrow> (Inl err, w)
      | (Inr count, w) \<Rightarrow>
          if 0 < count then (Inl (Errorf ''file with same name already exists''), w) else
     (case update_files e (\<lambda>r. uf_ID r = uf_ID file) (\<lambda>r. r\<lparr>uf_Name := newName\<rparr>) w of
        (Inl err, w) \<Rightarrow> (Inl err, w)
      | (Inr _, w) \<Rightarrow> (Inr (), invalidateFileListCache e userID (uf_ParentID file) w))))"

text \<open>\<open>targetID == nil || *targetID == 0\<close> means the root folder in the checks.\<close>

definition isRoot :: "nat option \<Rightarrow> bool" where
  "isRoot targetID \<longleftrightarrow> targetID = None \<or> targetID = Some 0"

definition inFolder :: "nat option \<Rightarrow> user_file \<Rightarrow> bool" where
  "inFolder targetID r \<longleftrightarrow> (if isRoot targetID then uf_ParentID r = None else uf_ParentID r = targetID)"

definition check_target :: "env \<Rightarrow> nat \<Rightarrow> nat option \<Rightarrow> unit step" where
  "check_target e userID targetID w =
     (if isRoot targetID then (Inr (), w)
      else (case first_file e (isLiveDir (the targetID) userID) w of
              (Inl _, w) \<Rightarrow> (Inl (Errorf ''target folder not found''), w)
            | (Inr _, w) \<Rightarrow> (Inr (), w)))"

text \<open>The walk up from a folder; it sees live rows only and ends at the root, at a row it does not
  find, or at \<open>parentID\<close>.\<close>

fun walk_up :: "env \<Rightarrow> nat \<Rightarrow> nat \<Rightarrow> nat \<Rightarrow> nat option \<Rightarrow> world \<Rightarrow> (bool \<times> world) option" where
  "walk_up e 0 userID parentID currentParent w = None"
| "walk_up e (Suc n) userID parentID currentParent w =
     (case currentParent of
        None \<Rightarrow> Some (False, w)
      | Some p \<Rightarrow>
          if p = parentID then Some (True, w)
          else (case first_file e (\<lambda>r. uf_ID r = p \<and> uf_UserID r = userID) w of
                  (Inl _, w) \<Rightarrow> Some (False, w)
                | (Inr parent, w) \<Rightarrow> walk_up e n userID parentID (uf_ParentID parent) w))"

definition isChildFolder ::
  "env \<Rightarrow> nat \<Rightarrow> nat \<Rightarrow> nat \<Rightarrow> nat \<Rightarrow> world \<Rightarrow> (bool \<times> world) option" where
  "isChildFolder e fuel userID folderID parentID w =
     (case first_file e (\<lambda>r. uf_ID r = folderID \<and> uf_UserID r = userID \<and> uf_IsDir r) w of
        (Inl _, w) \<Rightarrow> Some (False, w)
      | (Inr child, w) \<Rightarrow> walk_up e fuel userID parentID (uf_ParentID child) w)"

fun check_moves :: "env \<Rightarrow> nat \<Rightarrow> nat \<Rightarrow> nat \<Rightarrow> nat list \<Rightarrow> world \<Rightarrow> (unit result \<times> world) option" where
  "check_moves e fuel userID target [] w = Some (Inr (), w)"
| "check_moves e fuel userID target (fileID # fileIDs) w =
     (if target = fileID then Some (Inl (Errorf ''cannot move folder to itself''), w)
      else (case isChildFolder e fuel userID target fileID w of
              None \<Rightarrow> None
            | Some (True, w) \<Rightarrow> Some (Inl (Errorf ''cannot move folder to its subfolder''), w)
            | Some (False, w) \<Rightarrow> check_moves e fuel userID target fileIDs w))"

fun check_names :: "env \<Rightarrow> nat \<Rightarrow> nat option \<Rightarrow> user_file list \<Rightarrow> unit step" where
  "check_names e userID targetID [] w = (Inr (), w)"
| "check_names e userID targetID (file # fs) w =
     (case count_files e (\<lambda>r. uf_UserID r = userID \<and> collate e (uf_Name r) = collate e (uf_Name file)
             \<and> \<not> uf_IsDeleted r \<and> inFolder targetID r) w of
        (Inl err, w) \<Rightarrow> (Inl err, w)
      | (Inr count, w) \<Rightarrow>
          if 0 < count
          then (Inl (Errorf (''file '' @ uf_Name file @ '' already exists in target folder'')), w)
          else check_names e userID targetID fs w)"

definition move_rows :: "env \<Rightarrow> nat \<Rightarrow> nat list \<Rightarrow> nat option \<Rightarrow> unit step" where
  "move_rows e userID fileIDs targetID w =
     (let p = (\<lambda>r. uf_ID r \<in> set fileIDs \<and> uf_UserID r = userID \<and> \<not> uf_IsDeleted r) in
      case find_files e p w of
        (Inl err, w) \<Rightarrow> (Inl err, w)
      | (Inr fs, w) \<Rightarrow>
          if length fs \<noteq> length fileIDs then (Inl (Errorf ''some files not found''), w) else
     (case check_names e userID targetID fs w of
        (Inl err, w) \<Rightarrow> (Inl err, w)
      | (Inr _, w) \<Rightarrow>
     (case update_files e p (\<lambda>r. r\<lparr>uf_ParentID := targetID\<rparr>) w of
        (Inl err, w) \<Rightarrow> (Inl err, w)
      | (Inr _, w) \<Rightarrow>
          (Inr (), invalidateFileListCache e userID targetID (invalidateParents e userID fs w)))))"

definition MoveFiles ::
  "env \<Rightarrow> nat \<Rightarrow> nat \<Rightarrow> nat list \<Rightarrow> nat option \<Rightarrow> world \<Rightarrow> (unit result \<times> world) option" where
  "MoveFiles e fuel userID fileIDs targetID w =
     (case check_target e userID targetID w of
        (Inl err, w) \<Rightarrow> Some (Inl err, w)
      | (Inr _, w) \<Rightarrow>
          (case (if isRoot targetID then Some (Inr (), w)
                 else check_moves e fuel userID (the targetID) fileIDs w) of
             None \<Rightarrow> None
           | Some (Inl err, w) \<Rightarrow> Some (Inl err, w)
           | Some (Inr _, w) \<Rightarrow> Some (move_rows e userID fileIDs targetID w)))"

fun CopyFiles :: "env \<Rightarrow> nat \<Rightarrow> nat \<Rightarrow> nat list \<Rightarrow> nat option \<Rightarrow> world \<Rightarrow> (unit result \<times> world) option"
  and copy_each ::
    "env \<Rightarrow> nat \<Rightarrow> nat \<Rightarrow> user_file list \<Rightarrow> nat option \<Rightarrow> world \<Rightarrow> (unit result \<times> world) option" where
  "CopyFiles e 0 userID fileIDs targetID w = None"
| "CopyFiles e (Suc n) userID fileIDs targetID w =
     (case check_target e userID targetID w of
        (Inl err, w) \<Rightarrow> Some (Inl err, w)
      | (Inr _, w) \<Rightarrow>
     (case find_files e (\<lambda>r. uf_ID r \<in> set fileIDs \<and> uf_UserID r = userID \<and> \<not> uf_IsDeleted r) w of
        (Inl err, w) \<Rightarrow> Some (Inl err, w)
      | (Inr fs, w) \<Rightarrow>
          if length fs \<noteq> length fileIDs then Some (Inl (Errorf ''some files not found''), w)
          else copy_each e n userID fs targetID w))"
| "copy_each e n userID [] targetID w =
     Some (Inr (), invalidateFileListCache e userID targetID w)"
| "copy_each e n userID (file # fs) targetID w =
     (case check_names e userID targetID [file] w of
        (Inl err, w) \<Rightarrow> Some (Inl err, w)
      | (Inr _, w) \<Rightarrow>
     (case create_file e (new_file userID targetID (uf_Name file) (uf_IsDir file) (uf_ObjectID file)
             (uf_Size file)) w of
        (Inl err, w) \<Rightarrow> Some (Inl err, w)
      | (Inr newID, w) \<Rightarrow>
     (case (if uf_IsDir file then
              (case find_files e (\<lambda>r. uf_ParentID r = Some (uf_ID file) \<and> \<not> uf_IsDeleted r) w of
                 (Inl err, w) \<Rightarrow> Some (Inl err, w)
               | (Inr children, w) \<Rightarrow>
                   if children = [] then Some (Inr (), w)
                   else CopyFiles e n userID (map uf_ID children) (Some newID) w)
            else Some (Inr (), w)) of
        None \<Rightarrow> None
      | Some (Inl err, w) \<Rightarrow> Some (Inl err, w)
      | Some (Inr _, w) \<Rightarrow>
     (case (case uf_ObjectID file of None \<Rightarrow> (Inr (), w) | Some k \<Rightarrow> IncreaseRefCount e k w) of
        (Inl err, w) \<Rightarrow> Some (Inl err, w)
      | (Inr _, w) \<Rightarrow> copy_each e n userID fs targetID w))))"

definition CreateFolder :: "env \<Rightarrow> nat \<Rightarrow> nat option \<Rightarrow> string \<Rightarrow> unit step" where
  "CreateFolder e userID parentID name w =
     (case (if isRoot parentID then (Inr (), w)
            else (case first_file e (isLiveDir (the parentID) userID) w of
                    (Inl _, w) \<Rightarrow> (Inl (Errorf ''parent folder not found''), w)
                  | (Inr _, w) \<Rightarrow> (Inr (), w))) of
        (Inl err, w) \<Rightarrow> (Inl err, w)
      | (Inr _, w) \<Rightarrow>
     (case count_files e (\<lambda>r. uf_UserID r = userID \<and> collate e (uf_Name r) = collate e name
             \<and> uf_IsDir r \<and> \<not> uf_IsDeleted r \<and> inFolder parentID r) w of
        (Inl err, w) \<Rightarrow> (Inl err, w)
      | (Inr count, w) \<Rightarrow>
          if 0 < count then (Inl (Errorf ''folder already exists''), w) else
     (case create_file e (new_file userID parentID name True None 0) w of
        (Inl err, w) \<Rightarrow> (Inl err, w)
      | (Inr _, w) \<Rightarrow> (Inr (), invalidateFileListCache e userID parentID w))))"

section \<open>What an event leaves alone\<close>

text \<open>Reporting an activity changes the daily counters, Redis and the queues, nothing else.\<close>

definition only_daily :: "env \<Rightarrow> world \<Rightarrow> world \<Rightarrow> bool" where
  "only_daily e w w' \<longleftrightarrow> db w' = (db w)\<lparr>daily := daily (db w')\<rparr> \<and> store w' = store w
     \<and> (db_wf (collate e) (db w) \<longrightarrow> db_wf (collate e) (db w'))"

lemma only_daily_refl: "db w' = db w \<Longrightarrow> store w' = store w \<Longrightarrow> only_daily e w w'"
  by (simp add: only_daily_def)

lemma database_daily: "d2 = d1\<lparr>daily := x\<rparr> \<Longrightarrow> d1 = d\<lparr>daily := y\<rparr> \<Longrightarrow> d2 = d\<lparr>daily := x\<rparr>"
  by simp

lemma only_daily_trans: "only_daily e w w1 \<Longrightarrow> only_daily e w1 w2 \<Longrightarrow> only_daily e w w2"
  unfolding only_daily_def by (metis database_daily)

lemma only_daily_tree: "only_daily e w w' \<Longrightarrow> tree (db w') = tree (db w)"
  unfolding only_daily_def tree_def by (metis database.select_convs database.surjective database.update_convs(8))

lemma upsertDailyRow_only:
  assumes "upsertDailyRow e u day inc w = (r, w')"
  shows "only_daily e w w'"
proof -
  have wf: "db_wf (collate e) (db w')" if "db_wf (collate e) (db w)"
  proof -
    have "db_wf (collate e) (db (snd (upsertDailyRow e u day inc w)))"
      unfolding upsertDailyRow_def timeNow_def Let_def prod.case using that
      by (intro execute_db_wf)
         (auto simp: keys_wf_def upsert_daily_def Let_def intro: adt.keys_ok_ins adt.keys_ok_upd)
    with assms show ?thesis by simp
  qed
  from assms obtain f w0 where x: "execute e f w0 = (r, w')" "db w0 = db w" "store w0 = store w"
    and f: "\<And>d. snd (f d) = d\<lparr>daily := daily (snd (f d))\<rparr>"
    by (auto simp: upsertDailyRow_def timeNow_def)
  have "db w' = db w \<or> db w' = (db w)\<lparr>daily := daily (db w')\<rparr>"
    using x f [of "db w"] by (cases r) (auto dest!: execute_okD execute_InlD)
  with x execute_frame [OF x(1)] wf show ?thesis by (auto simp: only_daily_def)
qed

lemma only_daily_cong:
  "only_daily e w1 w3 \<Longrightarrow> db w1 = db w \<and> store w1 = store w \<Longrightarrow> db w' = db w3 \<and> store w' = store w3
    \<Longrightarrow> only_daily e w w'"
  by (auto simp: only_daily_def)

lemma ApplyEvent_only:
  assumes "ApplyEvent e ev w = (r, w')"
  shows "only_daily e w w'"
proof -
  note fr = redis_frame [unfolded core_eq] redis_add_daily_core [unfolded core_eq]
  from assms show ?thesis
    unfolding ApplyEvent_def Let_def
    by (auto simp: timeNow_def fr split: if_splits prod.splits sum.splits
        dest!: redis_frameD upsertDailyRow_only
        intro: only_daily_refl only_daily_cong)
qed

lemma Publish_only: "Publish e ev w = (r, ev', w') \<Longrightarrow> only_daily e w w'"
  by (auto simp: Publish_def GetToken_def timeNow_def Let_def split: if_splits prod.splits sum.splits
      intro!: only_daily_refl dest!: GetPublisher_data Publish_data)

lemma Emit_only:
  assumes "Emit e u a k n w = (r, w')"
  shows "only_daily e w w'"
proof -
  let ?w0 = "w\<lparr>drawn := Suc (drawn w), reads := Suc (reads w)\<rparr>"
  have "only_daily e ?w0 w'"
    using assms
    by (auto simp: Emit_def GetToken_def timeNow_def Let_def split: prod.splits sum.splits
        dest!: Publish_only ApplyEvent_only intro: only_daily_trans)
  then show ?thesis by (rule only_daily_cong) simp_all
qed

end
