(* ===== verification/FileTree.thy ===== *)
theory FileTree
  imports UserFiles
begin

text \<open>
  Permanent deletion on the file tree: the parent relation of a list of rows, what lies below a
  folder, and the theorems on \<open>DeleteFileRecord\<close>: it ends on a tree, removes the folder with all
  that lies below it, and whatever fails on the way, every object a remaining file uses keeps
  its row and its contents.
\<close>

section \<open>The parent relation\<close>

definition up :: "user_file list \<Rightarrow> (nat \<times> nat) set" where
  "up fs = {(uf_ID f, p) | f p. f \<in> set fs \<and> uf_ParentID f = Some p}"

definition below :: "user_file list \<Rightarrow> nat \<Rightarrow> nat set" where
  "below fs k = {x. (x, k) \<in> (up fs)\<^sup>+}"

definition tree_shaped :: "user_file list \<Rightarrow> bool" where
  "tree_shaped fs \<longleftrightarrow> distinct (map uf_ID fs) \<and> acyclic (up fs)"

lemma upI: "f \<in> set fs \<Longrightarrow> uf_ParentID f = Some p \<Longrightarrow> (uf_ID f, p) \<in> up fs"
  by (auto simp: up_def)

lemma up_mono: "set gs \<subseteq> set fs \<Longrightarrow> up gs \<subseteq> up fs"
  by (auto simp: up_def)

lemma tree_shaped_filter: "tree_shaped fs \<Longrightarrow> tree_shaped (filter p fs)"
  unfolding tree_shaped_def
  by (metis acyclic_subset distinct_map_filterI filter_is_subset up_mono)

lemma below_ID: "x \<in> below fs k \<Longrightarrow> \<exists>f\<in>set fs. uf_ID f = x"
  unfolding below_def by (auto simp: up_def dest: tranclD)

lemma below_unfold:
  "below fs k = (\<Union>f\<in>{f \<in> set fs. uf_ParentID f = Some k}. insert (uf_ID f) (below fs (uf_ID f)))"
proof -
  have "x \<in> below fs k \<longleftrightarrow> (x, k) \<in> up fs \<or> (\<exists>y. (x, y) \<in> (up fs)\<^sup>+ \<and> (y, k) \<in> up fs)" for x
    unfolding below_def by (auto intro: trancl.trancl_into_trancl elim: tranclE)
  then show ?thesis by (auto simp: up_def below_def)
qed

lemma below_closed: "(x, y) \<in> up fs \<Longrightarrow> y \<in> below fs k \<Longrightarrow> x \<in> below fs k"
  unfolding below_def by (auto intro: trancl_into_trancl2)

lemma below_child: "(x, k) \<in> up fs \<Longrightarrow> x \<in> below fs k"
  unfolding below_def by auto

lemma below_not_self: "tree_shaped fs \<Longrightarrow> k \<notin> below fs k"
  by (auto simp: tree_shaped_def acyclic_def below_def)

text \<open>Dropping a set of rows closed under children cuts it out of every subtree.\<close>

lemma below_drop:
  assumes "\<And>x y. (x, y) \<in> up fs \<Longrightarrow> y \<in> S \<Longrightarrow> x \<in> S"
  shows "below (filter (\<lambda>f. uf_ID f \<notin> S) fs) k = below fs k - S"
proof (rule set_eqI)
  let ?gs = "filter (\<lambda>f. uf_ID f \<notin> S) fs"
  have sub: "up ?gs \<subseteq> up fs" by (rule up_mono) simp
  fix x
  have "(x, k) \<in> (up fs)\<^sup>+ \<Longrightarrow> x \<notin> S \<Longrightarrow> (x, k) \<in> (up ?gs)\<^sup>+"
  proof (induction rule: converse_trancl_induct)
    case (base x)
    then show ?case by (auto simp: up_def)
  next
    case (step x y)
    from step.hyps(1) step.prems have "(x, y) \<in> up ?gs" by (auto simp: up_def)
    moreover from step assms have "y \<notin> S" by blast
    ultimately show ?case using step.IH by (auto intro: trancl_into_trancl2)
  qed
  moreover have "(x, k) \<in> (up ?gs)\<^sup>+ \<Longrightarrow> (x, k) \<in> (up fs)\<^sup>+"
    using trancl_mono [OF _ sub] by blast
  moreover have "x \<in> below ?gs k \<Longrightarrow> x \<notin> S" using below_ID [of x ?gs k] by auto
  ultimately show "x \<in> below ?gs k \<longleftrightarrow> x \<in> below fs k - S"
    by (auto simp: below_def)
qed

text \<open>The subtree of a child, itself included.\<close>

definition subtree :: "user_file list \<Rightarrow> nat \<Rightarrow> nat set" where
  "subtree fs k = insert k (below fs k)"

lemma subtree_closed: "(x, y) \<in> up fs \<Longrightarrow> y \<in> subtree fs k \<Longrightarrow> x \<in> subtree fs k"
  by (auto simp: subtree_def intro: below_closed below_child)

lemma below_children:
  "below fs k = (\<Union>f\<in>{f \<in> set fs. uf_ParentID f = Some k}. subtree fs (uf_ID f))"
  unfolding subtree_def by (rule below_unfold)

lemma subtree_drop:
  assumes "k \<notin> subtree fs j"
  shows "subtree (filter (\<lambda>f. uf_ID f \<notin> subtree fs j) fs) k = subtree fs k - subtree fs j"
  using assms below_drop [of fs "subtree fs j" k] subtree_closed [of _ _ fs j]
  by (auto simp: subtree_def)

text \<open>Two children of a folder lie in disjoint subtrees.\<close>

lemma siblings_apart:
  assumes "tree_shaped fs" "f \<in> set fs" "g \<in> set fs" "uf_ParentID f = Some k"
    "uf_ParentID g = Some k" "f \<noteq> g"
  shows "uf_ID g \<notin> subtree fs (uf_ID f)"
proof
  assume "uf_ID g \<in> subtree fs (uf_ID f)"
  moreover have ne: "uf_ID g \<noteq> uf_ID f"
    using assms distinct_map_eq [of uf_ID fs g f] by (auto simp: tree_shaped_def)
  ultimately have "(uf_ID g, uf_ID f) \<in> (up fs)\<^sup>+" by (simp add: subtree_def below_def)
  then obtain y where y: "(uf_ID g, y) \<in> up fs" "(y, uf_ID f) \<in> (up fs)\<^sup>*" by (auto dest: tranclD)
  then obtain g' where "g' \<in> set fs" "uf_ID g' = uf_ID g" "uf_ParentID g' = Some y"
    by (auto simp: up_def)
  moreover from this assms distinct_map_eq [of uf_ID fs g' g] have "g' = g"
    by (auto simp: tree_shaped_def)
  ultimately have "y = k" using assms(5) by simp
  with y(2) upI [OF assms(2,4)] have "(uf_ID f, uf_ID f) \<in> (up fs)\<^sup>+" by auto
  with assms(1) show False by (auto simp: tree_shaped_def acyclic_def)
qed

text \<open>The number of rows below a folder bounds the depth of the recursion.\<close>

definition height :: "user_file list \<Rightarrow> nat \<Rightarrow> nat" where
  "height fs k = card (below fs k)"

lemma below_finite: "finite (below fs k)"
proof -
  have "below fs k \<subseteq> uf_ID ` set fs" using below_ID by blast
  then show ?thesis by (rule finite_subset) simp
qed

lemma height_child:
  assumes "tree_shaped fs" "(x, k) \<in> up fs"
  shows "height fs x < height fs k"
proof -
  have "insert x (below fs x) \<subseteq> below fs k"
    using below_child [OF assms(2)] assms(2) unfolding below_def
    by (auto intro: trancl_into_trancl)
  then have "card (insert x (below fs x)) \<le> height fs k"
    unfolding height_def by (rule card_mono [OF below_finite])
  moreover have "card (insert x (below fs x)) = Suc (height fs x)"
    using below_not_self [OF assms(1)] below_finite by (simp add: height_def)
  ultimately show ?thesis by simp
qed

lemma height_le_length: "height fs k \<le> length fs"
proof -
  have "below fs k \<subseteq> uf_ID ` set fs" using below_ID by blast
  then have "height fs k \<le> card (uf_ID ` set fs)"
    unfolding height_def by (intro card_mono) simp_all
  also have "\<dots> \<le> card (set fs)" by (rule card_image_le) simp
  also have "\<dots> \<le> length fs" by (rule card_length)
  finally show ?thesis .
qed

lemma height_mono: "set gs \<subseteq> set fs \<Longrightarrow> height gs k \<le> height fs k"
  unfolding height_def
proof (rule card_mono [OF below_finite])
  assume "set gs \<subseteq> set fs"
  then show "below gs k \<subseteq> below fs k"
    using trancl_mono [OF _ up_mono] by (auto simp: below_def)
qed

section \<open>Well-formedness through the operations\<close>

abbreviation wf_step :: "env \<Rightarrow> world \<Rightarrow> world \<Rightarrow> bool" where
  "wf_step e w w' \<equiv> db_wf (collate e) (db w) \<longrightarrow> db_wf (collate e) (db w')"

lemma statement_wf:
  "create_file e r w = (x1, w') \<Longrightarrow> wf_step e w w'"
  "delete_file_unscoped e k w = (x2, w') \<Longrightarrow> wf_step e w w'"
  "create_object e ob w = (x1, w') \<Longrightarrow> wf_step e w w'"
  "delete_object e k w = (x2, w') \<Longrightarrow> wf_step e w w'"
  "create_session e s w = (x1, w') \<Longrightarrow> wf_step e w w'"
  "delete_session e k w = (x2, w') \<Longrightarrow> wf_step e w w'"
  "upsert_chunk e c w = (x2, w') \<Longrightarrow> wf_step e w w'"
  "delete_chunks e p w = (x2, w') \<Longrightarrow> wf_step e w w'"
  using create_file_db_wf delete_file_db_wf create_object_db_wf delete_object_db_wf
    create_session_db_wf delete_session_db_wf upsert_chunk_db_wf delete_chunks_db_wf
  by (metis snd_conv)+

lemma update_objects_wf:
  "update_objects e p f w = (x, w') \<Longrightarrow> (\<And>r. fo_ID (f r) = fo_ID r) \<Longrightarrow> wf_step e w w'"
  using update_objects_db_wf by (metis snd_conv)

lemma update_count_wf:
  "update_objects e p (\<lambda>r. r\<lparr>fo_RefCount := g r\<rparr>) w = (x, w') \<Longrightarrow> wf_step e w w'"
  by (erule update_objects_wf) simp

lemma IncreaseRefCount_wf: "IncreaseRefCount e k w = (x, w') \<Longrightarrow> wf_step e w w'"
  unfolding IncreaseRefCount_def by (elim seqE) (auto dest!: update_count_wf)

lemma DecreaseRefCount_wf: "DecreaseRefCount e k w = (x, w') \<Longrightarrow> wf_step e w w'"
  unfolding DecreaseRefCount_def
  by (elim seqE if_eqE) (auto dest!: update_count_wf first_object_core)

lemma RemoveObject_tail_wf:
  assumes "(case last_session e p w of (Inl _, w) \<Rightarrow> (Inr (), w)
     | (Inr session, w) \<Rightarrow> delete_chunks e (q session) w) = (r, w')"
  shows "wf_step e w w'"
  using assms by (auto split: prod.splits sum.splits dest!: last_session_core statement_wf(8))

lemma RemoveObject_wf: "RemoveObject e k w = (x, w') \<Longrightarrow> wf_step e w w'"
  unfolding RemoveObject_def Let_def
  by (elim seqE if_eqE)
     (auto dest!: first_object_core DeleteMinioFile_frame DecreaseRefCount_wf statement_wf(4)
       RemoveObject_tail_wf)

section \<open>Removing rows\<close>

text \<open>
  The state between two requests of a service: a well-formed database, counts that cover the
  references, objects under distinct names. With \<open>x\<close> the counts are exact, folders carry no
  object, and no request fails.
\<close>

definition sound :: "bool \<Rightarrow> env \<Rightarrow> world \<Rightarrow> bool" where
  "sound x e w \<longleftrightarrow> db_wf (collate e) (db w) \<and> ref_rel x none (db w) \<and> paths_distinct (db w)
     \<and> (x \<longrightarrow> fault e = (\<lambda>_. False)
          \<and> (\<forall>f\<in>set (rows (files (db w))). uf_IsDir f \<longrightarrow> uf_ObjectID f = None))"

definition shrunk :: "bool \<Rightarrow> env \<Rightarrow> world \<Rightarrow> world \<Rightarrow> bool" where
  "shrunk x e w w' \<longleftrightarrow> sound x e w' \<and> kept w w' \<and> (\<forall>k. refs (db w') k \<le> refs (db w) k)"

lemma shrunk_refl: "sound x e w \<Longrightarrow> tree (db w') = tree (db w) \<Longrightarrow> store w' = store w
  \<Longrightarrow> db_wf (collate e) (db w') \<Longrightarrow> shrunk x e w w'"
  using kept_refl_tree [of w' w]
  by (auto simp: shrunk_def sound_def refs_def ref_rel_def paths_distinct_def)

lemma shrunk_trans: "shrunk x e w w1 \<Longrightarrow> shrunk x e w1 w2 \<Longrightarrow> shrunk x e w w2"
  unfolding shrunk_def by (metis kept_trans order_trans)

lemma shrunk_sound: "shrunk x e w w' \<Longrightarrow> sound x e w'"
  by (simp add: shrunk_def)

lemma sound_keys: "sound x e w \<Longrightarrow> distinct (map uf_ID (rows (files (db w))))"
  by (auto simp: sound_def db_wf_def keys_wf_def intro: uft.keys_ok_distinct)

lemma refs_delete:
  assumes "distinct (map uf_ID (rows (files d)))" "f \<in> set (rows (files d))"
    and "rows (files d') = filter (\<lambda>g. uf_ID g \<noteq> uf_ID f) (rows (files d))"
  shows "refs d' k = refs d k - (if uf_ObjectID f = Some k then 1 else 0)"
  using length_filter_remove_key [OF assms(1,2), of "\<lambda>g. uf_ObjectID g = Some k"]
    length_filter_pos [OF assms(2), of "\<lambda>g. uf_ObjectID g = Some k"]
  by (auto simp: refs_def assms(3) of_nat_diff Suc_le_eq)

text \<open>A row deleted: its object, if it has one, is owed an uncount.\<close>

lemma delete_row_rel:
  assumes "delete_file_unscoped e (uf_ID f) w = (Inr u, w')" and "ref_rel x none (db w)"
    and "distinct (map uf_ID (rows (files (db w))))" and "f \<in> set (rows (files (db w)))"
  shows "ref_rel x (case uf_ObjectID f of None \<Rightarrow> none | Some k \<Rightarrow> owes k) (db w')
    \<and> objects (db w') = objects (db w) \<and> store w' = store w
    \<and> rows (files (db w')) = filter (\<lambda>g. uf_ID g \<noteq> uf_ID f) (rows (files (db w)))"
proof -
  from delete_file_InrD [OF assms(1)] have d: "db w' = delete_file_row (uf_ID f) (db w)" by simp
  then have r: "rows (files (db w')) = filter (\<lambda>g. uf_ID g \<noteq> uf_ID f) (rows (files (db w)))"
    and o': "objects (db w') = objects (db w)"
    by (simp_all add: delete_file_row_def delete_rows_def)
  from refs_delete [OF assms(3,4) r] assms(2)
  have "ref_rel x (case uf_ObjectID f of None \<Rightarrow> none | Some k \<Rightarrow> owes k) (db w')"
    by (auto simp: ref_rel_def o' split: option.splits if_splits)
  with r o' delete_file_frame [OF assms(1)] show ?thesis by simp
qed

lemma kept_same_objects:
  "objects (db w') = objects (db w) \<Longrightarrow> store w' = store w \<Longrightarrow> kept w w'"
proof -
  assume a: "objects (db w') = objects (db w)" "store w' = store w"
  have "r = r\<lparr>fo_RefCount := fo_RefCount r\<rparr>" for r :: file_object by simp
  with a show ?thesis unfolding kept_def obj_get_def by metis
qed

lemma delete_bare_row:
  assumes "delete_file_unscoped e (uf_ID f) w = (r, w')" and "sound x e w"
    and "f \<in> set (rows (files (db w)))" and "x \<Longrightarrow> uf_ObjectID f = None"
  shows "shrunk x e w w' \<and> (\<forall>u. r = Inr u \<longrightarrow>
    rows (files (db w')) = filter (\<lambda>g. uf_ID g \<noteq> uf_ID f) (rows (files (db w))))"
proof (cases r)
  case (Inl err)
  with assms show ?thesis
    using delete_file_InlD delete_file_frame [OF assms(1)]
    by (auto simp: sound_def intro!: shrunk_refl)
next
  case (Inr u)
  from assms(2) have s: "ref_rel x none (db w)" "db_wf (collate e) (db w)" "paths_distinct (db w)"
    by (auto simp: sound_def)
  note d = delete_row_rel [OF assms(1) [unfolded Inr] s(1) sound_keys [OF assms(2)] assms(3)]
  note n = refs_delete [OF sound_keys [OF assms(2)] assms(3), of "db w'"]
  have "ref_rel x none (db w')"
  proof (cases x)
    case True
    with d assms(4) show ?thesis by simp
  next
    case False
    from d have "ref_rel False (case uf_ObjectID f of None \<Rightarrow> none | Some k \<Rightarrow> owes k) (db w')"
      using False by simp
    then have "ref_rel False none (db w')"
      by (rule ref_rel_weaken) (auto split: option.splits)
    with False show ?thesis by simp
  qed
  moreover have "kept w w'" using d by (intro kept_same_objects) auto
  ultimately show ?thesis
    using d n s assms(2) statement_wf(2) [OF assms(1)]
    by (auto simp: shrunk_def sound_def paths_distinct_def)
qed

lemma delete_leaf_shrunk:
  assumes "delete_leaf e f w = (r, w')" and "sound x e w" and "f \<in> set (rows (files (db w)))"
  shows "shrunk x e w w' \<and> (\<forall>u. r = Inr u \<longrightarrow>
    rows (files (db w')) = filter (\<lambda>g. uf_ID g \<noteq> uf_ID f) (rows (files (db w))))"
proof (cases "uf_ObjectID f")
  case None
  with assms delete_bare_row [OF _ assms(2,3)] show ?thesis
    unfolding delete_leaf_def by (elim seqE) auto
next
  case (Some k)
  from assms(1) show ?thesis
    unfolding delete_leaf_def Some option.case
  proof (elim seqE, goal_cases)
    case (1 err)
    with assms show ?case
      using delete_file_InlD delete_file_frame [OF 1(1)]
      by (auto simp: sound_def intro!: shrunk_refl)
  next
    case (2 u w1)
    from assms(2) have s: "ref_rel x none (db w)" "db_wf (collate e) (db w)" "paths_distinct (db w)"
      by (auto simp: sound_def)
    note d = delete_row_rel [OF 2(1) s(1) sound_keys [OF assms(2)] assms(3)]
    have rel: "ref_rel x (owes k) (db w1)" using d Some by simp
    have relF: "ref_rel False (owes k) (db w1)" by (rule ref_rel_weaken [OF rel]) simp
    note wf1 = statement_wf(2) [OF 2(1), rule_format, OF s(2)]
    have hk: "has_key fo_ID (objects (db w1)) k"
      using db_wf_object [OF s(2) assms(3) Some] d by (simp add: has_key_iff)
    have p1: "paths_distinct (db w1)" using d s(3) by (simp add: paths_distinct_def)
    note rm = RemoveObject_rel [OF 2(2) rel wf1 _ hk] RemoveObject_kept [OF 2(2) relF wf1 p1]
      RemoveObject_wf [OF 2(2), rule_format, OF wf1] RemoveObject_files [OF 2(2)]
    have k1: "kept w w1" using d by (intro kept_same_objects) auto
    have n1: "refs (db w1) j \<le> refs (db w) j" for j
      using refs_delete [OF sound_keys [OF assms(2)] assms(3), of "db w1" j] d by simp
    have n2: "refs (db w') j = refs (db w1) j" for j using rm(4) by (simp add: refs_def)
    have "kept w w'" using kept_trans [OF k1] rm(2) n2 by simp
    then show ?case
      using rm n1 n2 d assms(2) by (auto simp: shrunk_def sound_def)
  qed
qed

section \<open>Deleting a folder\<close>

abbreviation frows :: "world \<Rightarrow> user_file list" where
  "frows w \<equiv> rows (files (db w))"

definition removed :: "bool \<Rightarrow> env \<Rightarrow> world \<Rightarrow> nat set \<Rightarrow> 'a result \<Rightarrow> world \<Rightarrow> bool" where
  "removed x e w S r w' \<longleftrightarrow> shrunk x e w w'
     \<and> (\<forall>a. r = Inr a \<longrightarrow> frows w' = filter (\<lambda>f. uf_ID f \<notin> S) (frows w))"

lemma removed_Inl: "shrunk x e w w' \<Longrightarrow> removed x e w S (Inl err) w'"
  by (simp add: removed_def)

lemma removed_trans:
  assumes "removed x e w S (Inr a) w1" and "removed x e w1 T r w2"
  shows "removed x e w (S \<union> T) r w2"
  using assms shrunk_trans by (auto simp: removed_def intro: filter_cong)

lemma removed_cong: "removed x e w S r w' \<Longrightarrow> (\<And>f. f \<in> set (frows w) \<Longrightarrow> uf_ID f \<in> S \<longleftrightarrow> uf_ID f \<in> T)
  \<Longrightarrow> removed x e w T r w'"
  by (auto simp: removed_def intro: filter_cong)

text \<open>A row that could be deleted alone has nothing below it: the foreign key would dangle.\<close>

lemma no_children_left:
  assumes "sound x e w'" and "frows w' = filter (\<lambda>g. uf_ID g \<noteq> k) fs"
    and "tree_shaped fs"
  shows "below fs k = {}"
proof (rule ccontr)
  assume "below fs k \<noteq> {}"
  then obtain g where g: "g \<in> set fs" "uf_ParentID g = Some k"
    using below_children [of fs k] by auto
  have "uf_ID g \<noteq> k" using assms(3) upI [OF g] by (auto simp: tree_shaped_def acyclic_def)
  with g assms(2) have "g \<in> set (frows w')" by simp
  with assms(1) g(2) obtain p where "p \<in> set (frows w')" "uf_ID p = k"
    unfolding sound_def by (metis db_wf_parent)
  with assms(2) show False by simp
qed

lemma delete_leaf_removed:
  assumes "delete_leaf e f w = (r, w')" and "sound x e w" and "f \<in> set (frows w)"
    and "tree_shaped (frows w)"
  shows "removed x e w (subtree (frows w) (uf_ID f)) r w'"
proof (cases r)
  case (Inl err)
  with delete_leaf_shrunk [OF assms(1-3)] show ?thesis by (simp add: removed_def)
next
  case (Inr u)
  from delete_leaf_shrunk [OF assms(1-3)] Inr
  have s: "shrunk x e w w'" and fs: "frows w' = filter (\<lambda>g. uf_ID g \<noteq> uf_ID f) (frows w)" by auto
  from no_children_left [OF shrunk_sound [OF s] fs assms(4)]
  show ?thesis using s fs by (simp add: removed_def subtree_def)
qed

lemma delete_dir_removed:
  assumes "removed x e w (below (frows w) (uf_ID f)) (Inr a) w1"
    and "delete_file_unscoped e (uf_ID f) w1 = (r, w2)" and "sound x e w" and "f \<in> set (frows w)"
    and "uf_IsDir f" and "tree_shaped (frows w)"
  shows "removed x e w (subtree (frows w) (uf_ID f)) r w2"
proof -
  have s1: "sound x e w1" and f1: "frows w1 = filter (\<lambda>g. uf_ID g \<notin> below (frows w) (uf_ID f)) (frows w)"
    using assms(1) shrunk_sound by (auto simp: removed_def)
  have in1: "f \<in> set (frows w1)" using f1 assms(4) below_not_self [OF assms(6)] by auto
  have "x \<Longrightarrow> uf_ObjectID f = None" using assms(3-5) by (auto simp: sound_def)
  from delete_bare_row [OF assms(2) s1 in1 this]
  have "removed x e w1 {uf_ID f} r w2" by (auto simp: removed_def)
  from removed_trans [OF assms(1) this] show ?thesis by (simp add: subtree_def)
qed

text \<open>After one child's subtree is gone, the other children keep theirs.\<close>

lemma children_after:
  assumes "tree_shaped fs" and "set (c # cs) \<subseteq> {f \<in> set fs. uf_ParentID f = Some k}"
    and "distinct (c # cs)" and "gs = filter (\<lambda>f. uf_ID f \<notin> subtree fs (uf_ID c)) fs"
  shows "set cs \<subseteq> {f \<in> set gs. uf_ParentID f = Some k}"
    and "d \<in> set cs \<Longrightarrow> subtree gs (uf_ID d) = subtree fs (uf_ID d) - subtree fs (uf_ID c)"
proof -
  have apart: "uf_ID d \<notin> subtree fs (uf_ID c)" if "d \<in> set cs" for d
    using siblings_apart [OF assms(1), of c d k] assms(2,3) that by auto
  with assms(2,4) show "set cs \<subseteq> {f \<in> set gs. uf_ParentID f = Some k}" by auto
  show "subtree gs (uf_ID d) = subtree fs (uf_ID d) - subtree fs (uf_ID c)" if "d \<in> set cs"
    unfolding assms(4) by (rule subtree_drop [OF apart [OF that]])
qed

lemma removed_children:
  assumes "removed x e w (subtree (frows w) (uf_ID c)) (Inr a) w1"
    and "tree_shaped (frows w)" and "set (c # cs) \<subseteq> {f \<in> set (frows w). uf_ParentID f = Some k}"
    and "distinct (c # cs)"
    and "removed x e w1 (\<Union>d\<in>set cs. subtree (frows w1) (uf_ID d)) r w2"
  shows "removed x e w (\<Union>d\<in>set (c # cs). subtree (frows w) (uf_ID d)) r w2"
proof -
  have g: "frows w1 = filter (\<lambda>f. uf_ID f \<notin> subtree (frows w) (uf_ID c)) (frows w)"
    using assms(1) by (simp add: removed_def)
  have "(\<Union>d\<in>set cs. subtree (frows w1) (uf_ID d)) =
      (\<Union>d\<in>set cs. subtree (frows w) (uf_ID d) - subtree (frows w) (uf_ID c))"
    using children_after(2) [OF assms(2-4) g] by (rule SUP_cong [OF refl])
  with removed_trans [OF assms(1,5)] show ?thesis
    by (rule_tac removed_cong) auto
qed

lemma find_children:
  assumes "find_files_unscoped e (\<lambda>r. uf_ParentID r = Some k) w = (r, w')" and "sound x e w"
  shows "shrunk x e w w' \<and> frows w' = frows w
    \<and> (\<forall>cs. r = Inr cs \<longrightarrow> cs = filter (\<lambda>r. uf_ParentID r = Some k) (frows w))"
  using assms queryD [OF assms(1) [unfolded find_files_unscoped_def]]
  by (auto intro!: shrunk_refl simp: sound_def)

lemma removed_head:
  assumes "removed x e w (subtree (frows w) (uf_ID c)) (Inr a) w1" and "tree_shaped (frows w)"
    and "set (c # cs) \<subseteq> {f \<in> set (frows w). uf_ParentID f = Some k}" and "distinct (c # cs)"
  shows "sound x e w1 \<and> tree_shaped (frows w1)
    \<and> set cs \<subseteq> {f \<in> set (frows w1). uf_ParentID f = Some k} \<and> distinct cs"
proof -
  have g: "frows w1 = filter (\<lambda>f. uf_ID f \<notin> subtree (frows w) (uf_ID c)) (frows w)"
    using assms(1) by (simp add: removed_def)
  from children_after(1) [OF assms(2-4) g] tree_shaped_filter [OF assms(2)] assms(1,4) g
  show ?thesis by (auto simp: removed_def shrunk_sound)
qed

theorem delete_tree:
  "deleteFolderRecursively e n k w = Some (r, w') \<Longrightarrow> sound x e w \<Longrightarrow> tree_shaped (frows w)
    \<Longrightarrow> removed x e w (below (frows w) k) r w'"
  "delete_children e n cs b w = Some (r, w') \<Longrightarrow> sound x e w \<Longrightarrow> tree_shaped (frows w)
    \<Longrightarrow> set cs \<subseteq> {f \<in> set (frows w). uf_ParentID f = Some p} \<Longrightarrow> distinct cs
    \<Longrightarrow> removed x e w (\<Union>c\<in>set cs. subtree (frows w) (uf_ID c)) r w'"
proof (induction e n k w and e n cs b w arbitrary: r w' and r w' p
    rule: deleteFolderRecursively_delete_children.induct)
  case (1 e k w)
  then show ?case by simp
next
  case (2 e n k w)
  obtain y w1 where q: "find_files_unscoped e (\<lambda>r. uf_ParentID r = Some k) w = (y, w1)" by fastforce
  note fc = find_children [OF q 2(3)]
  show ?case
  proof (cases y)
    case (Inl err)
    with 2(2) q fc show ?thesis by (auto intro: removed_Inl)
  next
    case (Inr cs)
    with fc have cs: "cs = filter (\<lambda>r. uf_ParentID r = Some k) (frows w)" by simp
    have "distinct cs" using 2(4) unfolding cs tree_shaped_def
      by (metis distinct_filter distinct_map)
    moreover have "set cs \<subseteq> {f \<in> set (frows w1). uf_ParentID f = Some k}" using cs fc by auto
    moreover have "delete_children e n cs 0 w1 = Some (r, w')" using 2(2) q Inr by simp
    moreover have "sound x e w1" "tree_shaped (frows w1)" using fc 2(4) shrunk_sound by auto
    ultimately have r1: "removed x e w1 (\<Union>c\<in>set cs. subtree (frows w1) (uf_ID c)) r w'"
      using 2(1) [OF q [symmetric] Inr] by blast
    have "removed x e w {} (Inr cs) w1" using fc by (simp add: removed_def)
    from removed_trans [OF this r1] fc
    have "removed x e w (\<Union>c\<in>set cs. subtree (frows w) (uf_ID c)) r w'" by simp
    moreover have "(\<Union>c\<in>set cs. subtree (frows w) (uf_ID c)) = below (frows w) k"
      unfolding below_children [of "frows w" k] cs by simp
    ultimately show ?thesis by simp
  qed
next
  case (3 e n b w)
  then show ?case by (auto simp: removed_def intro!: shrunk_refl simp: sound_def)
next
  case (4 e n c cs b w)
  from 4(7) have c: "c \<in> set (frows w)" by simp
  show ?case
  proof (cases "uf_IsDir c")
    case True
    with 4(4) obtain y w1 where d: "deleteFolderRecursively e n (uf_ID c) w = Some (y, w1)"
      by (auto split: option.splits)
    from 4(1) [OF True this 4(5,6)] have r1: "removed x e w (below (frows w) (uf_ID c)) y w1" .
    show ?thesis
    proof (cases y)
      case (Inl err)
      with 4(4) True d r1 show ?thesis by (auto simp: removed_def)
    next
      case (Inr cb)
      obtain z w2 where dl: "delete_file_unscoped e (uf_ID c) w1 = (z, w2)" by fastforce
      from delete_dir_removed [OF r1 [unfolded Inr] dl 4(5) c True 4(6)]
      have r2: "removed x e w (subtree (frows w) (uf_ID c)) z w2" .
      show ?thesis
      proof (cases z)
        case (Inl err)
        with 4(4) True d \<open>y = Inr cb\<close> dl r2 show ?thesis by (auto simp: removed_def)
      next
        case (Inr u)
        note r3 = r2 [unfolded this]
        have "delete_children e n cs (wrap64 (b + cb)) w2 = Some (r, w')"
          using 4(4) True d \<open>y = Inr cb\<close> dl Inr by simp
        from 4(2) [OF True d refl \<open>y = Inr cb\<close> dl [symmetric] Inr this] removed_head [OF r3 4(6-8)]
        show ?thesis by (intro removed_children [OF r3 4(6-8)]) blast
      qed
    qed
  next
    case False
    obtain z w2 where dl: "delete_leaf e c w = (z, w2)" by fastforce
    from delete_leaf_removed [OF this 4(5) c 4(6)]
    have r2: "removed x e w (subtree (frows w) (uf_ID c)) z w2" .
    show ?thesis
    proof (cases z)
      case (Inl err)
      with 4(4) False dl r2 show ?thesis by (auto simp: removed_def)
    next
      case (Inr u)
      note r3 = r2 [unfolded this]
      have "delete_children e n cs (wrap64 (b + uf_Size c)) w2 = Some (r, w')"
        using 4(4) False dl Inr by simp
      from 4(3) [OF False dl [symmetric] Inr this] removed_head [OF r3 4(6-8)]
      show ?thesis by (intro removed_children [OF r3 4(6-8)]) blast
    qed
  qed
qed

section \<open>DeleteFileRecord\<close>

lemma invalidateFileListCache_core [simp]: "core (invalidateFileListCache e u p w) = core w"
  unfolding invalidateFileListCache_def by (rule cache_write_frame)

lemmas invalidateFileListCache_frame [simp] = invalidateFileListCache_core [unfolded core_eq]

lemma deleteFile_finish_only:
  assumes "deleteFile_finish e u f n w = (r, w')"
  shows "only_daily e w w' \<and> r = Inr ()"
proof -
  let ?w0 = "invalidateFileListCache e u (uf_ParentID f) w"
  from assms obtain r1 where "Emit e u ActionDelete (uf_ID f) n ?w0 = (r1, w')" and r: "r = Inr ()"
    by (auto simp: deleteFile_finish_def Let_def split: prod.splits)
  from only_daily_cong [OF Emit_only [OF this(1)]] r show ?thesis by simp
qed

lemma removed_finish:
  assumes "removed x e w S (Inr a) w1" and "only_daily e w1 w2"
  shows "removed x e w S (Inr b) w2"
proof -
  from assms(1) have s: "sound x e w1" by (auto simp: removed_def dest: shrunk_sound)
  have "tree (db w2) = tree (db w1)" "store w2 = store w1" and "db_wf (collate e) (db w2)"
    using only_daily_tree [OF assms(2)] assms(2) s by (auto simp: only_daily_def sound_def)
  with shrunk_refl [OF s] have "removed x e w1 {} (Inr b) w2" by (simp add: removed_def)
  from removed_trans [OF assms(1) this] show ?thesis by simp
qed

lemma removed_result:
  assumes "removed x e w S v w3"
    and "(case v of Inl err \<Rightarrow> Some (Inl err, w3) | Inr _ \<Rightarrow> Some (deleteFile_finish e u f b w3)) = Some (r, w')"
  shows "removed x e w S r w'"
proof (cases v)
  case (Inl err)
  with assms show ?thesis by (auto simp: removed_def)
next
  case (Inr a)
  with assms(2) have "deleteFile_finish e u f b w3 = (r, w')" by simp
  from deleteFile_finish_only [OF this] assms(1) Inr show ?thesis by (auto intro: removed_finish)
qed

lemma GetDeletedFile_same:
  assumes "GetDeletedFile e u k w = (y, w1)"
  shows "db w1 = db w \<and> store w1 = store w \<and> (\<forall>f. y = Inr f \<longrightarrow> f \<in> set (frows w) \<and> uf_ID f = k
    \<and> uf_UserID f = u \<and> uf_IsDeleted f)"
  using query_rowD [OF assms [unfolded GetDeletedFile_def first_file_unscoped_def]]
  by (auto dest: first_row_SomeD)

lemma DeleteFileRecord_removed:
  assumes "DeleteFileRecord e n u k w = Some (r, w')" and "sound x e w" and "tree_shaped (frows w)"
  shows "removed x e w (subtree (frows w) k) r w'"
proof -
  obtain y w1 where g: "GetDeletedFile e u k w = (y, w1)" by fastforce
  note same = GetDeletedFile_same [OF g]
  have s1: "sound x e w1" using assms(2) same by (simp add: sound_def)
  have sh: "shrunk x e w w1" using assms(2) same by (intro shrunk_refl) (auto simp: sound_def)
  have via: "removed x e w S r2 w2" if "removed x e w1 S r2 w2" for S and r2 :: "unit result" and w2
    using removed_trans [of x e w "{}" undefined w1 S r2 w2] that same sh by (simp add: removed_def)
  show ?thesis
  proof (cases y)
    case (Inl err)
    with assms(1) g sh show ?thesis by (auto simp: DeleteFileRecord_def intro: removed_Inl)
  next
    case (Inr f)
    with same have f: "f \<in> set (frows w1)" "uf_ID f = k" by auto
    have t1: "tree_shaped (frows w1)" using same assms(3) by simp
    show ?thesis
    proof (cases "uf_IsDir f")
      case True
      with assms(1) g Inr obtain z w2 where d: "deleteFolderRecursively e n (uf_ID f) w1 = Some (z, w2)"
        by (auto simp: DeleteFileRecord_def split: option.splits)
      note r2 = delete_tree(1) [OF d s1 t1]
      show ?thesis
      proof (cases z)
        case (Inl err)
        with assms(1) g \<open>y = Inr f\<close> True d r2 show ?thesis
          by (intro via) (auto simp: DeleteFileRecord_def removed_def)
      next
        case (Inr b)
        obtain v w3 where dl: "delete_file_unscoped e (uf_ID f) w2 = (v, w3)" by fastforce
        note r3 = delete_dir_removed [OF r2 [unfolded Inr] dl s1 f(1) True t1]
        have "removed x e w1 (subtree (frows w1) (uf_ID f)) r w'"
          by (rule removed_result [OF r3, of u f b])
            (use assms(1) g \<open>y = Inr f\<close> True d Inr dl f(2) in \<open>simp add: DeleteFileRecord_def\<close>)
        with via same f(2) show ?thesis by simp
      qed
    next
      case False
      obtain v w3 where dl: "delete_leaf e f w1 = (v, w3)" by fastforce
      note r3 = delete_leaf_removed [OF dl s1 f(1) t1]
      have "removed x e w1 (subtree (frows w1) (uf_ID f)) r w'"
        by (rule removed_result [OF r3, of u f "uf_Size f"])
          (use assms(1) g Inr False dl f(2) in \<open>simp add: DeleteFileRecord_def\<close>)
      with via same f(2) show ?thesis by simp
    qed
  qed
qed

section \<open>Termination\<close>

lemma height_after:
  "removed x e w S (Inr a) w1 \<Longrightarrow> height (frows w1) k \<le> height (frows w) k"
  by (rule height_mono) (auto simp: removed_def)

lemma delete_ends:
  "height (frows w) k < n \<Longrightarrow> sound x e w \<Longrightarrow> tree_shaped (frows w)
    \<Longrightarrow> deleteFolderRecursively e n k w \<noteq> None"
  "\<forall>c\<in>set cs. height (frows w) (uf_ID c) < n \<Longrightarrow> sound x e w \<Longrightarrow> tree_shaped (frows w)
    \<Longrightarrow> set cs \<subseteq> {f \<in> set (frows w). uf_ParentID f = Some p} \<Longrightarrow> distinct cs
    \<Longrightarrow> delete_children e n cs b w \<noteq> None"
proof (induction e n k w and e n cs b w arbitrary: and p
    rule: deleteFolderRecursively_delete_children.induct)
  case (1 e k w)
  then show ?case by simp
next
  case (2 e n k w)
  obtain y w1 where q: "find_files_unscoped e (\<lambda>r. uf_ParentID r = Some k) w = (y, w1)" by fastforce
  note fc = find_children [OF q 2(3)]
  show ?case
  proof (cases y)
    case (Inl err)
    with q show ?thesis by simp
  next
    case (Inr cs)
    with fc have cs: "cs = filter (\<lambda>r. uf_ParentID r = Some k) (frows w)" by simp
    have "height (frows w1) (uf_ID c) < n" if "c \<in> set cs" for c
      using that cs fc 2(2) height_child [OF 2(4) upI, of c k] by auto
    moreover have "distinct cs" using 2(4) unfolding cs tree_shaped_def
      by (metis distinct_filter distinct_map)
    moreover have "set cs \<subseteq> {f \<in> set (frows w1). uf_ParentID f = Some k}" using cs fc by auto
    moreover have "sound x e w1" "tree_shaped (frows w1)" using fc 2(4) shrunk_sound by auto
    ultimately have "delete_children e n cs 0 w1 \<noteq> None" using 2(1) [OF q [symmetric] Inr] by blast
    with q Inr show ?thesis by simp
  qed
next
  case (3 e n b w)
  then show ?case by simp
next
  case (4 e n c cs b w)
  from 4(7) have c: "c \<in> set (frows w)" by simp
  show ?case
  proof (cases "uf_IsDir c")
    case True
    from 4(1) [OF True] 4(4-6) obtain y w1
      where d: "deleteFolderRecursively e n (uf_ID c) w = Some (y, w1)" by auto
    show ?thesis
    proof (cases y)
      case (Inl err)
      with True d show ?thesis by simp
    next
      case (Inr cb)
      note r1 = delete_tree(1) [OF d 4(5,6), unfolded Inr]
      obtain z w2 where dl: "delete_file_unscoped e (uf_ID c) w1 = (z, w2)" by fastforce
      show ?thesis
      proof (cases z)
        case (Inl err)
        with True d \<open>y = Inr cb\<close> dl show ?thesis by simp
      next
        case (Inr u)
        note r3 = delete_dir_removed [OF r1 dl 4(5) c True 4(6), unfolded Inr]
        have "\<forall>d\<in>set cs. height (frows w2) (uf_ID d) < n"
          using 4(4) height_after [OF r3] by (auto intro: le_less_trans)
        with 4(2) [OF True d refl \<open>y = Inr cb\<close> dl [symmetric] Inr] removed_head [OF r3 4(6-8)]
        have "delete_children e n cs (wrap64 (b + cb)) w2 \<noteq> None" by blast
        with True d \<open>y = Inr cb\<close> dl Inr show ?thesis by simp
      qed
    qed
  next
    case False
    obtain z w2 where dl: "delete_leaf e c w = (z, w2)" by fastforce
    show ?thesis
    proof (cases z)
      case (Inl err)
      with False dl show ?thesis by simp
    next
      case (Inr u)
      note r3 = delete_leaf_removed [OF dl 4(5) c 4(6), unfolded Inr]
      have "\<forall>d\<in>set cs. height (frows w2) (uf_ID d) < n"
        using 4(4) height_after [OF r3] by (auto intro: le_less_trans)
      with 4(3) [OF False dl [symmetric] Inr] removed_head [OF r3 4(6-8)]
      have "delete_children e n cs (wrap64 (b + uf_Size c)) w2 \<noteq> None" by blast
      with False dl Inr show ?thesis by simp
    qed
  qed
qed

section \<open>The properties of permanent deletion\<close>

text \<open>Permanent deletion ends: on a tree of files, fuel of one more than the number of rows is
  enough for the recursion over the folder, whatever requests fail.\<close>
theorem DeleteFileRecord_ends:
  assumes "sound False e w" and "tree_shaped (frows w)" and "length (frows w) < n"
  shows "\<exists>r w'. DeleteFileRecord e n u k w = Some (r, w')"
proof -
  obtain y w1 where g: "GetDeletedFile e u k w = (y, w1)" by fastforce
  note same = GetDeletedFile_same [OF g]
  have "sound False e w1" using assms(1) same by (simp add: sound_def)
  moreover have "height (frows w1) j < n" for j
    using assms(3) height_le_length [of "frows w1" j] same by simp
  ultimately have "deleteFolderRecursively e n j w1 \<noteq> None" for j
    using delete_ends(1) assms(2) same by metis
  then have ends: "\<exists>z w2. deleteFolderRecursively e n j w1 = Some (z, w2)" for j by auto
  show ?thesis
  proof (cases y)
    case (Inl err)
    with g show ?thesis by (simp add: DeleteFileRecord_def)
  next
    case (Inr f)
    from ends [of "uf_ID f"] obtain z w2 where
      "deleteFolderRecursively e n (uf_ID f) w1 = Some (z, w2)" by blast
    with g Inr show ?thesis
      by (auto simp: DeleteFileRecord_def split: sum.splits prod.splits)
  qed
qed

text \<open>C24: a permanent deletion that succeeds removes the recycled file or folder and every row
  below it, whoever owns it and whether it is in the recycle bin or not, and no other row.\<close>
theorem DeleteFileRecord_removes:
  assumes "sound False e w" and "tree_shaped (frows w)"
    and "DeleteFileRecord e n u k w = Some (Inr (), w')"
  shows "frows w' = filter (\<lambda>f. uf_ID f \<noteq> k \<and> uf_ID f \<notin> below (frows w) k) (frows w)
    \<and> (\<exists>f\<in>set (frows w). uf_ID f = k \<and> uf_UserID f = u \<and> uf_IsDeleted f)"
proof -
  obtain y w1 where g: "GetDeletedFile e u k w = (y, w1)" by fastforce
  with assms(3) obtain f where "y = Inr f" by (cases y) (auto simp: DeleteFileRecord_def)
  with GetDeletedFile_same [OF g] have "\<exists>f\<in>set (frows w). uf_ID f = k \<and> uf_UserID f = u \<and> uf_IsDeleted f"
    by auto
  with DeleteFileRecord_removed [OF assms(3,1,2)] show ?thesis
    by (auto simp: removed_def subtree_def intro: filter_cong)
qed


text \<open>C23: without faults permanent deletion keeps the counts exact: after it, as before, every
  object's count is the number of files that reference it, and no object is left without one.\<close>
theorem DeleteFileRecord_exact:
  assumes "sound True e w" and "tree_shaped (frows w)"
    and "DeleteFileRecord e n u k w = Some (r, w')"
  shows "ref_exact (db w')"
  using DeleteFileRecord_removed [OF assms(3,1,2)]
  by (auto simp: removed_def shrunk_def sound_def ref_exact_rel)

section \<open>A small tree, for the witnesses\<close>

definition user1 :: user where
  "user1 = \<lparr>u_ID = 1, u_UserName = ''ann'', u_Password = ''p'', u_Email = ''a'', u_NickName = '''',
     u_AvatarURL = '''', u_Bio = '''', u_IsActive = True, u_TotalSpace = 0, u_UseSpace = 0,
     u_CreatedAt = 0, u_DeletedAt = None\<rparr>"

definition object1 :: file_object where
  "object1 = \<lparr>fo_ID = 1, fo_UserID = 1, fo_Hash = ''h'', fo_BucketName = ''netdisk'',
     fo_ObjectName = ''files/ann/h'', fo_Size = 3, fo_RefCount = 2, fo_CreatedAt = 0\<rparr>"

definition folder1 :: user_file where
  "folder1 = (new_file 1 None ''d'' True None 0)\<lparr>uf_ID := 1, uf_IsDeleted := True, uf_DeletedAt := Some 0\<rparr>"

definition file2 :: user_file where
  "file2 = (new_file 1 (Some 1) ''a'' False (Some 1) 3)\<lparr>uf_ID := 2\<rparr>"

definition file3 :: user_file where
  "file3 = (new_file 1 None ''b'' False (Some 1) 3)\<lparr>uf_ID := 3\<rparr>"

text \<open>A recycled folder 1 holding file 2, and file 3 in the root; both files share object 1.\<close>

definition world1 :: world where
  "world1 = world0\<lparr>db := empty_db\<lparr>users := \<lparr>rows = [user1], next_key = 2\<rparr>,
       objects := \<lparr>rows = [object1], next_key = 2\<rparr>,
       files := \<lparr>rows = [folder1, file2, file3], next_key = 4\<rparr>\<rparr>,
     store := [((''netdisk'', ''files/ann/h''), ''abc'')]\<rparr>"

lemmas world1_defs = world1_def user1_def object1_def folder1_def file2_def file3_def new_file_def
  empty_db_def empty_table_def

lemmas keys_wf_defs = keys_wf_def uft.keys_ok_def fot.keys_ok_def ust.keys_ok_def fct.keys_ok_def
  fst_t.keys_ok_def dtt.keys_ok_def adt.keys_ok_def

lemma world1_sound: "sound True env0 world1"
  by (simp add: sound_def db_wf_def keys_wf_defs db_valid_defs ref_rel_def refs_def paths_distinct_def
      has_key_def world1_defs)

lemma acyclic_by_key:
  assumes "\<And>f p. f \<in> set fs \<Longrightarrow> uf_ParentID f = Some p \<Longrightarrow> p < uf_ID f"
  shows "acyclic (up fs)"
proof -
  have "up fs \<subseteq> {(x, y). y < x}" using assms by (auto simp: up_def)
  moreover have "acyclic {(x, y). (y :: nat) < x}"
    using acyclic_converse [of "{(x, y). (x :: nat) < y}"] wf_acyclic [OF wf_less]
    by (simp add: converse_unfold)
  ultimately show ?thesis by (rule acyclic_subset [rotated])
qed

lemma world1_tree: "tree_shaped (frows world1)"
proof -
  have "acyclic (up (frows world1))" by (rule acyclic_by_key) (auto simp: world1_defs)
  then show ?thesis by (simp add: tree_shaped_def) (simp add: world1_defs)
qed

lemma sound_weaken: "sound x e w \<Longrightarrow> sound False e w"
  by (auto simp: sound_def intro: ref_rel_weaken)

definition deleted1 :: world where
  "deleted1 = snd (the (DeleteFileRecord env0 9 1 1 world1))"

lemma delete_world1_ok:
  "case DeleteFileRecord env0 9 1 1 world1 of Some (Inr _, _) \<Rightarrow> True | _ \<Rightarrow> False"
  by code_simp

lemma delete_world1: "DeleteFileRecord env0 9 1 1 world1 = Some (Inr (), deleted1)"
  using delete_world1_ok unfolding deleted1_def
  by (auto split: option.splits sum.splits)

lemma deleted1_ids: "map uf_ID (frows deleted1) = [3]"
  unfolding deleted1_def by code_simp

lemma DeleteFileRecord_ends_witness:
  "\<exists>r w'. DeleteFileRecord env0 9 1 1 world1 = Some (r, w')"
  by (rule DeleteFileRecord_ends [OF sound_weaken [OF world1_sound] world1_tree])
     (simp add: world1_defs)

lemma DeleteFileRecord_removes_witness:
  "frows deleted1 = filter (\<lambda>f. uf_ID f \<noteq> 1 \<and> uf_ID f \<notin> below (frows world1) 1) (frows world1)"
  using DeleteFileRecord_removes [OF sound_weaken [OF world1_sound] world1_tree delete_world1] by blast

lemma deleted1_file: "\<exists>f\<in>set (frows deleted1). uf_ObjectID f = Some 1"
proof -
  have "list_ex (\<lambda>f. uf_ObjectID f = Some 1) (frows deleted1)"
    unfolding deleted1_def by code_simp
  then show ?thesis by (simp add: list_ex_iff)
qed


lemma DeleteFileRecord_exact_witness: "ref_exact (db deleted1)"
  by (rule DeleteFileRecord_exact [OF world1_sound world1_tree delete_world1])

end
