(* ===== verification/FileOps.thy ===== *)
theory FileOps
  imports FileTree
begin

text \<open>
  Properties of the operations on the file tree other than deletion: the recycle bin, renaming
  and moving. Moving keeps the files a tree as long as the target's ancestors are live rows of
  the user; the walk that guards it does not see recycled rows.
\<close>

section \<open>Frames\<close>

lemma first_file_same:
  assumes "first_file e p w = (r, w')"
  shows "db w' = db w \<and> store w' = store w
    \<and> (\<forall>f. r = Inr f \<longrightarrow> f \<in> set (frows w) \<and> uf_live f \<and> p f)
    \<and> (r = Inl RecordNotFound \<longrightarrow> (\<forall>f\<in>set (frows w). uf_live f \<longrightarrow> \<not> p f))"
  using query_rowD [OF assms [unfolded first_file_def]]
  by (auto dest: first_row_SomeD simp: first_row_None)

lemma first_file_unscoped_same:
  assumes "first_file_unscoped e p w = (r, w')"
  shows "db w' = db w \<and> store w' = store w \<and> (\<forall>f. r = Inr f \<longrightarrow> f \<in> set (frows w) \<and> p f)"
  using query_rowD [OF assms [unfolded first_file_unscoped_def]]
  by (auto dest: first_row_SomeD)

lemma count_files_same:
  assumes "count_files e p w = (r, w')"
  shows "db w' = db w \<and> store w' = store w
    \<and> (\<forall>n. r = Inr n \<longrightarrow> n = length (filter (\<lambda>f. uf_live f \<and> p f) (frows w)))"
  using queryD [OF assms [unfolded count_files_def]] by auto

lemma find_files_same:
  assumes "find_files e p w = (r, w')"
  shows "db w' = db w \<and> store w' = store w
    \<and> (\<forall>fs. r = Inr fs \<longrightarrow> fs = filter (\<lambda>f. uf_live f \<and> p f) (frows w))"
  using queryD [OF assms [unfolded find_files_def]] by auto

lemma getFileParentID_same:
  "getFileParentID e u k w = (r, w') \<Longrightarrow> db w' = db w \<and> store w' = store w"
  unfolding getFileParentID_def by (elim seqE) (auto dest: first_file_unscoped_same)

lemma invalidateParents_core [simp]: "core (invalidateParents e u fs w) = core w"
proof -
  have "core (fold (\<lambda>p. invalidateFileListCache e u (Some p)) ps w) = core w" for ps
    by (induction ps arbitrary: w) (simp_all del: core_eq)
  then show ?thesis by (simp add: invalidateParents_def del: core_eq)
qed

lemmas invalidateParents_frame [simp] = invalidateParents_core [unfolded core_eq]

lemma check_target_same:
  assumes "check_target e u t w = (r, w')"
  shows "db w' = db w \<and> store w' = store w \<and> (\<forall>x. r = Inr x \<longrightarrow> isRoot t
    \<or> (\<exists>f\<in>set (frows w). uf_live f \<and> isLiveDir (the t) u f))"
  using assms unfolding check_target_def
  by (auto split: if_splits prod.splits sum.splits dest!: first_file_same)

lemma check_names_same: "check_names e u t fs w = (r, w') \<Longrightarrow> db w' = db w \<and> store w' = store w"
  by (induction fs arbitrary: w)
     (auto elim!: seqE if_eqE dest!: count_files_same)

lemma walk_up_same: "walk_up e n u p cur w = Some (b, w') \<Longrightarrow> db w' = db w \<and> store w' = store w"
  by (induction n arbitrary: cur w)
     (auto split: option.splits if_splits prod.splits sum.splits dest!: first_file_same)

lemma isChildFolder_same:
  "isChildFolder e n u k p w = Some (b, w') \<Longrightarrow> db w' = db w \<and> store w' = store w"
  unfolding isChildFolder_def
  by (auto split: prod.splits sum.splits dest!: first_file_same walk_up_same)

lemma check_moves_same:
  "check_moves e n u t ks w = Some (r, w') \<Longrightarrow> db w' = db w \<and> store w' = store w"
  by (induction ks arbitrary: w)
     (auto split: if_splits option.splits prod.splits bool.splits dest!: isChildFolder_same)

section \<open>What an update of file rows does\<close>

text \<open>The rows that match change by \<open>f\<close> and carry the time of the update.\<close>

definition changed :: "env \<Rightarrow> (user_file \<Rightarrow> bool) \<Rightarrow> (user_file \<Rightarrow> user_file) \<Rightarrow> world \<Rightarrow> world \<Rightarrow> bool" where
  "changed e p f w w' \<longleftrightarrow> (\<exists>t. frows w' = update_where p (\<lambda>r. (f r)\<lparr>uf_UpdatedAt := t\<rparr>) (frows w))
     \<and> objects (db w') = objects (db w) \<and> store w' = store w \<and> db_valid (collate e) (db w')"

lemma update_files_unscoped_changed:
  assumes "update_files_unscoped e p f w = (Inr u, w')"
  shows "changed e p f w w'"
  using update_files_unscoped_InrD [OF assms] update_files_unscoped_frame [OF assms]
  by (auto simp: changed_def update_rows_def)

lemma update_files_changed:
  "update_files e p f w = (Inr u, w') \<Longrightarrow> changed e (\<lambda>r. uf_live r \<and> p r) f w w'"
  unfolding update_files_def by (rule update_files_unscoped_changed)

lemma changed_cong:
  "changed e p f w1 w2 \<Longrightarrow> db w1 = db w \<and> store w1 = store w \<Longrightarrow> db w' = db w2 \<and> store w' = store w2
    \<Longrightarrow> changed e p f w w'"
  unfolding changed_def by simp

lemma MoveToRecycle_changed:
  assumes "MoveToRecycle e u k w = (Inr x, w')"
  shows "\<exists>now. changed e (\<lambda>r. uf_live r \<and> uf_ID r = k \<and> uf_UserID r = u \<and> \<not> uf_IsDeleted r)
    (recycled now) w w'"
  using assms unfolding MoveToRecycle_def timeNow_def Let_def prod.case
  by (elim seqE) (auto dest!: getFileParentID_same update_files_changed
      intro!: exI [of _ "clock e (reads w)"] intro: changed_cong)

lemma RestoreFile_changed:
  assumes "RestoreFile e u k w = (Inr x, w')"
  shows "changed e (\<lambda>r. uf_ID r = k \<and> uf_UserID r = u \<and> uf_IsDeleted r)
    (\<lambda>r. r\<lparr>uf_IsDeleted := False, uf_DeletedAt := None\<rparr>) w w'"
  using assms unfolding RestoreFile_def
  by (elim seqE) (auto dest!: getFileParentID_same update_files_unscoped_changed intro: changed_cong)

lemma BatchMoveToRecycle_changed:
  assumes "BatchMoveToRecycle e u ks w = (Inr x, w')"
  shows "\<exists>now. changed e (\<lambda>r. uf_live r \<and> uf_ID r \<in> set ks \<and> uf_UserID r = u \<and> \<not> uf_IsDeleted r)
    (recycled now) w w'"
  using assms unfolding BatchMoveToRecycle_def timeNow_def Let_def prod.case
  by (elim seqE) (auto dest!: find_files_same update_files_changed
      intro!: exI [of _ "clock e (reads w)"] intro: changed_cong)

lemma RenameFile_changed:
  assumes "RenameFile e u k nm w = (Inr x, w')"
  shows "\<exists>f\<in>set (frows w). uf_ID f = k \<and> uf_UserID f = u \<and> uf_live f \<and> \<not> uf_IsDeleted f
    \<and> changed e (\<lambda>r. uf_live r \<and> uf_ID r = k) (\<lambda>r. r\<lparr>uf_Name := nm\<rparr>) w w'"
proof -
  from assms obtain f w1 where f: "first_file e (\<lambda>r. uf_ID r = k \<and> uf_UserID r = u \<and> \<not> uf_IsDeleted r) w
      = (Inr f, w1)" unfolding RenameFile_def by (auto split: prod.splits sum.splits)
  with assms have "changed e (\<lambda>r. uf_live r \<and> uf_ID r = uf_ID f) (\<lambda>r. r\<lparr>uf_Name := nm\<rparr>) w w'"
    unfolding RenameFile_def
    by (auto elim!: seqE if_eqE dest!: first_file_same count_files_same update_files_changed(1)
        intro: changed_cong)
  with first_file_same [OF f] show ?thesis by auto
qed

lemma move_rows_changed:
  assumes "move_rows e u ks t w = (Inr x, w')"
  shows "changed e (\<lambda>r. uf_live r \<and> uf_ID r \<in> set ks \<and> uf_UserID r = u \<and> \<not> uf_IsDeleted r)
    (\<lambda>r. r\<lparr>uf_ParentID := t\<rparr>) w w'"
  using assms unfolding move_rows_def Let_def
  by (elim seqE if_eqE)
     (auto dest!: find_files_same check_names_same update_files_changed intro: changed_cong)

section \<open>Other users' files\<close>

definition others :: "nat \<Rightarrow> world \<Rightarrow> user_file list" where
  "others u w = filter (\<lambda>f. uf_UserID f \<noteq> u) (frows w)"

lemma changed_others:
  assumes "changed e p f w w'" and "\<And>r. uf_UserID (f r) = uf_UserID r"
    and "\<And>r. r \<in> set (frows w) \<Longrightarrow> p r \<Longrightarrow> uf_UserID r = u"
  shows "others u w' = others u w"
proof -
  have "filter (\<lambda>r. uf_UserID r \<noteq> u) (update_where p g rs) = filter (\<lambda>r. uf_UserID r \<noteq> u) rs"
    if "\<And>r. uf_UserID (g r) = uf_UserID r" "\<And>r. r \<in> set rs \<Longrightarrow> p r \<Longrightarrow> uf_UserID r = u" for g rs
    using that by (induction rs) auto
  from this [of "\<lambda>r. (f r)\<lparr>uf_UpdatedAt := t\<rparr>" "frows w" for t] assms show ?thesis
    unfolding changed_def others_def by auto
qed

lemma others_db: "db w' = db w \<Longrightarrow> others u w' = others u w"
  by (simp add: others_def)

lemma create_others:
  "create_file e (new_file u p nm d ob sz) w = (r, w') \<Longrightarrow> others u w' = others u w"
  by (cases r) (auto dest!: create_file_InlD create_file_InrD
      simp: others_def insert_row_def new_file_def)

lemma MoveToRecycle_Inl: "MoveToRecycle e u k w = (Inl err, w') \<Longrightarrow> db w' = db w"
  unfolding MoveToRecycle_def timeNow_def Let_def prod.case
  by (elim stepE) (auto dest!: getFileParentID_same update_files_InlD)

lemma RestoreFile_Inl: "RestoreFile e u k w = (Inl err, w') \<Longrightarrow> db w' = db w"
  unfolding RestoreFile_def
  by (elim stepE) (auto dest!: getFileParentID_same update_files_unscoped_InlD)

lemma BatchMoveToRecycle_Inl: "BatchMoveToRecycle e u ks w = (Inl err, w') \<Longrightarrow> db w' = db w"
  unfolding BatchMoveToRecycle_def timeNow_def Let_def prod.case
  by (elim stepE; ((drule find_files_same update_files_InlD)+)?; simp)

lemma move_rows_Inl: "move_rows e u ks t w = (Inl err, w') \<Longrightarrow> db w' = db w"
  unfolding move_rows_def Let_def
  by (elim stepE if_eqE; ((drule find_files_same check_names_same update_files_InlD)+)?; simp)

lemma RenameFile_Inl: "RenameFile e u k nm w = (Inl err, w') \<Longrightarrow> db w' = db w"
  unfolding RenameFile_def
  by (elim stepE if_eqE) (auto dest!: first_file_same count_files_same update_files_InlD)

lemma MoveFiles_result:
  assumes "MoveFiles e n u ks t w = Some (r, w')"
  shows "(\<exists>err. r = Inl err \<and> db w' = db w) \<or>
    (\<exists>x w1. r = Inr x \<and> db w1 = db w \<and> store w1 = store w \<and> move_rows e u ks t w1 = (Inr x, w')
       \<and> (isRoot t \<or> (\<exists>w0 y. db w0 = db w \<and> check_moves e n u (the t) ks w0 = Some (Inr y, w1)
           \<and> (\<exists>f\<in>set (frows w). uf_live f \<and> isLiveDir (the t) u f))))"
proof -
  obtain y w0 where c: "check_target e u t w = (y, w0)" by fastforce
  note same = check_target_same [OF c]
  show ?thesis
  proof (cases y)
    case (Inl err)
    with assms c same show ?thesis by (auto simp: MoveFiles_def)
  next
    case (Inr x)
    with assms c obtain z w1 where m: "(if isRoot t then Some (Inr (), w0)
        else check_moves e n u (the t) ks w0) = Some (z, w1)"
      by (auto simp: MoveFiles_def split: option.splits if_splits)
    then have same1: "db w1 = db w \<and> store w1 = store w"
      using same by (auto split: if_splits dest!: check_moves_same)
    show ?thesis
    proof (cases z)
      case (Inl err)
      with assms c \<open>y = Inr x\<close> m same1 show ?thesis by (auto simp: MoveFiles_def)
    next
      case (Inr v)
      with assms c \<open>y = Inr x\<close> m have "move_rows e u ks t w1 = (r, w')" by (simp add: MoveFiles_def)
      with same1 same m Inr \<open>y = Inr x\<close> show ?thesis
        by (cases r) (auto split: if_splits dest: move_rows_Inl)
    qed
  qed
qed

lemma MoveFiles_others:
  assumes "MoveFiles e n u ks t w = Some (r, w')"
  shows "others u w' = others u w"
proof -
  from MoveFiles_result [OF assms]
  consider "db w' = db w" | x w1 where "db w1 = db w" "move_rows e u ks t w1 = (Inr x, w')" by blast
  then show ?thesis
  proof cases
    case 2
    from changed_others [OF move_rows_changed [OF 2(2)], of u] have "others u w' = others u w1" by simp
    with others_db [OF 2(1)] show ?thesis by simp
  qed (rule others_db)
qed

lemma CreateFolder_others:
  assumes "CreateFolder e u p nm w = (r, w')"
  shows "others u w' = others u w"
proof -
  obtain x w1 where a: "(if isRoot p then (Inr (), w) else (case first_file e (isLiveDir (the p) u) w of
      (Inl _, w) \<Rightarrow> (Inl (Errorf ''parent folder not found''), w) | (Inr _, w) \<Rightarrow> (Inr (), w))) = (x, w1)" by fastforce
  have d1: "db w1 = db w"
  proof (cases "isRoot p")
    case False
    obtain y w0 where f: "first_file e (isLiveDir (the p) u) w = (y, w0)" by fastforce
    with a False have "w1 = w0" by (cases y) auto
    with first_file_same [OF f] show ?thesis by simp
  qed (use a in simp)
  obtain y w2 where c: "count_files e (\<lambda>r. uf_UserID r = u \<and> collate e (uf_Name r) = collate e nm
      \<and> uf_IsDir r \<and> \<not> uf_IsDeleted r \<and> inFolder p r) w1 = (y, w2)" by fastforce
  have "db w2 = db w1" using count_files_same [OF c] by simp
  with d1 have o2: "others u w1 = others u w" "others u w2 = others u w" by (simp_all add: others_def)
  obtain z w3 where k: "create_file e (new_file u p nm True None 0) w2 = (z, w3)" by fastforce
  have o3: "others u w3 = others u w" "others u (invalidateFileListCache e u p w3) = others u w"
    using create_others [OF k] o2 by (simp_all add: others_def)
  from assms show ?thesis
    unfolding CreateFolder_def a using c k o2 o3 by (cases x; cases y; cases z) (auto split: if_splits)
qed

section \<open>The recycle bin\<close>

lemma changed_rows:
  "changed e p f w w' \<Longrightarrow> \<exists>t. frows w' = update_where p (\<lambda>r. (f r)\<lparr>uf_UpdatedAt := t\<rparr>) (frows w)"
  by (auto simp: changed_def)

lemma hidden_file:
  assumes "\<And>g. g \<in> set (frows w) \<Longrightarrow> uf_ID g = k \<Longrightarrow> \<not> uf_live g"
  shows "fst (GetUserFileById e k w) \<noteq> Inr g \<and> \<not> fst (CheckFileOwner e v k w)
    \<and> fst (RenameFile e v k nm w) \<noteq> Inr x"
proof -
  have f: "fst (first_file e (\<lambda>r. uf_ID r = k \<and> p r) w) \<noteq> Inr g" for p g
  proof
    assume a: "fst (first_file e (\<lambda>r. uf_ID r = k \<and> p r) w) = Inr g"
    then obtain w1 where "first_file e (\<lambda>r. uf_ID r = k \<and> p r) w = (Inr g, w1)" by (metis prod.collapse)
    from first_file_same [OF this] have "g \<in> set (frows w)" "uf_live g" "uf_ID g = k" by simp_all
    with assms show False by blast
  qed
  have c: "n = 0" if "count_files e (\<lambda>r. uf_ID r = k \<and> p r) w = (Inr n, w1)" for p n w1
    using count_files_same [OF that] assms by (auto simp: filter_empty_conv)
  have "fst (RenameFile e v k nm w) \<noteq> Inr x"
  proof
    assume "fst (RenameFile e v k nm w) = Inr x"
    then obtain w' where "RenameFile e v k nm w = (Inr x, w')" by (metis prod.collapse)
    from RenameFile_changed [OF this] assms show False by blast
  qed
  with f c show ?thesis
    by (auto simp: GetUserFileById_def CheckFileOwner_def split: prod.splits sum.splits)
qed

text \<open>C10: a file moved to the recycle bin is out of sight (it is not found by its id, owned by
  nobody, and cannot be renamed), and restoring it gives back every column of every row, except
  the time of the last update of the file itself.\<close>
theorem recycle_roundtrip:
  assumes "db_wf (collate e) (db w)" and "f \<in> set (frows w)" and "uf_ID f = k" and "uf_UserID f = u"
    and "uf_live f" and "\<not> uf_IsDeleted f"
    and "MoveToRecycle e u k w = (Inr x, w1)" and "RestoreFile e u k w1 = (Inr y, w2)"
  shows "(\<exists>t. frows w2 = update_where (\<lambda>r. uf_ID r = k) (\<lambda>r. r\<lparr>uf_UpdatedAt := t\<rparr>) (frows w))
    \<and> fst (GetUserFileById e k w1) \<noteq> Inr g \<and> \<not> fst (CheckFileOwner e v k w1)
    \<and> fst (RenameFile e v k nm w1) \<noteq> Inr z"
proof -
  have same: "g = f" if "g \<in> set (frows w)" "uf_ID g = k" for g
    using db_wf_file_key [OF assms(1)] that assms(2,3) by metis
  from changed_rows MoveToRecycle_changed [OF assms(7)] obtain now t1 where
    r1: "frows w1 = update_where (\<lambda>r. uf_live r \<and> uf_ID r = k \<and> uf_UserID r = u \<and> \<not> uf_IsDeleted r)
      (\<lambda>r. (recycled now r)\<lparr>uf_UpdatedAt := t1\<rparr>) (frows w)" by meson
  also have "\<dots> = update_where (\<lambda>r. uf_ID r = k) (\<lambda>r. (recycled now r)\<lparr>uf_UpdatedAt := t1\<rparr>) (frows w)"
    using same assms(4-6) by (intro update_where_cong) blast
  finally have r1: "frows w1 = \<dots>" .
  from changed_rows [OF RestoreFile_changed [OF assms(8)]] obtain t2 where
    r2: "frows w2 = update_where (\<lambda>r. uf_ID r = k \<and> uf_UserID r = u \<and> uf_IsDeleted r)
      (\<lambda>r. r\<lparr>uf_IsDeleted := False, uf_DeletedAt := None, uf_UpdatedAt := t2\<rparr>) (frows w1)" by auto
  have "frows w2 = update_where (\<lambda>r. uf_ID r = k) (\<lambda>r. r\<lparr>uf_UpdatedAt := t2\<rparr>) (frows w)"
    unfolding r2 r1 list.map_comp
  proof (rule map_cong [OF refl])
    fix g assume g: "g \<in> set (frows w)"
    have "uf_ID g = k \<Longrightarrow> uf_UserID g = u \<and> uf_live g \<and> \<not> uf_IsDeleted g"
      using same [OF g] assms(4-6) by simp
    then show "((\<lambda>r. if uf_ID r = k \<and> uf_UserID r = u \<and> uf_IsDeleted r
        then r\<lparr>uf_IsDeleted := False, uf_DeletedAt := None, uf_UpdatedAt := t2\<rparr> else r) \<circ>
      (\<lambda>r. if uf_ID r = k then recycled now r\<lparr>uf_UpdatedAt := t1\<rparr> else r)) g =
      (if uf_ID g = k then g\<lparr>uf_UpdatedAt := t2\<rparr> else g)"
      by (cases g) (auto simp: recycled_def)
  qed
  moreover have gone: "\<not> uf_live h" if "h \<in> set (frows w1)" "uf_ID h = k" for h
  proof -
    from that(1) obtain r where "h = (if uf_ID r = k then (recycled now r)\<lparr>uf_UpdatedAt := t1\<rparr> else r)"
      unfolding r1 set_map by blast
    with that(2) show ?thesis by (cases "uf_ID r = k") (simp_all add: recycled_def)
  qed
  have "fst (GetUserFileById e k w1) \<noteq> Inr g \<and> \<not> fst (CheckFileOwner e v k w1)
    \<and> fst (RenameFile e v k nm w1) \<noteq> Inr z"
    by (rule hidden_file) (rule gone)
  ultimately show ?thesis by blast
qed

section \<open>Renaming\<close>

text \<open>A rename that succeeds changes the name of the one row of the user with that id and, in a
  folder other than the root, leaves no other file of the folder in sight under that name.\<close>
theorem RenameFile_effect:
  assumes "db_wf (collate e) (db w)" and "RenameFile e u k nm w = (Inr x, w')"
  shows "(\<exists>t. frows w' = update_where (\<lambda>r. uf_ID r = k)
      (\<lambda>r. r\<lparr>uf_Name := nm, uf_UpdatedAt := t\<rparr>) (frows w))
    \<and> (\<exists>f\<in>set (frows w). uf_ID f = k \<and> uf_UserID f = u \<and> uf_live f \<and> \<not> uf_IsDeleted f \<and>
        (\<forall>g\<in>set (frows w'). uf_ID g \<noteq> k \<and> uf_UserID g = u \<and> uf_ParentID g = uf_ParentID f
          \<and> uf_ParentID g \<noteq> None \<and> \<not> uf_IsDeleted g \<longrightarrow> collate e (uf_Name g) \<noteq> collate e nm))"
proof -
  from RenameFile_changed [OF assms(2)] obtain f where f: "f \<in> set (frows w)" "uf_ID f = k"
    "uf_UserID f = u" "uf_live f" "\<not> uf_IsDeleted f"
    and c: "changed e (\<lambda>r. uf_live r \<and> uf_ID r = k) (\<lambda>r. r\<lparr>uf_Name := nm\<rparr>) w w'" by auto
  have same: "g = f" if "g \<in> set (frows w)" "uf_ID g = k" for g
    using db_wf_file_key [OF assms(1)] that f(1,2) by metis
  from c obtain t where t: "frows w' = update_where (\<lambda>r. uf_live r \<and> uf_ID r = k)
      (\<lambda>r. r\<lparr>uf_Name := nm, uf_UpdatedAt := t\<rparr>) (frows w)"
    and v: "db_valid (collate e) (db w')" by (auto simp: changed_def)
  have t': "frows w' = update_where (\<lambda>r. uf_ID r = k)
      (\<lambda>r. r\<lparr>uf_Name := nm, uf_UpdatedAt := t\<rparr>) (frows w)"
    unfolding t using same f(4) by (intro update_where_cong) blast
  let ?f = "f\<lparr>uf_Name := nm, uf_UpdatedAt := t\<rparr>"
  have f': "?f \<in> set (frows w')" using f(1,2) by (auto simp: t' image_iff)
  let ?key = "\<lambda>r. (uf_UserID r, uf_ParentID r, collate e (uf_Name r), uf_IsDeleted r)"
  from v have d: "distinct (map ?key (filter (\<lambda>r. uf_ParentID r \<noteq> None) (frows w')))"
    by (simp add: db_valid_def user_file_unique_def)
  have "collate e (uf_Name g) \<noteq> collate e nm" if "g \<in> set (frows w')" "uf_ID g \<noteq> k" "uf_UserID g = u"
    "uf_ParentID g = uf_ParentID f" "uf_ParentID g \<noteq> None" "\<not> uf_IsDeleted g" for g
  proof
    assume "collate e (uf_Name g) = collate e nm"
    then have "?key g = ?key ?f" using that f by simp
    moreover have "g \<in> set (filter (\<lambda>r. uf_ParentID r \<noteq> None) (frows w'))"
      "?f \<in> set (filter (\<lambda>r. uf_ParentID r \<noteq> None) (frows w'))" using that f' by auto
    ultimately have "g = ?f" by (rule distinct_map_eq [OF d, rotated 2])
    with that(2) f(2) show False by simp
  qed
  with t' f show ?thesis by blast
qed

text \<open>A rename onto the name of another file in sight of the same folder, the root excepted, is
  refused and changes no row.\<close>
theorem RenameFile_duplicate:
  assumes "fault e = (\<lambda>_. False)" and "db_wf (collate e) (db w)"
    and "f \<in> set (frows w)" "uf_ID f = k" "uf_UserID f = u" "uf_live f" "\<not> uf_IsDeleted f"
    and "g \<in> set (frows w)" "uf_ID g \<noteq> k" "uf_UserID g = u" "uf_live g" "\<not> uf_IsDeleted g"
    and "uf_ParentID g = uf_ParentID f" and "uf_ParentID f \<noteq> None"
    and "collate e (uf_Name g) = collate e nm"
  shows "fst (RenameFile e u k nm w) = Inl (Errorf ''file with same name already exists'')
    \<and> db (snd (RenameFile e u k nm w)) = db w"
proof -
  have "distinct (map uf_ID (frows w))"
    using assms(2) by (auto simp: db_wf_def keys_wf_def intro: uft.keys_ok_distinct)
  from first_row_unique [OF this assms(3), of "\<lambda>r. uf_live r \<and> uf_UserID r = u \<and> \<not> uf_IsDeleted r"] assms
  have "first_row uf_ID (\<lambda>r. uf_live r \<and> uf_ID r = k \<and> uf_UserID r = u \<and> \<not> uf_IsDeleted r)
      (files (db w)) = Some f" by (simp add: conj_ac)
  then have f: "first_file e (\<lambda>r. uf_ID r = k \<and> uf_UserID r = u \<and> \<not> uf_IsDeleted r) w =
      (Inr f, w\<lparr>requests := Suc (requests w)\<rparr>)"
    using assms(1) by (simp add: first_file_def query_row_no_fault)
  have "0 < length (filter (\<lambda>r. uf_live r \<and> uf_UserID r = u \<and> sql_eq_parent (uf_ParentID f) r
      \<and> collate e (uf_Name r) = collate e nm \<and> uf_ID r \<noteq> k \<and> \<not> uf_IsDeleted r) (frows w))"
    by (rule length_filter_pos [OF assms(8)]) (use assms in \<open>simp add: sql_eq_parent_def\<close>)
  with f assms(1) show ?thesis
    by (simp add: RenameFile_def count_files_def query_no_fault)
qed

section \<open>Moving\<close>

text \<open>Reparenting a set of nodes under a node below none of them keeps a forest a forest.\<close>

lemma acyclic_reparent:
  assumes "acyclic R" and "t \<notin> M" and "\<And>m. m \<in> M \<Longrightarrow> (t, m) \<notin> R\<^sup>+"
  shows "acyclic ({(x, y) \<in> R. x \<notin> M} \<union> M \<times> {t})" (is "acyclic ?R'")
proof -
  have from_t: "(t, x) \<in> ?R'\<^sup>* \<Longrightarrow> (t, x) \<in> R\<^sup>* \<and> x \<notin> M" for x
  proof (induction rule: rtrancl_induct)
    case base
    then show ?case using assms(2) by simp
  next
    case (step x y)
    then have xy: "(x, y) \<in> R" by auto
    with step have "(t, y) \<in> R\<^sup>+" by (auto intro: rtrancl_into_trancl1)
    with assms(3) show ?case by (auto intro: trancl_into_rtrancl)
  qed
  have split: "(x, y) \<in> ?R'\<^sup>+ \<Longrightarrow> (x, y) \<in> R\<^sup>+ \<or> (\<exists>m\<in>M. (x, m) \<in> ?R'\<^sup>* \<and> (t, y) \<in> ?R'\<^sup>*)" for x y
  proof (induction rule: trancl_induct)
    case (base y)
    then show ?case by blast
  next
    case (step y z)
    show ?case
    proof (cases "y \<in> M")
      case True
      with step.hyps have "z = t" "(x, y) \<in> ?R'\<^sup>*" by auto
      with True show ?thesis by auto
    next
      case False
      with step.hyps(2) have "(y, z) \<in> R" by auto
      with step.IH step.hyps(2) show ?thesis
        by (auto intro: trancl_into_trancl rtrancl_into_rtrancl)
    qed
  qed
  show ?thesis unfolding acyclic_def
  proof (intro allI notI)
    fix x assume "(x, x) \<in> ?R'\<^sup>+"
    from split [OF this] assms(1) obtain m where m: "m \<in> M" "(x, m) \<in> ?R'\<^sup>*" "(t, x) \<in> ?R'\<^sup>*"
      by (auto simp: acyclic_def)
    then have "(t, m) \<in> ?R'\<^sup>*" by (meson rtrancl_trans)
    with from_t m(1) show False by blast
  qed
qed

text \<open>The ancestors of a position: the folder itself and all above it.\<close>

definition ancestors :: "user_file list \<Rightarrow> nat \<Rightarrow> nat set" where
  "ancestors fs k = {y. (k, y) \<in> (up fs)\<^sup>*}"

text \<open>The walk sees a row only if it is live and the user's: the guard's blind spot.\<close>

definition visible_chain :: "user_file list \<Rightarrow> nat \<Rightarrow> nat \<Rightarrow> bool" where
  "visible_chain fs u k \<longleftrightarrow> (\<forall>f\<in>set fs. uf_ID f \<in> ancestors fs k \<longrightarrow> uf_live f \<and> uf_UserID f = u)"

lemma ancestors_step:
  "f \<in> set fs \<Longrightarrow> uf_ID f = k \<Longrightarrow> distinct (map uf_ID fs) \<Longrightarrow>
   ancestors fs k = insert k (case uf_ParentID f of None \<Rightarrow> {} | Some p \<Rightarrow> ancestors fs p)"
proof -
  assume f: "f \<in> set fs" "uf_ID f = k" and d: "distinct (map uf_ID fs)"
  have edge: "(k, y) \<in> up fs \<longleftrightarrow> uf_ParentID f = Some y" for y
    using f distinct_map_eq [OF d] by (auto simp: up_def)
  have "y \<in> ancestors fs k \<longleftrightarrow> y = k \<or> (\<exists>z. (k, z) \<in> up fs \<and> (z, y) \<in> (up fs)\<^sup>*)" for y
    unfolding ancestors_def by (auto elim: converse_rtranclE intro: converse_rtrancl_into_rtrancl)
  then show ?thesis by (auto simp: edge ancestors_def split: option.splits)
qed

lemma walk_up_sees:
  assumes "fault e = (\<lambda>_. False)" and "db_wf ck (db w)"
    and "walk_up e n u p cur w = Some (False, w')"
    and "\<And>k. cur = Some k \<Longrightarrow> visible_chain (frows w) u k \<and> has_key uf_ID (files (db w)) k"
  shows "\<And>k. cur = Some k \<Longrightarrow> p \<notin> ancestors (frows w) k"
  using assms(2-)
proof (induction n arbitrary: cur w)
  case 0
  then show ?case by simp
next
  case (Suc n)
  note wf = Suc.prems(2) and vis = Suc.prems(4) [OF Suc.prems(1)]
  from vis obtain f where f: "f \<in> set (frows w)" "uf_ID f = k" by (auto simp: has_key_iff)
  have d: "distinct (map uf_ID (frows w))"
    using wf by (auto simp: db_wf_def keys_wf_def intro: uft.keys_ok_distinct)
  have "k \<in> ancestors (frows w) k" by (simp add: ancestors_def)
  with vis f have live: "uf_live f" "uf_UserID f = u" by (auto simp: visible_chain_def)
  from first_row_unique [OF d f(1), of "\<lambda>r. uf_live r \<and> uf_UserID r = u"] live f(2) assms(1)
  have row: "first_file e (\<lambda>r. uf_ID r = k \<and> uf_UserID r = u) w = (Inr f, w\<lparr>requests := Suc (requests w)\<rparr>)"
    by (simp add: first_file_def query_row_no_fault conj_ac)
  from Suc.prems(1,3) have ne: "p \<noteq> k" by (auto split: if_splits)
  with Suc.prems(1,3) row have walk: "walk_up e n u p (uf_ParentID f) (w\<lparr>requests := Suc (requests w)\<rparr>) = Some (False, w')"
    by auto
  note anc = ancestors_step [OF f d]
  show ?case
  proof (cases "uf_ParentID f")
    case None
    with anc ne show ?thesis by simp
  next
    case (Some q)
    have "visible_chain (frows w) u q" using vis anc Some by (auto simp: visible_chain_def)
    moreover have "has_key uf_ID (files (db w)) q" using db_wf_parent [OF wf f(1) Some] by (simp add: has_key_iff)
    ultimately have "p \<notin> ancestors (frows w) q"
      using Suc.IH [OF Some _ walk] wf Some by simp
    with anc ne Some show ?thesis by simp
  qed
qed

lemma check_moves_sees:
  assumes "fault e = (\<lambda>_. False)" and "db_wf ck (db w)"
    and "check_moves e n u t ks w = Some (Inr x, w')" and "visible_chain (frows w) u t"
    and "f \<in> set (frows w)" and "uf_ID f = t" and "uf_IsDir f"
  shows "set ks \<inter> ancestors (frows w) t = {}"
  using assms(2-)
proof (induction ks arbitrary: w)
  case Nil
  then show ?case by simp
next
  case (Cons k ks)
  note wf = Cons.prems(1)
  have d: "distinct (map uf_ID (frows w))"
    using wf by (auto simp: db_wf_def keys_wf_def intro: uft.keys_ok_distinct)
  have ne: "t \<noteq> k" using Cons.prems(2) by (auto split: if_splits)
  then obtain w1 where c: "isChildFolder e n u t k w = Some (False, w1)"
    and r: "check_moves e n u t ks w1 = Some (Inr x, w')"
    using Cons.prems(2) by (auto split: option.splits prod.splits bool.splits)
  have "t \<in> ancestors (frows w) t" by (simp add: ancestors_def)
  with Cons.prems(3-5) have live: "uf_live f" "uf_UserID f = u" by (auto simp: visible_chain_def)
  from first_row_unique [OF d Cons.prems(4), of "\<lambda>r. uf_live r \<and> uf_UserID r = u \<and> uf_IsDir r"]
    live Cons.prems(5,6) assms(1)
  have "first_file e (\<lambda>r. uf_ID r = t \<and> uf_UserID r = u \<and> uf_IsDir r) w =
      (Inr f, w\<lparr>requests := Suc (requests w)\<rparr>)"
    by (simp add: first_file_def query_row_no_fault conj_ac)
  with c have walk: "walk_up e n u k (uf_ParentID f) (w\<lparr>requests := Suc (requests w)\<rparr>) = Some (False, w1)"
    by (simp add: isChildFolder_def)
  note anc = ancestors_step [OF Cons.prems(4,5) d]
  have "k \<notin> ancestors (frows w) t"
  proof (cases "uf_ParentID f")
    case None
    with anc ne show ?thesis by simp
  next
    case (Some q)
    have "visible_chain (frows w) u q" using Cons.prems(3) anc Some by (auto simp: visible_chain_def)
    moreover have "has_key uf_ID (files (db w)) q"
      using db_wf_parent [OF wf Cons.prems(4) Some] by (simp add: has_key_iff)
    ultimately have "k \<notin> ancestors (frows w) q"
      using walk_up_sees [OF assms(1) _ walk _ Some] wf Some by simp
    with anc ne Some show ?thesis by simp
  qed
  moreover have "set ks \<inter> ancestors (frows w) t = {}"
    using Cons.IH [of w1] r isChildFolder_same [OF c] Cons.prems by simp
  ultimately show ?case by simp
qed

lemma up_iff: "(a, b) \<in> up fs \<longleftrightarrow> (\<exists>f\<in>set fs. uf_ID f = a \<and> uf_ParentID f = Some b)"
  by (auto simp: up_def)

lemma moved_up:
  assumes "distinct (map uf_ID fs)"
  shows "up (update_where p (\<lambda>r. r\<lparr>uf_ParentID := t, uf_UpdatedAt := now\<rparr>) fs) =
    {(x, y) \<in> up fs. x \<notin> uf_ID ` {f \<in> set fs. p f}}
    \<union> (case t of None \<Rightarrow> {} | Some q \<Rightarrow> uf_ID ` {f \<in> set fs. p f} \<times> {q})"
proof (rule set_eqI)
  let ?M = "uf_ID ` {f \<in> set fs. p f}"
  let ?up = "up (update_where p (\<lambda>r. r\<lparr>uf_ParentID := t, uf_UpdatedAt := now\<rparr>) fs)"
  fix z :: "nat \<times> nat"
  obtain a b where z: "z = (a, b)" by (cases z)
  have l: "(a, b) \<in> ?up \<longleftrightarrow>
      (\<exists>f\<in>set fs. uf_ID f = a \<and> (if p f then t = Some b else uf_ParentID f = Some b))"
    unfolding up_iff set_map bex_simps by (rule bex_cong) auto
  have m: "a \<in> ?M \<longleftrightarrow> p f" if "f \<in> set fs" "uf_ID f = a" for f
  proof
    assume "a \<in> ?M"
    then obtain g where "g \<in> set fs" "p g" "uf_ID g = a" by blast
    with distinct_map_eq [OF assms that(1) this(1)] that(2) show "p f" by simp
  qed (use that in blast)
  have r: "z \<in> {(x, y) \<in> up fs. x \<notin> ?M} \<union> (case t of None \<Rightarrow> {} | Some q \<Rightarrow> ?M \<times> {q})
      \<longleftrightarrow> ((a, b) \<in> up fs \<and> a \<notin> ?M) \<or> (a \<in> ?M \<and> t = Some b)"
    by (auto simp: z split: option.splits)
  show "z \<in> ?up \<longleftrightarrow> z \<in> {(x, y) \<in> up fs. x \<notin> ?M} \<union> (case t of None \<Rightarrow> {} | Some q \<Rightarrow> ?M \<times> {q})"
    unfolding r unfolding z unfolding l unfolding up_iff using m by (auto split: if_splits)
qed

text \<open>C11: without faults, moving files keeps the files a tree, provided every folder from the target
  up to the root is a live row of the user; the operation then never puts a folder below itself.\<close>
theorem MoveFiles_keeps_tree:
  assumes "fault e = (\<lambda>_. False)" and "db_wf (collate e) (db w)" and "tree_shaped (frows w)"
    and "\<forall>f\<in>set (frows w). uf_ID f \<noteq> 0"
    and "\<And>q. t = Some q \<Longrightarrow> q \<noteq> 0 \<Longrightarrow> visible_chain (frows w) u q"
    and "MoveFiles e n u ks t w = Some (Inr x, w')"
  shows "tree_shaped (frows w')"
proof -
  let ?p = "\<lambda>r. uf_live r \<and> uf_ID r \<in> set ks \<and> uf_UserID r = u \<and> \<not> uf_IsDeleted r"
  let ?M = "uf_ID ` {f \<in> set (frows w). ?p f}"
  from assms(3) have d: "distinct (map uf_ID (frows w))" and ac: "acyclic (up (frows w))"
    by (auto simp: tree_shaped_def)
  from MoveFiles_result [OF assms(6)] obtain w1 where w1: "db w1 = db w"
    and mv: "move_rows e u ks t w1 = (Inr x, w')"
    and chk: "isRoot t \<or> (\<exists>w0 y. db w0 = db w \<and> check_moves e n u (the t) ks w0 = Some (Inr y, w1)
           \<and> (\<exists>f\<in>set (frows w). uf_live f \<and> isLiveDir (the t) u f))" by auto
  from move_rows_changed [OF mv] w1 obtain now where
    r: "frows w' = update_where ?p (\<lambda>r. r\<lparr>uf_ParentID := t, uf_UpdatedAt := now\<rparr>) (frows w)"
    and v: "db_valid (collate e) (db w')" by (auto simp: changed_def)
  have ids: "map uf_ID (frows w') = map uf_ID (frows w)" by (simp add: r)
  have "acyclic (up (frows w'))"
  proof (cases t)
    case None
    then have "up (frows w') \<subseteq> up (frows w)" unfolding r moved_up [OF d] by auto
    with ac show ?thesis by (rule acyclic_subset)
  next
    case (Some q)
    show ?thesis
    proof (cases "q = 0")
      case True
      have "?M = {}"
      proof (rule ccontr)
        assume "?M \<noteq> {}"
        then obtain f where f: "f \<in> set (frows w)" "?p f" by blast
        then have "f\<lparr>uf_ParentID := t, uf_UpdatedAt := now\<rparr> \<in> set (frows w')" by (auto simp: r image_iff)
        with v Some True have "has_key uf_ID (files (db w')) 0"
          by (auto simp: db_valid_def user_file_fk_def list_all_iff dest!: bspec)
        then have "0 \<in> set (map uf_ID (frows w'))" by (force simp: has_key_iff)
        with ids assms(4) show False by auto
      qed
      then have "up (frows w') \<subseteq> up (frows w)" unfolding r moved_up [OF d] Some option.case by blast
      with ac show ?thesis by (rule acyclic_subset)
    next
      case False
      with Some chk obtain w0 y f where c: "db w0 = db w"
        "check_moves e n u q ks w0 = Some (Inr y, w1)"
        and f: "f \<in> set (frows w)" "isLiveDir q u f" by (auto simp: isRoot_def)
      from check_moves_sees [OF assms(1) _ c(2), of "collate e" f] c(1) f assms(2) assms(5) [OF Some False]
      have no: "set ks \<inter> ancestors (frows w) q = {}" by (simp add: isLiveDir_def)
      have "?M \<subseteq> set ks" by blast
      with no have "q \<notin> ?M" "\<And>m. m \<in> ?M \<Longrightarrow> (q, m) \<notin> (up (frows w))\<^sup>+"
        by (auto simp: ancestors_def dest: trancl_into_rtrancl)
      from acyclic_reparent [OF ac this] show ?thesis
        unfolding r moved_up [OF d] Some option.case .
    qed
  qed
  with ids d show ?thesis by (simp add: tree_shaped_def)
qed

text \<open>A folder 1 with a recycled folder 2 in it, and a live folder 3 in that; file rows 4 and 5 apart.\<close>

definition live_dir :: "nat \<Rightarrow> nat option \<Rightarrow> string \<Rightarrow> user_file" where
  "live_dir k p nm = (new_file 1 p nm True None 0)\<lparr>uf_ID := k\<rparr>"

definition world2 :: world where
  "world2 = world0\<lparr>db := empty_db\<lparr>users := \<lparr>rows = [user1], next_key = 2\<rparr>,
     files := \<lparr>rows = [live_dir 1 None ''a'', recycled 0 (live_dir 2 (Some 1) ''b''),
       live_dir 3 (Some 2) ''c'', live_dir 4 None ''d''], next_key = 5\<rparr>\<rparr>\<rparr>"

lemmas world2_defs = world2_def user1_def live_dir_def new_file_def recycled_def empty_db_def
  empty_table_def

lemma world2_wf: "db_wf id (db world2)"
  by (simp add: db_wf_def keys_wf_defs db_valid_defs has_key_def world2_defs)

lemma world2_tree: "tree_shaped (frows world2)"
proof -
  have "acyclic (up (frows world2))" by (rule acyclic_by_key) (auto simp: world2_defs)
  then show ?thesis by (simp add: tree_shaped_def) (simp add: world2_defs)
qed

definition moved2 :: world where
  "moved2 = snd (the (MoveFiles env0 9 1 [1] (Some 4) world2))"

lemma move_world2_ok:
  "case MoveFiles env0 9 1 [1] (Some 4) world2 of Some (Inr _, _) \<Rightarrow> True | _ \<Rightarrow> False"
  by code_simp

lemma MoveFiles_keeps_tree_witness: "tree_shaped (frows moved2)"
proof -
  have m: "MoveFiles env0 9 1 [1] (Some 4) world2 = Some (Inr (), moved2)"
    using move_world2_ok unfolding moved2_def by (auto split: option.splits sum.splits)
  have "(4, y) \<in> (up (frows world2))\<^sup>* \<Longrightarrow> y = 4" for y
    by (erule converse_rtranclE) (auto simp: up_def world2_defs)
  then have "ancestors (frows world2) 4 = {4}" by (auto simp: ancestors_def)
  then have "visible_chain (frows world2) 1 4"
    by (simp add: visible_chain_def) (simp add: world2_defs)
  with MoveFiles_keeps_tree [OF _ _ world2_tree _ _ m] world2_wf show ?thesis
    by (simp add: world2_defs)
qed

lemma delete_diverges:
  assumes "fault e = (\<lambda>_. False)" and "k \<in> K"
    and "\<And>k. k \<in> K \<Longrightarrow> \<exists>c cs. filter (\<lambda>f. uf_ParentID f = Some k) (frows w) = c # cs
      \<and> uf_IsDir c \<and> uf_ID c \<in> K"
  shows "deleteFolderRecursively e n k w = None"
  using assms(2,3)
proof (induction n arbitrary: k w)
  case 0
  then show ?case by simp
next
  case (Suc n)
  from Suc.prems(2) [OF Suc.prems(1)] obtain c cs where
    c: "filter (\<lambda>f. uf_ParentID f = Some k) (frows w) = c # cs" "uf_IsDir c" "uf_ID c \<in> K" by blast
  from Suc.IH [OF c(3), of "w\<lparr>requests := Suc (requests w)\<rparr>"] Suc.prems(2) c assms(1) show ?case
    by (simp add: find_files_unscoped_def query_no_fault)
qed

definition cycle2 :: world where
  "cycle2 = snd (the (MoveFiles env0 9 1 [1] (Some 3) world2))"

lemma cycle2_ok:
  "case MoveFiles env0 9 1 [1] (Some 3) world2 of Some (Inr _, _) \<Rightarrow> True | _ \<Rightarrow> False"
  by code_simp

lemma cycle2_children:
  "map (\<lambda>k. map (\<lambda>f. (uf_ID f, uf_IsDir f)) (filter (\<lambda>f. uf_ParentID f = Some k) (frows cycle2))) [1, 2, 3]
     = [[(2, True)], [(3, True)], [(1, True)]]"
  unfolding cycle2_def by code_simp

lemma cycle2_child:
  assumes "k \<in> {1, 2, 3}"
  shows "\<exists>c cs. filter (\<lambda>f. uf_ParentID f = Some k) (frows cycle2) = c # cs
    \<and> uf_IsDir c \<and> uf_ID c = (if k = 3 then 1 else Suc k)"
  using assms cycle2_children by (auto simp: map_eq_Cons_conv)

text \<open>The walk does not see recycled rows: folder 1 can be moved into folder 3, which lies below
  it inside the recycled folder 2. The rows then form a cycle, and a permanent deletion of the
  folder, however long it runs, does not end.\<close>
theorem MoveFiles_recycled_ancestor_cycle:
  "\<exists>w'. MoveFiles env0 9 1 [1] (Some 3) world2 = Some (Inr (), w') \<and> \<not> acyclic (up (frows w'))
    \<and> (\<forall>n. deleteFolderRecursively env0 n 1 w' = None)"
proof (intro exI conjI allI)
  show "MoveFiles env0 9 1 [1] (Some 3) world2 = Some (Inr (), cycle2)"
    using cycle2_ok unfolding cycle2_def by (auto split: option.splits sum.splits)
  show "deleteFolderRecursively env0 n 1 cycle2 = None" for n
    by (rule delete_diverges [where K = "{1, 2, 3}"]) (use cycle2_child in fastforce)+
  have "(if k = 3 then 1 else Suc k, k) \<in> up (frows cycle2)" if k: "k \<in> {1, 2, 3}" for k
  proof -
    from cycle2_child [OF k] obtain c cs where
      c: "filter (\<lambda>f. uf_ParentID f = Some k) (frows cycle2) = c # cs"
      "uf_ID c = (if k = 3 then 1 else Suc k)" by blast
    from filter_Cons_memD [OF c(1), of c] c(2) show ?thesis by (metis upI list.set_intros(1))
  qed
  from this [of 1] this [of 2] this [of 3]
  have "(2, 1) \<in> up (frows cycle2)" "(3, 2) \<in> up (frows cycle2)" "(1, 3) \<in> up (frows cycle2)"
    by (simp_all add: numeral_2_eq_2 numeral_3_eq_3)
  then have "(1, 1) \<in> (up (frows cycle2))\<^sup>+" by (meson r_into_trancl trancl_trans)
  then show "\<not> acyclic (up (frows cycle2))" by (auto simp: acyclic_def)
qed

section \<open>The walk ends\<close>

lemma up_finite: "finite (up fs)" and up_card: "card (snd ` up fs) \<le> length fs"
proof -
  have s: "up fs \<subseteq> (\<lambda>f. (uf_ID f, the (uf_ParentID f))) ` set fs" by (force simp: up_def)
  then show "finite (up fs)" by (rule finite_subset) simp
  have "snd ` up fs \<subseteq> (\<lambda>f. the (uf_ParentID f)) ` set fs" using s by force
  then have "card (snd ` up fs) \<le> card ((\<lambda>f. the (uf_ParentID f)) ` set fs)" by (intro card_mono) simp_all
  also have "\<dots> \<le> length fs" by (meson card_image_le card_length le_trans finite_set)
  finally show "card (snd ` up fs) \<le> length fs" .
qed

lemma ancestors_sub: "ancestors fs k \<subseteq> insert k (snd ` up fs)"
proof
  fix y assume "y \<in> ancestors fs k"
  then have "(k, y) \<in> (up fs)\<^sup>*" by (simp add: ancestors_def)
  then show "y \<in> insert k (snd ` up fs)"
    by (cases rule: rtranclE) (metis insertI1, metis insertI2 image_eqI snd_conv)
qed

lemma ancestors_finite: "finite (ancestors fs k)"
  by (rule finite_subset [OF ancestors_sub]) (simp add: up_finite)

lemma ancestors_card: "card (ancestors fs k) \<le> Suc (length fs)"
proof -
  have "card (ancestors fs k) \<le> card (insert k (snd ` up fs))"
    by (rule card_mono [OF _ ancestors_sub]) (simp add: up_finite)
  also have "\<dots> \<le> Suc (card (snd ` up fs))" by (rule card_insert_le_m1) simp_all
  finally show ?thesis using up_card [of fs] by simp
qed

lemma walk_up_ends:
  assumes "tree_shaped (frows w)"
    and "(case cur of None \<Rightarrow> 0 | Some k \<Rightarrow> card (ancestors (frows w) k)) < n"
  shows "walk_up e n u p cur w \<noteq> None"
  using assms
proof (induction n arbitrary: cur w)
  case 0
  then show ?case by simp
next
  case (Suc n)
  show ?case
  proof (cases cur)
    case None
    then show ?thesis by simp
  next
    case (Some k)
    obtain y w1 where f: "first_file e (\<lambda>r. uf_ID r = k \<and> uf_UserID r = u) w = (y, w1)" by fastforce
    note same = first_file_same [OF f]
    show ?thesis
    proof (cases y)
      case (Inl err)
      with Some f show ?thesis by auto
    next
      case (Inr g)
      with same have g: "g \<in> set (frows w)" "uf_ID g = k" by auto
      have "(case uf_ParentID g of None \<Rightarrow> 0 | Some q \<Rightarrow> card (ancestors (frows w) q)) < n"
      proof (cases "uf_ParentID g")
        case None
        have "k \<in> ancestors (frows w) k" by (simp add: ancestors_def)
        then have "0 < card (ancestors (frows w) k)" using ancestors_finite card_gt_0_iff by blast
        with None Suc.prems(2) Some show ?thesis by simp
      next
        case (Some q)
        have "k \<notin> ancestors (frows w) q"
        proof
          assume "k \<in> ancestors (frows w) q"
          with upI [OF g(1) Some] g(2) have "(k, k) \<in> (up (frows w))\<^sup>+"
            by (auto simp: ancestors_def)
          with Suc.prems(1) show False by (auto simp: tree_shaped_def acyclic_def)
        qed
        with ancestors_step [OF g] Suc.prems(1) Some
        have "card (ancestors (frows w) k) = Suc (card (ancestors (frows w) q))"
          by (simp add: tree_shaped_def ancestors_finite)
        with Suc.prems(2) \<open>cur = Some k\<close> Some show ?thesis by simp
      qed
      moreover have db: "db w1 = db w" using same by simp
      ultimately have "walk_up e n u p (uf_ParentID g) w1 \<noteq> None"
        using Suc.IH [of w1 "uf_ParentID g"] Suc.prems(1) unfolding db by blast
      with Some f Inr show ?thesis by auto
    qed
  qed
qed

lemma isChildFolder_ends:
  assumes "tree_shaped (frows w)" and "Suc (length (frows w)) < n"
  shows "isChildFolder e n u k p w \<noteq> None"
proof -
  obtain y w1 where f: "first_file e (\<lambda>r. uf_ID r = k \<and> uf_UserID r = u \<and> uf_IsDir r) w = (y, w1)"
    by fastforce
  have "(case cur of None \<Rightarrow> 0 | Some k \<Rightarrow> card (ancestors (frows w1) k)) < n" for cur
    using assms(2) ancestors_card [of "frows w1"] first_file_same [OF f]
    by (auto split: option.splits intro: le_less_trans)
  with walk_up_ends [of w1] assms(1) first_file_same [OF f] have "walk_up e n u p cur w1 \<noteq> None" for cur
    by simp
  with f show ?thesis by (cases y) (simp_all add: isChildFolder_def)
qed

lemma check_moves_ends:
  assumes "tree_shaped (frows w)" and "Suc (length (frows w)) < n"
  shows "check_moves e n u t ks w \<noteq> None"
  using assms
proof (induction ks arbitrary: w)
  case Nil
  then show ?case by simp
next
  case (Cons k ks)
  from isChildFolder_ends [OF Cons.prems] obtain b w1 where
    c: "isChildFolder e n u t k w = Some (b, w1)" by fastforce
  with Cons.IH [of w1] Cons.prems isChildFolder_same [OF c] show ?case
    by (cases b) auto
qed

text \<open>C38: on a tree of files moving ends, whatever requests fail: the walk up from the target needs no
  more than two steps more than there are rows.\<close>
theorem MoveFiles_ends:
  assumes "tree_shaped (frows w)" and "Suc (length (frows w)) < n"
  shows "\<exists>r w'. MoveFiles e n u ks t w = Some (r, w')"
proof -
  obtain y w1 where c: "check_target e u t w = (y, w1)" by fastforce
  with check_target_same [OF c] assms check_moves_ends [of w1 n e u "the t" ks]
  obtain z w2 where "check_moves e n u (the t) ks w1 = Some (z, w2)" by auto
  with c show ?thesis by (cases y; cases z) (auto simp: MoveFiles_def)
qed

lemma MoveFiles_ends_witness:
  "\<exists>r w'. MoveFiles env0 6 1 [1] (Some 4) world2 = Some (r, w')"
  by (rule MoveFiles_ends [OF world2_tree]) (simp add: world2_defs)

section \<open>Witnesses and blind spots of the name checks\<close>

text \<open>Folder 1 with the files 2 and 3 in it; file 4 in the recycle bin, of the same name as 2.\<close>

definition world3 :: world where
  "world3 = world0\<lparr>db := empty_db\<lparr>users := \<lparr>rows = [user1], next_key = 2\<rparr>,
     files := \<lparr>rows = [live_dir 1 None ''a'', live_dir 2 (Some 1) ''b'', live_dir 3 (Some 1) ''c'',
       recycled 0 (live_dir 4 (Some 1) ''b''), live_dir 5 None ''e''], next_key = 6\<rparr>\<rparr>\<rparr>"

lemmas world3_defs = world3_def user1_def live_dir_def new_file_def recycled_def empty_db_def
  empty_table_def

lemma world3_wf: "db_wf id (db world3)"
  by (simp add: db_wf_def keys_wf_defs db_valid_defs has_key_def world3_defs)

lemma recycle_world3_ok:
  "case MoveToRecycle env0 1 3 world3 of (Inr _, w1) \<Rightarrow>
     (case RestoreFile env0 1 3 w1 of (Inr _, _) \<Rightarrow> True | _ \<Rightarrow> False) | _ \<Rightarrow> False"
  by code_simp

lemma recycle_roundtrip_witness:
  "\<exists>w1 w2 t. MoveToRecycle env0 1 3 world3 = (Inr (), w1) \<and> RestoreFile env0 1 3 w1 = (Inr (), w2)
    \<and> frows w2 = update_where (\<lambda>r. uf_ID r = 3) (\<lambda>r. r\<lparr>uf_UpdatedAt := t\<rparr>) (frows world3)"
proof -
  from recycle_world3_ok obtain w1 w2 where m: "MoveToRecycle env0 1 3 world3 = (Inr (), w1)"
    and r: "RestoreFile env0 1 3 w1 = (Inr (), w2)"
    by (auto split: prod.splits sum.splits)
  from recycle_roundtrip [OF _ _ _ _ _ _ m r, of "live_dir 3 (Some 1) ''c''"] world3_wf
  have "\<exists>t. frows w2 = update_where (\<lambda>r. uf_ID r = 3) (\<lambda>r. r\<lparr>uf_UpdatedAt := t\<rparr>) (frows world3)"
    by (simp add: world3_defs)
  with m r show ?thesis by blast
qed

lemma rename_world3_ok:
  "case RenameFile env0 1 3 ''z'' world3 of (Inr _, w1) \<Rightarrow> True | _ \<Rightarrow> False"
  by code_simp

lemma RenameFile_effect_witness:
  "\<exists>w1 t. RenameFile env0 1 3 ''z'' world3 = (Inr (), w1) \<and> frows w1 =
     update_where (\<lambda>r. uf_ID r = 3) (\<lambda>r. r\<lparr>uf_Name := ''z'', uf_UpdatedAt := t\<rparr>) (frows world3)"
proof -
  from rename_world3_ok obtain w1 where r: "RenameFile env0 1 3 ''z'' world3 = (Inr (), w1)"
    by (auto split: prod.splits sum.splits)
  with RenameFile_effect [OF _ r] world3_wf show ?thesis by auto
qed

lemma RenameFile_duplicate_witness:
  "fst (RenameFile env0 1 3 ''b'' world3) = Inl (Errorf ''file with same name already exists'')"
  using RenameFile_duplicate [of env0 world3 "live_dir 3 (Some 1) ''c''" 3 1 "live_dir 2 (Some 1) ''b''" "''b''"]
    world3_wf
  by (simp add: world3_defs)

text \<open>In the root folder the duplicate check of a rename finds nothing, since \<open>parent_id = NULL\<close>
  holds for no row, and the unique index does not see rows without a parent: two live folders of
  one user in the root can carry the same name.\<close>
theorem RenameFile_root_duplicate:
  "let (r, w) = RenameFile env0 1 5 ''a'' world3 in r = Inr () \<and> db_wf id (db world3)
     \<and> map uf_Name (filter (\<lambda>f. uf_UserID f = 1 \<and> uf_ParentID f = None \<and> uf_live f) (frows w))
       = [''a'', ''a'']"
proof -
  have "case RenameFile env0 1 5 ''a'' world3 of (Inr _, w) \<Rightarrow>
      map uf_Name (filter (\<lambda>f. uf_UserID f = 1 \<and> uf_ParentID f = None \<and> uf_live f) (frows w))
       = [''a'', ''a''] | _ \<Rightarrow> False"
    by code_simp
  with world3_wf show ?thesis by (auto split: prod.splits sum.splits)
qed

text \<open>A file cannot be recycled while the recycle bin holds another one of the same name from the
  same folder: the unique index covers \<open>is_deleted\<close>, the statement is refused and nothing changes.\<close>
theorem MoveToRecycle_name_taken:
  assumes "db_wf (collate e) (db w)" and "f \<in> set (frows w)" "g \<in> set (frows w)"
    and "uf_ID f = k" "uf_UserID f = u" "uf_live f" "\<not> uf_IsDeleted f"
    and "uf_UserID g = u" "uf_IsDeleted g" "uf_ParentID g = uf_ParentID f" "uf_ParentID f \<noteq> None"
    and "collate e (uf_Name g) = collate e (uf_Name f)"
  shows "(\<exists>err. fst (MoveToRecycle e u k w) = Inl err) \<and> db (snd (MoveToRecycle e u k w)) = db w"
proof (cases "MoveToRecycle e u k w")
  case (Pair r w')
  show ?thesis
  proof (cases r)
    case (Inl err)
    with Pair MoveToRecycle_Inl show ?thesis by fastforce
  next
    case (Inr x)
    from MoveToRecycle_changed [OF Pair [unfolded Inr]] obtain now where
      c: "changed e (\<lambda>r. uf_live r \<and> uf_ID r = k \<and> uf_UserID r = u \<and> \<not> uf_IsDeleted r) (recycled now) w w'"
      by blast
    then obtain t where r: "frows w' = update_where
        (\<lambda>r. uf_live r \<and> uf_ID r = k \<and> uf_UserID r = u \<and> \<not> uf_IsDeleted r)
        (\<lambda>r. (recycled now r)\<lparr>uf_UpdatedAt := t\<rparr>) (frows w)"
      and v: "db_valid (collate e) (db w')" by (auto simp: changed_def)
    let ?f = "(recycled now f)\<lparr>uf_UpdatedAt := t\<rparr>"
    let ?key = "\<lambda>r. (uf_UserID r, uf_ParentID r, collate e (uf_Name r), uf_IsDeleted r)"
    have "?f \<in> set (frows w')" "g \<in> set (frows w')" using assms(2-9) by (auto simp: r image_iff)
    then have m: "?f \<in> set (filter (\<lambda>r. uf_ParentID r \<noteq> None) (frows w'))"
      "g \<in> set (filter (\<lambda>r. uf_ParentID r \<noteq> None) (frows w'))"
      using assms(10,11) by (auto simp: recycled_def)
    have key: "?key ?f = ?key g" using assms(4-12) by (simp add: recycled_def)
    from v have d: "distinct (map ?key (filter (\<lambda>r. uf_ParentID r \<noteq> None) (frows w')))"
      by (simp add: db_valid_def user_file_unique_def)
    have "?f = g" by (rule distinct_map_eq [OF d m key])
    then have "uf_ID f = uf_ID g" by (auto simp: recycled_def)
    with db_wf_file_key [OF assms(1-3)] assms(7,9) show ?thesis by simp
  qed
qed

lemma MoveToRecycle_name_taken_witness:
  "\<exists>err. fst (MoveToRecycle env0 1 2 world3) = Inl err"
  using MoveToRecycle_name_taken [of env0 world3 "live_dir 2 (Some 1) ''b''"
      "recycled 0 (live_dir 4 (Some 1) ''b'')" 2 1] world3_wf
  by (simp add: world3_defs)

end
