(* ===== verification/Uploads.thy ===== *)
theory Uploads
  imports FileOps
begin

text \<open>
  Uploading, from \<open>src/internal/service/file_object.go\<close>: the instant upload by hash, the
  multipart upload with its sessions and chunks, and the completion that composes the chunks into
  one object. An upload either shares the object of a file with the same hash, and counts one
  reference more, or writes a new object with its first reference.
\<close>

section \<open>Requests and responses\<close>

text \<open>The fields of \<open>dto/request.go\<close> and \<open>dto/response.go\<close> that the services read or set.\<close>

record upload_by_hash =
  ub_UserId :: nat
  ub_FileName :: string
  ub_Size :: int
  ub_Hash :: string
  ub_ParentId :: nat

record multipart_init =
  mi_UserId :: nat
  mi_FileName :: string
  mi_Size :: int
  mi_Hash :: string
  mi_ChunkSize :: int
  mi_TotalChunks :: int
  mi_ParentId :: nat

record multipart_chunk =
  mc_UploadID :: string
  mc_BucketName :: string
  mc_ChunkIndex :: int
  mc_Contents :: string      \<comment> \<open>what \<open>File.Open()\<close> reads; \<open>File.Size\<close> is its length\<close>

record multipart_complete =
  mp_FileHash :: string
  mp_FileName :: string
  mp_FileSize :: int
  mp_TotalChunks :: int
  mp_ParentId :: nat

record fast_upload_response =
  fu_Instant :: bool
  fu_NeedUpload :: bool
  fu_Reason :: string
  fu_FileId :: nat

record multipart_response =
  mr_Instant :: bool
  mr_UploadID :: string
  mr_Uploaded :: "int list"

definition needUpload :: "string \<Rightarrow> fast_upload_response" where
  "needUpload reason = \<lparr>fu_Instant = False, fu_NeedUpload = True, fu_Reason = reason, fu_FileId = 0\<rparr>"

definition parentOf :: "nat \<Rightarrow> nat option" where
  "parentOf parentId = (if parentId \<noteq> 0 then Some parentId else None)"

section \<open>Instant upload\<close>

text \<open>
  \<open>FindIdByUsername\<close> of \<open>src/internal/service/user.go\<close>.
\<close>

definition FindIdByUsername :: "env \<Rightarrow> string \<Rightarrow> nat step" where
  "FindIdByUsername e username w =
     (case first_user e (\<lambda>u. collate e (u_UserName u) = collate e username) w of
        (Inl err, w) \<Rightarrow> (Inl err, w)
      | (Inr user, w) \<Rightarrow> (Inr (u_ID user), w))"

text \<open>Counting a reference, creating the file, and taking the count back when that fails: the same
  sequence in \<open>FastUpload\<close> and \<open>MultiPartFileInit\<close>.\<close>

definition link_object :: "env \<Rightarrow> nat \<Rightarrow> nat \<Rightarrow> string \<Rightarrow> file_object \<Rightarrow> nat step" where
  "link_object e userId parentId fileName obj w =
     (case IncreaseRefCount e (fo_ID obj) w of
        (Inl err, w) \<Rightarrow> (Inl err, w)
      | (Inr _, w) \<Rightarrow>
     (case CreateUserFileEntry e (new_file userId (parentOf parentId) fileName False
             (Some (fo_ID obj)) (fo_Size obj)) w of
        (Inl err, w) \<Rightarrow> (Inl err, snd (DecreaseRefCount e (fo_ID obj) w))
      | (Inr k, w) \<Rightarrow> (Inr k, w)))"

definition FastUpload :: "env \<Rightarrow> upload_by_hash \<Rightarrow> fast_upload_response step" where
  "FastUpload e req w =
     (case GetFileObjectByHash e (ub_Hash req) w of
        (Inl err, w) \<Rightarrow> if err = RecordNotFound then (Inr (needUpload ''hash_not_found''), w)
                        else (Inl err, w)
      | (Inr obj, w) \<Rightarrow>
          if 0 < ub_Size req \<and> 0 < fo_Size obj \<and> ub_Size req \<noteq> fo_Size obj
          then (Inr (needUpload ''size_mismatch''), w) else
     (case isFileObjectAvailable e obj w of
        (Inl err, w) \<Rightarrow> (Inl err, w)
      | (Inr available, w) \<Rightarrow>
          if \<not> available then (Inr (needUpload ''object_missing''), w) else
     (case link_object e (ub_UserId req) (ub_ParentId req) (ub_FileName req) obj w of
        (Inl err, w) \<Rightarrow> (Inl err, w)
      | (Inr k, w) \<Rightarrow>
          (Inr \<lparr>fu_Instant = True, fu_NeedUpload = False, fu_Reason = '''', fu_FileId = k\<rparr>, w))))"

section \<open>Sessions and chunks\<close>

definition session_of :: "env \<Rightarrow> nat \<Rightarrow> string \<Rightarrow> upload_session \<Rightarrow> bool" where
  "session_of e userID hash s \<longleftrightarrow>
     collate e (us_FileHash s) = collate e hash \<and> us_UserID s = userID"

definition GetUploadSessionByHash :: "env \<Rightarrow> nat \<Rightarrow> string \<Rightarrow> upload_session step" where
  "GetUploadSessionByHash e userID hash = last_session e (session_of e userID hash)"

definition GetUploadSessionByUploadID :: "env \<Rightarrow> string \<Rightarrow> upload_session step" where
  "GetUploadSessionByUploadID e uploadID =
     first_session e (\<lambda>s. collate e (us_UploadID s) = collate e uploadID)"

definition uploaded_chunk :: "env \<Rightarrow> string \<Rightarrow> file_chunk \<Rightarrow> bool" where
  "uploaded_chunk e uploadID c \<longleftrightarrow> collate e (fc_UploadID c) = collate e uploadID \<and> fc_Status c = 1"

definition CheckChunkNum :: "env \<Rightarrow> nat \<Rightarrow> string \<Rightarrow> file_chunk list step" where
  "CheckChunkNum e userID hash w =
     (case GetUploadSessionByHash e userID hash w of
        (Inl err, w) \<Rightarrow> if err = RecordNotFound then (Inr [], w) else (Inl err, w)
      | (Inr session, w) \<Rightarrow> find_chunks e (uploaded_chunk e (us_UploadID session)) w)"

definition CreateUploadSession :: "env \<Rightarrow> multipart_init \<Rightarrow> unit step" where
  "CreateUploadSession e req w =
     (let (tok, w) = GetToken e w in
      case create_session e \<lparr>us_ID = 0, us_UploadID = tok, us_UserID = mi_UserId req,
             us_FileHash = mi_Hash req, us_FileName = mi_FileName req, us_FileSize = mi_Size req,
             us_ChunkSize = mi_ChunkSize req, us_TotalChunks = mi_TotalChunks req, us_Status = 0,
             us_CreatedAt = 0, us_UpdatedAt = 0\<rparr> w of
        (Inl err, w) \<Rightarrow> (Inl err, w)
      | (Inr _, w) \<Rightarrow> (Inr (), w))"

text \<open>The label \<open>uploadFlow\<close>: the hash is unknown, or its object is gone from the store.\<close>

definition uploadFlow :: "env \<Rightarrow> multipart_init \<Rightarrow> multipart_response step" where
  "uploadFlow e req w =
     (case CheckChunkNum e (mi_UserId req) (mi_Hash req) w of
        (Inl err, w) \<Rightarrow> (Inl err, w)
      | (Inr parts, w) \<Rightarrow>
     (let uploaded = map fc_ChunkIndex parts in
      case (if uploaded = [] then CreateUploadSession e req w else (Inr (), w)) of
        (Inl err, w) \<Rightarrow> (Inl err, w)
      | (Inr _, w) \<Rightarrow>
     (case last_session e (session_of e (mi_UserId req) (mi_Hash req)) w of
        (Inl _, w) \<Rightarrow> (Inr \<lparr>mr_Instant = False, mr_UploadID = '''', mr_Uploaded = uploaded\<rparr>, w)
      | (Inr session, w) \<Rightarrow>
          (Inr \<lparr>mr_Instant = False, mr_UploadID = us_UploadID session, mr_Uploaded = uploaded\<rparr>, w))))"

definition MultiPartFileInit :: "env \<Rightarrow> multipart_init \<Rightarrow> multipart_response step" where
  "MultiPartFileInit e req w =
     (case GetFileObjectByHash e (mi_Hash req) w of
        (Inl err, w) \<Rightarrow> if err = RecordNotFound then uploadFlow e req w else (Inl err, w)
      | (Inr obj, w) \<Rightarrow>
     (case isFileObjectAvailable e obj w of
        (Inl err, w) \<Rightarrow> (Inl err, w)
      | (Inr available, w) \<Rightarrow>
          if \<not> available then uploadFlow e req w else
     (case link_object e (mi_UserId req) (mi_ParentId req) (mi_FileName req) obj w of
        (Inl err, w) \<Rightarrow> (Inl err, w)
      | (Inr _, w) \<Rightarrow> (Inr \<lparr>mr_Instant = True, mr_UploadID = '''', mr_Uploaded = []\<rparr>, w))))"

definition chunk_path :: "string \<Rightarrow> int \<Rightarrow> string" where
  "chunk_path uploadID index = ''chunks/'' @ uploadID @ ''/'' @ show_int index"

definition UploadChunk :: "env \<Rightarrow> multipart_chunk \<Rightarrow> unit step" where
  "UploadChunk e req w =
     (case attempt e (\<lambda>w. (Inr (), w)) w of       \<comment> \<open>\<open>req.File.Open()\<close>\<close>
        (Inl err, w) \<Rightarrow> (Inl err, w)
      | (Inr _, w) \<Rightarrow>
     (let objectPath = chunk_path (mc_UploadID req) (mc_ChunkIndex req) in
      case PutObject e (mc_BucketName req) objectPath (mc_Contents req) w of
        (Inl err, w) \<Rightarrow> (Inl err, w)
      | (Inr _, w) \<Rightarrow>
          upsert_chunk e \<lparr>fc_ID = 0, fc_UploadID = mc_UploadID req, fc_ChunkIndex = mc_ChunkIndex req,
            fc_ChunkSize = int (length (mc_Contents req)), fc_ChunkPath = objectPath, fc_Status = 1,
            fc_CreatedAt = 0, fc_UpdatedAt = 0\<rparr> w))"

definition FindAllChunkFile :: "env \<Rightarrow> nat \<Rightarrow> multipart_complete \<Rightarrow> file_chunk list step" where
  "FindAllChunkFile e userID req w =
     (case last_session e (session_of e userID (mp_FileHash req)) w of
        (Inl err, w) \<Rightarrow> (Inl err, w)
      | (Inr session, w) \<Rightarrow>
     (case find_chunks e (uploaded_chunk e (us_UploadID session)) w of
        (Inl err, w) \<Rightarrow> (Inl err, w)
      | (Inr parts, w) \<Rightarrow> (Inr (sort_key fc_ChunkIndex parts), w)))"

section \<open>Completion\<close>

fun remove_chunk_objects :: "env \<Rightarrow> file_chunk list \<Rightarrow> world \<Rightarrow> world" where
  "remove_chunk_objects e [] w = w"
| "remove_chunk_objects e (c # cs) w = remove_chunk_objects e cs
     (snd (RemoveStoreObject e (BucketName (AppConfig e)) (fc_ChunkPath c) w))"

definition cleanupUploadData :: "env \<Rightarrow> nat \<Rightarrow> multipart_complete \<Rightarrow> file_chunk list \<Rightarrow> world \<Rightarrow> world" where
  "cleanupUploadData e userId req parts w =
     (let w = remove_chunk_objects e parts w in
      case last_session e (session_of e userId (mp_FileHash req)) w of
        (Inl _, w) \<Rightarrow> w
      | (Inr session, w) \<Rightarrow>
          (let w = snd (delete_chunks e
                     (\<lambda>c. collate e (fc_UploadID c) = collate e (us_UploadID session)) w)
           in snd (delete_session e (us_ID session) w)))"

definition writeObject :: "env \<Rightarrow> multipart_complete \<Rightarrow> file_chunk list \<Rightarrow> string \<Rightarrow> unit step" where
  "writeObject e req parts objectName w =
     (let bucket = BucketName (AppConfig e) in
      if mp_TotalChunks req = 0 then
        (if mp_FileSize req \<noteq> 0 then (Inl (Errorf ''invalid total_chunks''), w)
         else PutObject e bucket objectName '''' w)
      else ComposeObject e (bucket, objectName) (map (\<lambda>c. (bucket, fc_ChunkPath c)) parts) w)"

text \<open>The object to reference: the one known under the hash, restored in the store if it is gone
  from there, or a new one. The flag tells whether the object is new.\<close>

definition restore_object :: "env \<Rightarrow> multipart_complete \<Rightarrow> file_chunk list \<Rightarrow> file_object \<Rightarrow> unit step" where
  "restore_object e req parts existingObj w =
     (let bucket = BucketName (AppConfig e); dstObject = fo_ObjectName existingObj in
      case writeObject e req parts dstObject w of
        (Inl err, w) \<Rightarrow> (Inl err, w)
      | (Inr _, w) \<Rightarrow>
     (case update_objects e (\<lambda>r. fo_ID r = fo_ID existingObj)
             (\<lambda>r. r\<lparr>fo_BucketName := bucket, fo_ObjectName := dstObject, fo_Size := mp_FileSize req\<rparr>) w of
        (Inl err, w) \<Rightarrow> (Inl err, w)
      | (Inr _, w) \<Rightarrow>
          (let w = (if fo_BucketName existingObj \<noteq> bucket
                    then InvalidateFileObjectPathCache e (fo_BucketName existingObj)
                           (fo_ObjectName existingObj) w else w)
           in (Inr (), cacheFileObject e (existingObj\<lparr>fo_BucketName := bucket,
                 fo_ObjectName := dstObject, fo_Size := mp_FileSize req\<rparr>) w))))"

definition obtain_object ::
  "env \<Rightarrow> nat \<Rightarrow> string \<Rightarrow> multipart_complete \<Rightarrow> file_chunk list \<Rightarrow> (nat \<times> bool) step" where
  "obtain_object e userId userName req parts w =
     (case GetFileObjectByHash e (mp_FileHash req) w of
        (Inl err, w) \<Rightarrow>
          if err \<noteq> RecordNotFound then (Inl err, w) else
         (let dstObject = BuildObjectName userName (mp_FileHash req);
              bucket = BucketName (AppConfig e) in
          case writeObject e req parts dstObject w of
            (Inl err, w) \<Rightarrow> (Inl err, w)
          | (Inr _, w) \<Rightarrow>
         (case CreateFilesObject e \<lparr>fo_ID = 0, fo_UserID = userId, fo_Hash = mp_FileHash req,
                 fo_BucketName = bucket, fo_ObjectName = dstObject, fo_Size = mp_FileSize req,
                 fo_RefCount = 1, fo_CreatedAt = 0\<rparr> w of
            (Inl err, w) \<Rightarrow> (Inl err, snd (RemoveStoreObject e bucket dstObject w))
          | (Inr obj, w) \<Rightarrow> (Inr (fo_ID obj, True), w)))
      | (Inr existingObj, w) \<Rightarrow>
     (case isFileObjectAvailable e existingObj w of
        (Inl err, w) \<Rightarrow> (Inl err, w)
      | (Inr available, w) \<Rightarrow>
     (case (if available then (Inr (), w) else restore_object e req parts existingObj w) of
        (Inl err, w) \<Rightarrow> (Inl err, w)
      | (Inr _, w) \<Rightarrow>
     (case IncreaseRefCount e (fo_ID existingObj) w of
        (Inl err, w) \<Rightarrow> (Inl err, w)
      | (Inr _, w) \<Rightarrow> (Inr (fo_ID existingObj, False), w)))))"

definition rollback_object :: "env \<Rightarrow> string \<Rightarrow> multipart_complete \<Rightarrow> nat \<Rightarrow> bool \<Rightarrow> world \<Rightarrow> world" where
  "rollback_object e userName req objectID createdNewObject w =
     (if createdNewObject then
        (let w = snd (RemoveStoreObject e (BucketName (AppConfig e))
                   (BuildObjectName userName (mp_FileHash req)) w)
         in snd (delete_object e objectID w))
      else snd (DecreaseRefCount e objectID w))"

definition CompleteFile :: "env \<Rightarrow> multipart_complete \<Rightarrow> string \<Rightarrow> unit step" where
  "CompleteFile e req userName w =
     (case FindIdByUsername e userName w of
        (Inl err, w) \<Rightarrow> (Inl err, w)
      | (Inr userId, w) \<Rightarrow>
     (case FindAllChunkFile e userId req w of
        (Inl err, w) \<Rightarrow> (Inl err, w)
      | (Inr parts, w) \<Rightarrow>
          if int (length parts) \<noteq> mp_TotalChunks req then (Inl (Errorf ''chunks not complete''), w) else
     (case obtain_object e userId userName req parts w of
        (Inl err, w) \<Rightarrow> (Inl err, w)
      | (Inr (objectID, createdNewObject), w) \<Rightarrow>
     (case CreateUserFileEntry e (new_file userId (parentOf (mp_ParentId req)) (mp_FileName req) False
             (Some objectID) (mp_FileSize req)) w of
        (Inl err, w) \<Rightarrow> (Inl err, rollback_object e userName req objectID createdNewObject w)
      | (Inr _, w) \<Rightarrow> (Inr (), cleanupUploadData e userId req parts w)))))"

section \<open>Counting and uncounting\<close>

lemma owes_done: "(owes k)(k := owes k k - 1) = none"
  by (simp add: fun_eq_iff)

lemma DecreaseRefCount_rollback:
  assumes "DecreaseRefCount e k w = (r, w')" and "ref_rel x (owes k) (db w)"
    and "db_wf (collate e) (db w)" and "x \<Longrightarrow> fault e = (\<lambda>_. False)"
    and "\<And>ob. x \<Longrightarrow> ob \<in> set (rows (objects (db w))) \<Longrightarrow> fo_ID ob = k \<Longrightarrow> 2 \<le> fo_RefCount ob"
  shows "ref_rel x none (db w') \<and> files (db w') = files (db w)"
proof (cases x)
  case False
  with DecreaseRefCount_safe [OF assms(1), of "owes k", unfolded owes_done] assms(2)
  show ?thesis by simp
next
  case True
  show ?thesis
  proof (cases r)
    case (Inr n)
    with DecreaseRefCount_exact [of e k w n w' "owes k", unfolded owes_done] assms True
    show ?thesis by simp
  next
    case (Inl err)
    have none: "fo_ID ob \<noteq> k" if ob: "ob \<in> set (rows (objects (db w)))" for ob
    proof
      assume k: "fo_ID ob = k"
      from first_object_key_no_fault [OF assms(4) [OF True] assms(3) ob] k
      have "first_object e (\<lambda>r. fo_ID r = k) w = (Inr ob, w\<lparr>requests := Suc (requests w)\<rparr>)" by simp
      moreover have "db_valid (collate e) (db w)" using assms(3) by (simp add: db_wf_def)
      note db_valid_update_count [OF this]
      ultimately show False
        using assms(1,4) [unfolded Inl] True Inl
        by (auto simp: DecreaseRefCount_def update_objects_def execute_no_fault split: if_splits)
    qed
    from Inl assms(1) DecreaseRefCount_InlD have "db w' = db w" by blast
    with assms(2) True none show ?thesis by (auto simp: ref_rel_def)
  qed
qed

text \<open>Appending the row of a new file uses up one owed reference.\<close>

definition appended :: "world \<Rightarrow> user_file \<Rightarrow> nat \<Rightarrow> world \<Rightarrow> bool" where
  "appended w f i w' \<longleftrightarrow> (\<exists>t. frows w' = frows w @
     [f\<lparr>uf_ID := i, uf_CreatedAt := t, uf_UpdatedAt := t\<rparr>]) \<and> objects (db w') = objects (db w)"

lemma appended_refs:
  "appended w f i w' \<Longrightarrow> refs (db w') k = refs (db w) k + (if uf_ObjectID f = Some k then 1 else 0)"
  by (auto simp: appended_def refs_def)

lemma appended_rel:
  assumes "appended w f i w'" and "ref_rel x s (db w)"
  shows "ref_rel x (case uf_ObjectID f of None \<Rightarrow> s | Some k \<Rightarrow> s(k := s k - 1)) (db w')"
  using assms appended_refs [OF assms(1)]
  by (auto simp: ref_rel_def appended_def split: option.splits if_splits)

lemma CreateUserFileEntry_file:
  assumes "CreateUserFileEntry e (new_file u p nm False (Some k) sz) w = (r, w')"
  shows "store w' = store w \<and> wf_step e w w' \<and>
    (case r of Inl _ \<Rightarrow> tree (db w') = tree (db w)
     | Inr i \<Rightarrow> appended w (new_file u p nm False (Some k) sz) i w' \<and> shares (db w') = shares (db w)
         \<and> i = next_key (files (db w)))"
proof -
  let ?f = "new_file u p nm False (Some k) sz"
  have f: "CreateUserFileEntry e ?f w = CreateUserFile e ?f w" "uf_ObjectID ?f \<noteq> None"
    "uf_UserID ?f = u" "uf_ParentID ?f = p" "uf_Size ?f = sz"
    "new_file (uf_UserID ?f) (uf_ParentID ?f) (uf_Name ?f) False (uf_ObjectID ?f) (uf_Size ?f) = ?f"
    by (simp_all add: CreateUserFileEntry_def new_file_def)
  obtain y w1 where c: "create_file e ?f w = (y, w1)" by fastforce
  note fr = create_file_frame [OF c] and wf = statement_wf(1) [OF c]
  show ?thesis
  proof (cases y)
    case (Inl err)
    with assms f c fr wf create_file_InlD [OF c [unfolded Inl]] show ?thesis
      by (auto simp: CreateUserFile_def)
  next
    case (Inr i)
    note cd = create_file_InrD [OF c [unfolded Inr]]
    let ?w2 = "invalidateFileListCache e u p w1"
    obtain z w3 where em: "Emit e u ActionUpload i sz ?w2 = (z, w3)" by fastforce
    with assms f c Inr have w': "w' = w3" "r = Inr i" by (simp_all add: CreateUserFile_def Let_def)
    have od: "only_daily e w1 w3" by (rule only_daily_cong [OF Emit_only [OF em]]) simp_all
    have t: "tree (db w3) = tree (db w1)" by (rule only_daily_tree [OF od])
    have "appended w ?f i w3 \<and> shares (db w3) = shares (db w)"
      using t cd by (auto simp: appended_def insert_row_def new_file_def)
    with w' cd od fr wf show ?thesis by (auto simp: only_daily_def)
  qed
qed

lemma IncreaseRefCount_objects:
  assumes "IncreaseRefCount e k w = (Inr v, w')"
  shows "objects (db w') = update_rows (\<lambda>r. fo_ID r = k) (\<lambda>r. r\<lparr>fo_RefCount := fo_RefCount r + 1\<rparr>)
      (objects (db w)) \<and> files (db w') = files (db w)"
  using assms unfolding IncreaseRefCount_def update_objects_def
  by (elim seqE) (auto dest!: execute_okD)

lemma paths_update_count:
  assumes "paths_distinct d" and "objects d' = update_rows p (\<lambda>r. r\<lparr>fo_RefCount := g r\<rparr>) (objects d)"
  shows "paths_distinct d'"
  using paths_distinct_update [OF assms(1) [unfolded paths_distinct_def], of _ p]
  unfolding paths_distinct_def assms(2) update_rows_def by simp

lemma DecreaseRefCount_paths:
  assumes "DecreaseRefCount e k w = (r, w')" and "paths_distinct (db w)"
  shows "paths_distinct (db w')"
proof (cases r)
  case (Inl err)
  with assms DecreaseRefCount_InlD show ?thesis by metis
next
  case (Inr n)
  from assms(1) [unfolded Inr] show ?thesis
  proof (cases rule: DecreaseRefCount_cases)
    case (1 r)
    from paths_update_count [OF assms(2), of "db w'" "\<lambda>r. fo_ID r = k" "\<lambda>r. fo_RefCount r - 1"] 1
    show ?thesis by simp
  next
    case (2 r)
    with assms(2) show ?thesis by simp
  qed
qed

lemma appended_sound:
  assumes "appended w (new_file u p nm False (Some k) sz) i w'" and "ref_rel x (owes k) (db w)"
    and "paths_distinct (db w)" and "db_wf (collate e) (db w')"
    and "x \<longrightarrow> fault e = (\<lambda>_. False) \<and> (\<forall>f\<in>set (frows w). uf_IsDir f \<longrightarrow> uf_ObjectID f = None)"
  shows "sound x e w'"
proof -
  have "ref_rel x none (db w')"
    using appended_rel [OF assms(1,2)] by (simp only: new_file_def user_file.simps option.case owes_done)
  with assms show ?thesis
    by (auto simp: sound_def appended_def paths_distinct_def new_file_def)
qed

lemma CreateUserFileEntry_sound:
  assumes "CreateUserFileEntry e (new_file u p nm False (Some k) sz) w = (r, w')"
    and "ref_rel x (owes k) (db w)" and "paths_distinct (db w)" and "db_wf (collate e) (db w)"
    and "x \<longrightarrow> fault e = (\<lambda>_. False) \<and> (\<forall>f\<in>set (frows w). uf_IsDir f \<longrightarrow> uf_ObjectID f = None)"
  shows "store w' = store w \<and> db_wf (collate e) (db w') \<and>
    (case r of Inl _ \<Rightarrow> tree (db w') = tree (db w) | Inr _ \<Rightarrow> sound x e w')"
  using CreateUserFileEntry_file [OF assms(1)] assms
  by (cases r) (auto intro: appended_sound)

lemma link_object_sound:
  assumes "link_object e u pid nm obj w = (r, w')" and "sound x e w"
  shows "sound x e w' \<and> store w' = store w"
proof -
  let ?k = "fo_ID obj"
  let ?f = "new_file u (parentOf pid) nm False (Some ?k) (fo_Size obj)"
  from assms(2) have s: "ref_rel x none (db w)" "db_wf (collate e) (db w)" "paths_distinct (db w)"
    and xs: "x \<longrightarrow> fault e = (\<lambda>_. False) \<and> (\<forall>f\<in>set (frows w). uf_IsDir f \<longrightarrow> uf_ObjectID f = None)"
    by (auto simp: sound_def)
  obtain y w1 where i: "IncreaseRefCount e ?k w = (y, w1)" by fastforce
  note st1 = IncreaseRefCount_store [OF i] and wf1 = IncreaseRefCount_wf [OF i, rule_format, OF s(2)]
  show ?thesis
  proof (cases y)
    case (Inl err)
    with assms i st1 IncreaseRefCount_InlD [OF i [unfolded Inl]] show ?thesis
      by (auto simp: link_object_def sound_def)
  next
    case (Inr v)
    note ob = IncreaseRefCount_objects [OF i [unfolded Inr]]
    have rel1: "ref_rel x (owes ?k) (db w1)"
      using IncreaseRefCount_rel [of e ?k w w1 x none] i Inr s(1) by simp
    have p1: "paths_distinct (db w1)" by (rule paths_update_count [OF s(3) conjunct1 [OF ob]])
    have x1: "x \<longrightarrow> fault e = (\<lambda>_. False) \<and> (\<forall>f\<in>set (frows w1). uf_IsDir f \<longrightarrow> uf_ObjectID f = None)"
      using xs ob by simp
    obtain z w2 where c: "CreateUserFileEntry e ?f w1 = (z, w2)" by fastforce
    note cs = CreateUserFileEntry_sound [OF c rel1 p1 wf1 x1]
    show ?thesis
    proof (cases z)
      case (Inr j)
      with assms(1) i \<open>y = Inr v\<close> c cs st1 show ?thesis by (auto simp: link_object_def)
    next
      case (Inl err)
      obtain q w3 where d: "DecreaseRefCount e ?k w2 = (q, w3)" by fastforce
      with assms(1) i \<open>y = Inr v\<close> c Inl have w': "w' = w3" by (simp add: link_object_def)
      have t2: "tree (db w2) = tree (db w1)" and wf2: "db_wf (collate e) (db w2)" using cs Inl by auto
      have rel2: "ref_rel x (owes ?k) (db w2)" using rel1 ref_rel_cong t2 by (metis tree_eq)
      have two: "2 \<le> fo_RefCount r" if "x" "r \<in> set (rows (objects (db w2)))" "fo_ID r = ?k" for r
      proof -
        from that t2 ob obtain r0 where "r0 \<in> set (rows (objects (db w)))" "fo_ID r0 = ?k"
          "fo_RefCount r = fo_RefCount r0 + 1" by (auto simp: update_rows_def split: if_splits)
        with s(1) that(1) show ?thesis by (auto simp: ref_rel_def)
      qed
      have "ref_rel x none (db w3) \<and> files (db w3) = files (db w2)"
        by (rule DecreaseRefCount_rollback [OF d rel2 wf2]) (use xs two in auto)
      moreover have "paths_distinct (db w3)"
        by (rule DecreaseRefCount_paths [OF d]) (use p1 t2 in \<open>simp add: paths_distinct_def\<close>)
      ultimately show ?thesis
        using w' DecreaseRefCount_store [OF d] DecreaseRefCount_wf [OF d] wf2 cs st1 x1 t2
        by (auto simp: sound_def)
    qed
  qed
qed

section \<open>Instant uploads keep the counts\<close>

text \<open>What the cache says of objects agrees with the table, up to the reference count, which is
  never read from the cache.\<close>

definition coherent :: "env \<Rightarrow> world \<Rightarrow> bool" where
  "coherent e w \<longleftrightarrow>
     (\<forall>k ob exp. map_of (redis w) (file_object_key k) = Some (RObject ob, exp) \<longrightarrow> fo_ID ob = k
        \<and> (\<forall>r\<in>set (rows (objects (db w))). fo_ID r = k \<longrightarrow> r = ob\<lparr>fo_RefCount := fo_RefCount r\<rparr>))
   \<and> (\<forall>h k exp. map_of (redis w) (file_object_hash_key h) = Some (RNum k, exp) \<longrightarrow>
        (\<forall>r\<in>set (rows (objects (db w))). fo_ID r = k \<longrightarrow> collate e (fo_Hash r) = collate e h))"

lemma redis_get_now: "redis_get e k w = (Inr v, w') \<Longrightarrow> \<exists>exp. map_of (redis w) k = Some (v, exp)"
  by (auto simp: redis_get_def attempt_def Let_def redis_now_def split: if_splits option.splits)

lemma redis_get_redis: "redis_get e k w = (r, w') \<Longrightarrow> redis w' = redis w"
  by (auto simp: redis_get_def attempt_def Let_def split: if_splits option.splits)

lemma GetFileObjectById_agrees:
  assumes "GetFileObjectById e k w = (Inr ob, w')" and "coherent e w" and "db_wf ck (db w)"
  shows "fo_ID ob = k \<and> (\<forall>r\<in>set (rows (objects (db w))). fo_ID r = k \<longrightarrow> r = ob\<lparr>fo_RefCount := fo_RefCount r\<rparr>)"
proof -
  obtain c w1 where c: "GetFileObjectFromCache e k w = (c, w1)" by fastforce
  show ?thesis
  proof (cases c)
    case (Some ob')
    with c obtain exp where "map_of (redis w) (file_object_key k) = Some (RObject ob', exp)"
      by (auto simp: GetFileObjectFromCache_def split: prod.splits sum.splits rval.splits
          dest!: redis_get_now)
    moreover have "ob = ob'" using assms(1) c Some by (simp add: GetFileObjectById_def)
    ultimately show ?thesis using assms(2) by (auto simp: coherent_def)
  next
    case None
    with assms(1) c obtain w2 where f: "first_object e (\<lambda>r. fo_ID r = k) w1 = (Inr ob, w2)"
      by (auto simp: GetFileObjectById_def split: prod.splits sum.splits)
    from first_object_InrD [OF f] cache_read_frame(3) [OF c]
    have ob: "ob \<in> set (rows (objects (db w)))" "fo_ID ob = k" by auto
    have "r = ob\<lparr>fo_RefCount := fo_RefCount r\<rparr>" if "r \<in> set (rows (objects (db w)))" "fo_ID r = k" for r
      using db_wf_object_key [OF assms(3) that(1) ob(1)] that(2) ob(2) by simp
    with ob show ?thesis by simp
  qed
qed

lemma GetFileObjectByHash_agrees:
  assumes "GetFileObjectByHash e h w = (Inr ob, w')" and "coherent e w" and "db_wf ck (db w)"
  shows "\<forall>r\<in>set (rows (objects (db w))). fo_ID r = fo_ID ob \<longrightarrow>
    r = ob\<lparr>fo_RefCount := fo_RefCount r\<rparr> \<and> collate e (fo_Hash r) = collate e h"
proof -
  have db_case: "\<forall>r\<in>set (rows (objects (db w1))). fo_ID r = fo_ID ob \<longrightarrow>
      r = ob\<lparr>fo_RefCount := fo_RefCount r\<rparr> \<and> collate e (fo_Hash r) = collate e h"
    if "GetFileObjectByHash_db e h w1 = (Inr ob, w2)" "db w1 = db w" for w1 w2
  proof -
    from that obtain w3 where f: "first_object e (\<lambda>r. collate e (fo_Hash r) = collate e h) w1 = (Inr ob, w3)"
      unfolding GetFileObjectByHash_db_def by (elim seqE) auto
    from first_object_InrD [OF f] db_wf_object_key [OF assms(3)] that(2) show ?thesis by fastforce
  qed
  obtain c w1 where c: "GetFileObjectIDByHash e h w = (c, w1)" by fastforce
  then have rd: "redis w1 = redis w"
    by (auto simp: GetFileObjectIDByHash_def split: prod.splits sum.splits rval.splits if_splits
        dest!: redis_get_redis)
  have db1: "db w1 = db w" using cache_read_frame(4) [OF c] by simp
  show ?thesis
  proof (cases c)
    case None
    with assms(1) c db_case db1 show ?thesis by (auto simp: GetFileObjectByHash_def)
  next
    case (Some k)
    with c obtain exp where hk: "map_of (redis w) (file_object_hash_key h) = Some (RNum k, exp)"
      by (auto simp: GetFileObjectIDByHash_def split: prod.splits sum.splits rval.splits if_splits
          dest!: redis_get_now)
    obtain y w2 where g: "GetFileObjectById e k w1 = (y, w2)" by fastforce
    show ?thesis
    proof (cases y)
      case (Inr ob')
      have "coherent e w1" using assms(2) rd db1 by (simp add: coherent_def)
      from GetFileObjectById_agrees [OF g [unfolded Inr] this, of ck] assms(1-3) c Some g Inr hk db1
      show ?thesis by (auto simp: GetFileObjectByHash_def coherent_def)
    next
      case (Inl err)
      with assms(1) c Some g have "GetFileObjectByHash_db e h (InvalidateFileObjectHashCache e h w2) = (Inr ob, w')"
        by (auto simp: GetFileObjectByHash_def split: if_splits)
      from db_case [OF this] GetFileObjectById_core [OF g] db1 show ?thesis by simp
    qed
  qed
qed

lemma sound_core: "core w' = core w \<Longrightarrow> sound x e w' = sound x e w"
  by (simp add: sound_def)

lemma isFileObjectAvailable_sound:
  "isFileObjectAvailable e ob w = (r, w') \<Longrightarrow> sound x e w' = sound x e w \<and> store w' = store w \<and> db w' = db w"
  by (drule isFileObjectAvailable_frame) (simp add: sound_def)

lemma FastUpload_cases:
  assumes "FastUpload e req w = (r, w')"
  obtains "db w' = db w" "store w' = store w" "\<And>a. r = Inr a \<Longrightarrow> \<not> fu_Instant a"
  | obj w1 w2 z where "GetFileObjectByHash e (ub_Hash req) w = (Inr obj, w1)" "db w2 = db w" "store w2 = store w"
      "link_object e (ub_UserId req) (ub_ParentId req) (ub_FileName req) obj w2 = (z, w')"
      "obj_get (path obj) w \<noteq> None"
      "r = (case z of Inl err \<Rightarrow> Inl err | Inr k \<Rightarrow>
         Inr \<lparr>fu_Instant = True, fu_NeedUpload = False, fu_Reason = '''', fu_FileId = k\<rparr>)"
  using assms unfolding FastUpload_def
proof (elim stepE if_eqE, goal_cases)
  case (1 err w1)
  with GetFileObjectByHash_core [OF 1(3)] show ?case by (intro 1(1)) (auto simp: needUpload_def)
next
  case (2 err w1)
  with GetFileObjectByHash_core [OF 2(3)] show ?case by (intro 2(1)) auto
next
  case (3 obj w1)
  with GetFileObjectByHash_core [OF 3(3)] show ?case by (intro 3(1)) (auto simp: needUpload_def)
next
  case (4 obj w1 err w2)
  with GetFileObjectByHash_core [OF 4(3)] isFileObjectAvailable_frame [OF 4(5)] show ?case by auto
next
  case (5 obj w1 av w2)
  with GetFileObjectByHash_core [OF 5(3)] isFileObjectAvailable_frame [OF 5(5)] show ?case
    by (intro 5(1)) (auto simp: needUpload_def)
next
  case (6 obj w1 av w2 err w3)
  with GetFileObjectByHash_core [OF 6(3)] isFileObjectAvailable_frame [OF 6(5)] show ?case
    by (intro 6(2) [of obj w1 w2 "Inl err"]) (auto simp: obj_get_def)
next
  case (7 obj w1 av w2 k w3)
  with GetFileObjectByHash_core [OF 7(3)] isFileObjectAvailable_frame [OF 7(5)] show ?case
    by (intro 7(2) [of obj w1 w2 "Inr k"]) (auto simp: obj_get_def)
qed

lemma link_object_Inr:
  assumes "link_object e u pid nm obj w = (Inr k, w')" and "db_wf (collate e) (db w)"
  shows "(\<exists>t. frows w' = frows w @ [(new_file u (parentOf pid) nm False (Some (fo_ID obj)) (fo_Size obj))
        \<lparr>uf_ID := k, uf_CreatedAt := t, uf_UpdatedAt := t\<rparr>])
    \<and> objects (db w') = update_rows (\<lambda>r. fo_ID r = fo_ID obj)
        (\<lambda>r. r\<lparr>fo_RefCount := fo_RefCount r + 1\<rparr>) (objects (db w))
    \<and> db_wf (collate e) (db w') \<and> store w' = store w"
proof -
  let ?f = "new_file u (parentOf pid) nm False (Some (fo_ID obj)) (fo_Size obj)"
  from assms obtain v w1 where i: "IncreaseRefCount e (fo_ID obj) w = (Inr v, w1)"
    and c: "CreateUserFileEntry e ?f w1 = (Inr k, w')"
    by (auto simp: link_object_def split: prod.splits sum.splits)
  note ob = IncreaseRefCount_objects [OF i]
  have "db_wf (collate e) (db w1)" using IncreaseRefCount_wf [OF i] assms(2) by blast
  with CreateUserFileEntry_file [OF c] have "appended w1 ?f k w'" "db_wf (collate e) (db w')"
    "store w' = store w1" by auto
  with ob IncreaseRefCount_store [OF i] show ?thesis by (auto simp: appended_def)
qed

text \<open>An instant upload, whatever the cache answers and whichever requests fail, keeps the
  database well formed and every object's count at least the number of its files; without faults
  it keeps the counts exact, also when the new file is refused and the count is taken back. It
  never touches the contents of the store.\<close>
theorem FastUpload_keeps_counts:
  assumes "sound x e w" and "FastUpload e req w = (r, w')"
  shows "sound x e w' \<and> store w' = store w"
  using assms(2)
proof (cases rule: FastUpload_cases)
  case 1
  with assms(1) show ?thesis by (simp add: sound_def)
next
  case (2 obj w1 w2 z)
  with assms(1) have "sound x e w2" by (simp add: sound_def)
  from link_object_sound [OF 2(4) this] 2(3) show ?thesis by simp
qed

text \<open>An instant upload creates a file exactly when it answers \<open>instant\<close>: one file of the
  caller, with the requested name and parent, on an object whose hash is the requested one and
  whose contents are in the store; otherwise no file and no object changes.\<close>
theorem FastUpload_links_hash:
  assumes "db_wf (collate e) (db w)" and "coherent e w" and "FastUpload e req w = (Inr a, w')"
  shows "if fu_Instant a then
      \<exists>obj t. frows w' = frows w @ [(new_file (ub_UserId req) (parentOf (ub_ParentId req))
          (ub_FileName req) False (Some (fo_ID obj)) (fo_Size obj))
          \<lparr>uf_ID := fu_FileId a, uf_CreatedAt := t, uf_UpdatedAt := t\<rparr>]
        \<and> obj_get (fo_BucketName obj, fo_ObjectName obj) w' \<noteq> None
        \<and> (\<exists>r\<in>set (rows (objects (db w'))). fo_ID r = fo_ID obj)
        \<and> (\<forall>r\<in>set (rows (objects (db w'))). fo_ID r = fo_ID obj \<longrightarrow> path r = path obj
            \<and> fo_Size r = fo_Size obj \<and> collate e (fo_Hash r) = collate e (ub_Hash req))
    else db w' = db w"
  using assms(3)
proof (cases rule: FastUpload_cases)
  case 1
  then show ?thesis by auto
next
  case (2 obj w1 w2 z)
  then obtain k where z: "z = Inr k" and a: "fu_Instant a" "fu_FileId a = k"
    by (cases z) auto
  have "db_wf (collate e) (db w2)" using assms(1) 2(2) by simp
  note l = link_object_Inr [OF 2(4) [unfolded z] this]
  note ag = GetFileObjectByHash_agrees [OF 2(1) assms(2,1)]
  let ?f = "new_file (ub_UserId req) (parentOf (ub_ParentId req)) (ub_FileName req) False
      (Some (fo_ID obj)) (fo_Size obj)"
  from l 2(2) obtain t where t: "frows w' = frows w @ [?f\<lparr>uf_ID := k, uf_CreatedAt := t, uf_UpdatedAt := t\<rparr>]"
    and o': "objects (db w') = update_rows (\<lambda>r. fo_ID r = fo_ID obj)
        (\<lambda>r. r\<lparr>fo_RefCount := fo_RefCount r + 1\<rparr>) (objects (db w))"
    and v: "db_valid (collate e) (db w')" and st: "store w' = store w2"
    by (auto simp: db_wf_def)
  have "has_key fo_ID (objects (db w')) (fo_ID obj)"
    using v t by (auto simp: db_valid_def user_file_fk_def new_file_def)
  moreover have "path r = path obj \<and> fo_Size r = fo_Size obj \<and> collate e (fo_Hash r) = collate e (ub_Hash req)"
    if r: "r \<in> set (rows (objects (db w')))" "fo_ID r = fo_ID obj" for r
  proof -
    from r o' obtain r0 where r0: "r0 \<in> set (rows (objects (db w)))" "fo_ID r0 = fo_ID obj"
      "r = r0\<lparr>fo_RefCount := fo_RefCount r0 + 1\<rparr>" by (auto simp: update_rows_def split: if_splits)
    with ag have "r0 = obj\<lparr>fo_RefCount := fo_RefCount r0\<rparr>" "collate e (fo_Hash r0) = collate e (ub_Hash req)"
      by auto
    then show ?thesis unfolding r0(3) by (metis file_object.select_convs file_object.surjective file_object.update_convs(7))
  qed
  moreover have "obj_get (path obj) w' \<noteq> None"
    using 2(3,5) st by (simp add: obj_get_def)
  ultimately show ?thesis using a t by (auto simp: has_key_iff)
qed


abbreviation fast_upload1 :: upload_by_hash where
  "fast_upload1 \<equiv> \<lparr>ub_UserId = 1, ub_FileName = ''n'', ub_Size = 3, ub_Hash = ''h'', ub_ParentId = 0\<rparr>"

lemma FastUpload_world1:
  "case FastUpload env0 fast_upload1 world1 of (Inr a, _) \<Rightarrow> fu_Instant a \<and> fu_FileId a = 4 | _ \<Rightarrow> False"
  by code_simp

lemma world1_coherent: "coherent env0 world1"
  by (simp add: coherent_def world1_def)

lemma FastUpload_keeps_counts_witness:
  "sound True env0 (snd (FastUpload env0 fast_upload1 world1))"
  using FastUpload_keeps_counts [OF world1_sound, of fast_upload1] by (metis prod.collapse)

lemma FastUpload_links_hash_witness:
  "\<exists>w'. frows w' \<noteq> frows world1 \<and> snd (FastUpload env0 fast_upload1 world1) = w'
    \<and> obj_get (''netdisk'', ''files/ann/h'') w' = Some ''abc''"
proof -
  from FastUpload_world1 obtain a w' where r: "FastUpload env0 fast_upload1 world1 = (Inr a, w')"
    and a: "fu_Instant a" by (auto split: prod.splits sum.splits)
  have wf: "db_wf (collate env0) (db world1)" using world1_sound by (simp add: sound_def)
  have "frows w' \<noteq> frows world1" using FastUpload_links_hash [OF wf world1_coherent r] a by auto
  moreover have "store w' = store world1" using FastUpload_keeps_counts [OF world1_sound r] by simp
  ultimately show ?thesis using r by (auto simp: obj_get_def world1_def)
qed

section \<open>Opening an upload\<close>

text \<open>What a statement on sessions and chunks keeps.\<close>

lemma upload_step:
  "create_session e r w = (x1, w') \<Longrightarrow> tree (db w') = tree (db w) \<and> svcs w' = svcs w \<and> wf_step e w w'"
  "delete_session e k w = (x2, w') \<Longrightarrow> tree (db w') = tree (db w) \<and> svcs w' = svcs w \<and> wf_step e w w'"
  "upsert_chunk e c w = (x2, w') \<Longrightarrow> tree (db w') = tree (db w) \<and> svcs w' = svcs w \<and> wf_step e w w'"
  "delete_chunks e p w = (x2, w') \<Longrightarrow> tree (db w') = tree (db w) \<and> svcs w' = svcs w \<and> wf_step e w w'"
  by (intro conjI, erule upload_tree, erule upload_frame, rule statement_wf, assumption)+

lemma uploadFlow_frame:
  assumes "uploadFlow e req w = (r, w')"
  shows "tree (db w') = tree (db w) \<and> store w' = store w \<and> wf_step e w w'"
proof -
  have ck: "db w2 = db w1 \<and> store w2 = store w1" if "CheckChunkNum e u h w1 = (y, w2)" for u h w1 y w2
    using that unfolding CheckChunkNum_def GetUploadSessionByHash_def find_chunks_def
    by (auto split: prod.splits sum.splits if_splits dest!: last_session_core queryD)
  have cs: "tree (db w2) = tree (db w1) \<and> store w2 = store w1 \<and> wf_step e w1 w2"
    if "CreateUploadSession e req w1 = (y, w2)" for w1 y w2
    using that unfolding CreateUploadSession_def GetToken_def Let_def prod.case
    by (elim seqE) (auto dest!: upload_step(1))
  show ?thesis
    using assms unfolding uploadFlow_def Let_def
    by (auto split: prod.splits sum.splits if_splits dest!: ck cs last_session_core)
qed

lemma sound_tree:
  "tree (db w') = tree (db w) \<Longrightarrow> wf_step e w w' \<Longrightarrow> sound x e w \<Longrightarrow> sound x e w'"
  using ref_rel_cong [of "db w'" "db w" x none] by (auto simp: sound_def paths_distinct_def)

text \<open>Opening a multipart upload keeps the counts in the same way, whether the hash is already
  known and a file is linked at once, or a session is opened or resumed; nothing is written to the
  store before the first chunk.\<close>
theorem MultiPartFileInit_keeps_counts:
  assumes "sound x e w" and "MultiPartFileInit e req w = (r, w')"
  shows "sound x e w' \<and> store w' = store w"
  using assms(2) unfolding MultiPartFileInit_def
proof (elim stepE if_eqE, goal_cases)
  case (1 err w1)
  with GetFileObjectByHash_core [OF 1(1)] uploadFlow_frame [of e req w1 r w'] assms(1)
  show ?case using sound_tree [of w' w1 e x] sound_core [of w1 w x e] by auto
next
  case (2 err w1)
  with GetFileObjectByHash_core [OF 2(1)] assms(1) sound_core [of w1 w x e] show ?case by auto
next
  case (3 ob w1 err w2)
  with GetFileObjectByHash_core [OF 3(1)] assms(1) isFileObjectAvailable_sound [OF 3(2), of x]
    sound_core [of w1 w x e] show ?case by auto
next
  case (4 ob w1 av w2)
  with GetFileObjectByHash_core [OF 4(1)] assms(1) isFileObjectAvailable_sound [OF 4(2), of x]
    sound_core [of w1 w x e] uploadFlow_frame [of e req w2 r w'] sound_tree [of w' w2 e x]
  show ?case by auto
next
  case (5 ob w1 av w2 err w3)
  with GetFileObjectByHash_core [OF 5(1)] assms(1) isFileObjectAvailable_sound [OF 5(2), of x]
    sound_core [of w1 w x e] link_object_sound [OF 5(4), of x] show ?case by auto
next
  case (6 ob w1 av w2 k w3)
  with GetFileObjectByHash_core [OF 6(1)] assms(1) isFileObjectAvailable_sound [OF 6(2), of x]
    sound_core [of w1 w x e] link_object_sound [OF 6(4), of x] show ?case by auto
qed

lemma MultiPartFileInit_keeps_counts_witness:
  "sound True env0 (snd (MultiPartFileInit env0 \<lparr>mi_UserId = 1, mi_FileName = ''n'', mi_Size = 3,
     mi_Hash = ''g'', mi_ChunkSize = 2, mi_TotalChunks = 2, mi_ParentId = 0\<rparr> world1))"
  using MultiPartFileInit_keeps_counts [OF world1_sound] by (metis prod.collapse)

end
