(* ===== verification/Completion.thy ===== *)
theory Completion
  imports Uploads
begin

text \<open>
  What completing a multipart upload guarantees: the reference counts stay right whichever step
  fails, and the object written holds the chunks in the order of their indices.
\<close>

section \<open>Counts\<close>

text \<open>The part of \<open>sound\<close> that does not depend on where objects are stored.\<close>

definition counted :: "bool \<Rightarrow> env \<Rightarrow> world \<Rightarrow> bool" where
  "counted x e w \<longleftrightarrow> db_wf (collate e) (db w) \<and> ref_rel x none (db w)
     \<and> (x \<longrightarrow> fault e = (\<lambda>_. False) \<and> (\<forall>f\<in>set (frows w). uf_IsDir f \<longrightarrow> uf_ObjectID f = None))"

lemma sound_counted: "sound x e w \<longleftrightarrow> counted x e w \<and> paths_distinct (db w)"
  by (auto simp: sound_def counted_def)

text \<open>A step that leaves the files alone and every count as it was.\<close>

definition quiet :: "env \<Rightarrow> world \<Rightarrow> world \<Rightarrow> bool" where
  "quiet e w w' \<longleftrightarrow> files (db w') = files (db w) \<and> wf_step e w w'
     \<and> map (\<lambda>r. (fo_ID r, fo_RefCount r)) (rows (objects (db w')))
       = map (\<lambda>r. (fo_ID r, fo_RefCount r)) (rows (objects (db w)))"

lemma quiet_db: "db w' = db w \<Longrightarrow> quiet e w w'"
  by (simp add: quiet_def)

lemma quiet_trans: "quiet e w w1 \<Longrightarrow> quiet e w1 w2 \<Longrightarrow> quiet e w w2"
  by (simp add: quiet_def)

lemma quiet_tree: "tree (db w') = tree (db w) \<Longrightarrow> wf_step e w w' \<Longrightarrow> quiet e w w'"
  by (simp add: quiet_def)

lemma ref_rel_pairs:
  "ref_rel x s d \<longleftrightarrow> (\<forall>(i, n)\<in>set (map (\<lambda>r. (fo_ID r, fo_RefCount r)) (rows (objects d))).
     if x then refs d i + s i = n \<and> 1 \<le> n else refs d i + s i \<le> n)"
  by (auto simp: ref_rel_def)

lemma quiet_rel: "quiet e w w' \<Longrightarrow> ref_rel x s (db w') = ref_rel x s (db w)"
  unfolding ref_rel_pairs quiet_def by (simp add: refs_def)

lemma quiet_counted: "quiet e w w' \<Longrightarrow> counted x e w \<Longrightarrow> counted x e w'"
  using quiet_rel [of e w w' x none] by (auto simp: counted_def quiet_def)

lemma writeObject_meta: "writeObject e req parts ob w = (r, w') \<Longrightarrow> meta w' = meta w"
  unfolding writeObject_def Let_def by (auto split: if_splits dest!: store_frame)

lemma update_place_quiet:
  assumes "update_objects e p (\<lambda>r. r\<lparr>fo_BucketName := b, fo_ObjectName := n, fo_Size := s\<rparr>) w = (r, w')"
  shows "quiet e w w'"
proof (cases r)
  case (Inl err)
  with assms update_objects_InlD show ?thesis by (metis quiet_db)
next
  case (Inr u)
  have "wf_step e w w'" by (rule update_objects_wf [OF assms]) simp
  moreover have "db w' = (db w)\<lparr>objects := update_rows p
      (\<lambda>r. r\<lparr>fo_BucketName := b, fo_ObjectName := n, fo_Size := s\<rparr>) (objects (db w))\<rparr>"
    using assms Inr unfolding update_objects_def by (auto dest!: execute_okD)
  ultimately show ?thesis by (simp add: quiet_def update_rows_def)
qed

lemma restore_object_quiet:
  assumes "restore_object e req parts ob w = (r, w')"
  shows "quiet e w w'"
  using assms unfolding restore_object_def Let_def
proof (elim seqE, goal_cases)
  case (1 err)
  with writeObject_meta [OF 1(1)] show ?case by (simp add: quiet_db)
next
  case (2 u w1 err)
  with writeObject_meta [OF 2(1)] have "quiet e w w1" by (simp add: quiet_db)
  with update_place_quiet [OF 2(2)] show ?case by (blast intro: quiet_trans)
next
  case (3 u w1 v w2)
  with writeObject_meta [OF 3(1)] have "quiet e w w1" by (simp add: quiet_db)
  moreover have "quiet e w1 w2" by (rule update_place_quiet [OF 3(2)])
  moreover have "quiet e w2 w'" using 3(3) by (intro quiet_db) auto
  ultimately show ?case by (blast intro: quiet_trans)
qed

text \<open>A new object, with the reference its creator is about to add.\<close>

lemma CreateFilesObject_rows:
  assumes "CreateFilesObject e \<lparr>fo_ID = 0, fo_UserID = u, fo_Hash = h, fo_BucketName = b,
      fo_ObjectName = n, fo_Size = s, fo_RefCount = 1, fo_CreatedAt = 0\<rparr> w = (Inr obj, w')"
  shows "fo_ID obj = next_key (objects (db w)) \<and> files (db w') = files (db w) \<and> store w' = store w
    \<and> wf_step e w w'
    \<and> (\<exists>t. rows (objects (db w')) = rows (objects (db w)) @ [\<lparr>fo_ID = fo_ID obj, fo_UserID = u, fo_Hash = h,
        fo_BucketName = b, fo_ObjectName = n, fo_Size = s, fo_RefCount = 1, fo_CreatedAt = t\<rparr>])"
proof -
  let ?o = "\<lparr>fo_ID = 0, fo_UserID = u, fo_Hash = h, fo_BucketName = b, fo_ObjectName = n, fo_Size = s,
      fo_RefCount = 1, fo_CreatedAt = 0\<rparr> :: file_object"
  from assms obtain k w1 where c: "create_object e ?o w = (Inr k, w1)"
    and k: "fo_ID obj = k" and w': "core w' = core w1"
    by (auto simp: CreateFilesObject_def Let_def split: prod.splits sum.splits)
  from c obtain t where
    d: "db w1 = (db w)\<lparr>objects := insert_row fo_set (?o\<lparr>fo_CreatedAt := t\<rparr>) (objects (db w))\<rparr>"
    and key: "k = next_key (objects (db w))"
    unfolding create_object_def by (auto dest!: execute_at_okD)
  have "rows (objects (db w')) = rows (objects (db w)) @ [?o\<lparr>fo_ID := k, fo_CreatedAt := t\<rparr>]"
    using w' d key by (simp add: insert_row_def)
  with k key w' d object_frame(1) [OF c] statement_wf(3) [OF c] show ?thesis by auto
qed

lemma CreateFilesObject_rel:
  assumes "CreateFilesObject e \<lparr>fo_ID = 0, fo_UserID = u, fo_Hash = h, fo_BucketName = b,
      fo_ObjectName = n, fo_Size = s, fo_RefCount = 1, fo_CreatedAt = 0\<rparr> w = (Inr obj, w')"
    and "db_wf (collate e) (db w)" and "ref_rel x none (db w)"
  shows "ref_rel x (owes (fo_ID obj)) (db w') \<and> refs (db w') (fo_ID obj) = 0
    \<and> files (db w') = files (db w) \<and> store w' = store w \<and> db_wf (collate e) (db w')"
proof -
  let ?k = "fo_ID obj"
  note c = CreateFilesObject_rows [OF assms(1)]
  then obtain t where rows: "rows (objects (db w')) = rows (objects (db w)) @ [\<lparr>fo_ID = ?k, fo_UserID = u,
      fo_Hash = h, fo_BucketName = b, fo_ObjectName = n, fo_Size = s, fo_RefCount = 1, fo_CreatedAt = t\<rparr>]"
    by blast
  have fresh: "fo_ID r < ?k" if "r \<in> set (rows (objects (db w)))" for r
    using assms(2) that c by (auto simp: db_wf_def keys_wf_def fot.keys_ok_def)
  have z: "refs (db w) ?k = 0"
    using db_wf_object [OF assms(2)] fresh by (fastforce simp: refs_def filter_empty_conv)
  have r: "refs (db w') j = refs (db w) j" for j using c by (simp add: refs_def)
  have "ref_rel x (owes ?k) (db w')"
    using assms(3) r z fresh unfolding ref_rel_def rows by fastforce
  with r z c assms(2) show ?thesis by auto
qed

lemma CreateFilesObject_InlD:
  assumes "CreateFilesObject e ob w = (Inl err, w')"
  shows "db w' = db w \<and> store w' = store w"
proof -
  from assms have c: "create_object e ob w = (Inl err, w')"
    by (auto simp: CreateFilesObject_def Let_def split: prod.splits sum.splits)
  from object_frame(1) [OF c] execute_at_InlD [OF c [unfolded create_object_def]] show ?thesis by simp
qed


lemma counted_db: "db w' = db w \<Longrightarrow> counted x e w \<Longrightarrow> counted x e w'"
  by (simp add: counted_def)

lemma update_rows_memD:
  "r \<in> set (rows (update_rows p f t)) \<Longrightarrow> \<exists>r0\<in>set (rows t). r = (if p r0 then f r0 else r0)"
  by (auto simp: update_rows_def)

text \<open>What holds between obtaining an object and creating the file: the object's count is one ahead.\<close>

definition obtained :: "bool \<Rightarrow> env \<Rightarrow> nat \<Rightarrow> bool \<Rightarrow> world \<Rightarrow> bool" where
  "obtained x e k new w \<longleftrightarrow> db_wf (collate e) (db w) \<and> ref_rel x (owes k) (db w)
     \<and> (new \<longrightarrow> refs (db w) k = 0)
     \<and> (x \<longrightarrow> fault e = (\<lambda>_. False) \<and> (\<forall>f\<in>set (frows w). uf_IsDir f \<longrightarrow> uf_ObjectID f = None)
          \<and> (\<not> new \<longrightarrow> (\<forall>r\<in>set (rows (objects (db w))). fo_ID r = k \<longrightarrow> 2 \<le> fo_RefCount r)))"

lemma obtained_tree:
  "tree (db w') = tree (db w) \<Longrightarrow> wf_step e w w' \<Longrightarrow> obtained x e k new w \<Longrightarrow> obtained x e k new w'"
  unfolding obtained_def tree_eq refs_def
  using ref_rel_cong [of "db w'" "db w" x "owes k"] by (elim conjE) (simp (no_asm_simp))

lemma IncreaseRefCount_obtained:
  assumes "IncreaseRefCount e k w = (Inr v, w')" and "counted x e w"
  shows "obtained x e k False w' \<and> files (db w') = files (db w)"
proof -
  note ob = IncreaseRefCount_objects [OF assms(1)]
  have rel: "ref_rel x (owes k) (db w')"
    using IncreaseRefCount_rel [of e k w w' x none] assms by (simp add: counted_def)
  have two: "2 \<le> fo_RefCount r" if "x" "r \<in> set (rows (objects (db w')))" "fo_ID r = k" for r
  proof -
    from update_rows_memD [OF that(2) [unfolded conjunct1 [OF ob]]] obtain r0
      where r0: "r0 \<in> set (rows (objects (db w)))"
        "r = (if fo_ID r0 = k then r0\<lparr>fo_RefCount := fo_RefCount r0 + 1\<rparr> else r0)" by blast
    have "1 \<le> fo_RefCount r0" using assms(2) that(1) r0(1) by (simp add: ref_rel_def counted_def)
    with r0(2) that(3) show ?thesis by (simp split: if_splits)
  qed
  have "db_wf (collate e) (db w')" using IncreaseRefCount_wf [OF assms(1)] assms(2) by (simp add: counted_def)
  with rel two assms(2) conjunct2 [OF ob] show ?thesis by (simp add: obtained_def counted_def)
qed

lemma restore_quiet:
  "(if available then (Inr (), w) else restore_object e req parts ob w) = (r, w') \<Longrightarrow> quiet e w w'"
  using restore_object_quiet by (cases available) (auto intro: quiet_db)

lemma new_object_counts:
  assumes "(if err \<noteq> RecordNotFound then (Inl err, w) else
      (case writeObject e req parts (BuildObjectName un (mp_FileHash req)) w of
         (Inl err, w) \<Rightarrow> (Inl err, w)
       | (Inr _, w) \<Rightarrow>
      (case CreateFilesObject e \<lparr>fo_ID = 0, fo_UserID = u, fo_Hash = mp_FileHash req,
              fo_BucketName = b, fo_ObjectName = BuildObjectName un (mp_FileHash req),
              fo_Size = mp_FileSize req, fo_RefCount = 1, fo_CreatedAt = 0\<rparr> w of
         (Inl err, w) \<Rightarrow> (Inl err, snd (RemoveStoreObject e b (BuildObjectName un (mp_FileHash req)) w))
       | (Inr obj, w) \<Rightarrow> (Inr (fo_ID obj, True), w)))) = (r, w')" and "counted x e w"
  shows "files (db w') = files (db w) \<and>
    (case r of Inl _ \<Rightarrow> counted x e w' | Inr (k, new) \<Rightarrow> obtained x e k new w')"
  using assms(1)
proof (elim stepE if_eqE, goal_cases)
  case 1
  with assms(2) show ?case by auto
next
  case (2 err1 w1)
  with writeObject_meta [OF 2(2)] assms(2) show ?case by (auto intro: counted_db)
next
  case (3 u1 w1 err1 w2)
  obtain y w4 where rm: "RemoveStoreObject e b (BuildObjectName un (mp_FileHash req)) w2 = (y, w4)"
    by fastforce
  with 3 writeObject_meta [OF 3(2)] CreateFilesObject_InlD [OF 3(3)] store_frame(3) [OF rm] assms(2)
  show ?case by (auto intro: counted_db)
next
  case (4 u1 w1 obj w2)
  from writeObject_meta [OF 4(2)] have "db w1 = db w" by simp
  with CreateFilesObject_rel [OF 4(3), of x] assms(2) 4 show ?case
    by (auto simp: obtained_def counted_def)
qed

lemma obtain_object_counts:
  assumes "obtain_object e u un req parts w = (r, w')" and "counted x e w"
  shows "files (db w') = files (db w) \<and>
    (case r of Inl _ \<Rightarrow> counted x e w' | Inr (k, new) \<Rightarrow> obtained x e k new w')"
  using assms(1) unfolding obtain_object_def Let_def
proof (elim stepE, goal_cases)
  case (1 err w1)
  from GetFileObjectByHash_core [OF 1(1)] have d: "db w1 = db w" by simp
  from new_object_counts [OF 1(2) counted_db [OF d assms(2)]] d show ?case by simp
next
  case (2 ob w1 err w2)
  with GetFileObjectByHash_core [OF 2(1)] isFileObjectAvailable_frame [OF 2(2)] assms(2) show ?case
    by (auto intro: counted_db)
next
  case (3 ob w1 av w2 err w3)
  from GetFileObjectByHash_core [OF 3(1)] isFileObjectAvailable_frame [OF 3(2)] have d: "db w2 = db w" by simp
  have q: "quiet e w2 w3" by (rule restore_quiet [OF 3(3)])
  from quiet_counted [OF q counted_db [OF d assms(2)]] q d 3(4) show ?case by (auto simp: quiet_def)
next
  case (4 ob w1 av w2 u1 w3 err w4)
  from GetFileObjectByHash_core [OF 4(1)] isFileObjectAvailable_frame [OF 4(2)] have d: "db w2 = db w" by simp
  have q: "quiet e w2 w3" by (rule restore_quiet [OF 4(3)])
  from quiet_counted [OF q counted_db [OF d assms(2)]] q d IncreaseRefCount_InlD [OF 4(4)] 4(5)
  show ?case by (auto simp: quiet_def intro: counted_db)
next
  case (5 ob w1 av w2 u1 w3 v w4)
  from GetFileObjectByHash_core [OF 5(1)] isFileObjectAvailable_frame [OF 5(2)] have d: "db w2 = db w" by simp
  have q: "quiet e w2 w3" by (rule restore_quiet [OF 5(3)])
  from IncreaseRefCount_obtained [OF 5(4) quiet_counted [OF q counted_db [OF d assms(2)]]] q d 5(5)
  show ?case by (auto simp: quiet_def)
qed

text \<open>Taking back the count of a known object, and taking back a new object.\<close>

lemma uncount_counts:
  assumes "obtained x e k False w"
  shows "counted x e (snd (DecreaseRefCount e k w)) \<and> files (db (snd (DecreaseRefCount e k w))) = files (db w)"
proof -
  obtain y w1 where d: "DecreaseRefCount e k w = (y, w1)" by fastforce
  have "ref_rel x none (db w1) \<and> files (db w1) = files (db w)"
    by (rule DecreaseRefCount_rollback [OF d]) (use assms in \<open>auto simp: obtained_def\<close>)
  with d assms DecreaseRefCount_wf [OF d] show ?thesis by (auto simp: counted_def obtained_def)
qed

lemma undo_new_counts:
  fixes e b n k and w
  defines "w' \<equiv> snd (delete_object e k (snd (RemoveStoreObject e b n w)))"
  assumes "obtained x e k True w"
  shows "counted x e w' \<and> files (db w') = files (db w)"
proof -
  obtain y w1 where rm: "RemoveStoreObject e b n w = (y, w1)" by fastforce
  obtain z w2 where d: "delete_object e k w1 = (z, w2)" by fastforce
  have w2: "w' = w2" using rm d by (simp add: w'_def)
  have d1: "db w1 = db w" using store_frame(3) [OF rm] by simp
  note dc = delete_object_cases [OF d] and wf = statement_wf(4) [OF d]
  have rel0: "ref_rel x (owes k) (db w)" and z0: "refs (db w) k = 0" and wf0: "db_wf (collate e) (db w)"
    using assms by (auto simp: obtained_def)
  have f2: "refs (db w2) j = refs (db w) j" for j using dc d1 by (simp add: refs_def)
  have sub: "r \<in> set (rows (objects (db w)))" if "r \<in> set (rows (objects (db w2)))" for r
    using dc d1 that by (auto simp: delete_rows_def)
  have "ref_rel x none (db w2)"
  proof (cases x)
    case False
    from rel0 False f2 sub show ?thesis unfolding ref_rel_def by (fastforce split: if_splits)
  next
    case True
    have v: "db_valid (collate e) ((db w)\<lparr>objects := delete_rows (\<lambda>r. fo_ID r = k) (objects (db w))\<rparr>)"
      using db_valid_delete_object [of "collate e" "db w" k] wf0 z0 by (simp add: db_wf_def)
    have "fault e = (\<lambda>_. False)" using assms True by (simp add: obtained_def)
    from execute_no_fault [OF this, of "\<lambda>d. ((), d\<lparr>objects := delete_rows (\<lambda>r. fo_ID r = k) (objects d)\<rparr>)" w1] v d d1
    have "objects (db w2) = delete_rows (\<lambda>r. fo_ID r = k) (objects (db w))"
      by (auto simp: delete_object_def)
    with rel0 f2 show ?thesis unfolding ref_rel_def by (fastforce simp: delete_rows_def split: if_splits)
  qed
  with w2 dc d1 wf wf0 assms show ?thesis by (auto simp: counted_def obtained_def)
qed

lemma rollback_object_counts:
  assumes "obtained x e k new w"
  shows "counted x e (rollback_object e un req k new w)
    \<and> files (db (rollback_object e un req k new w)) = files (db w)"
  using assms undo_new_counts [of x e k w] uncount_counts [of x e k w]
  by (cases new) (simp_all add: rollback_object_def)

text \<open>Creating the file uses up the reference.\<close>

lemma entry_after_obtained:
  assumes "obtained x e k new w"
    and "CreateUserFileEntry e (new_file u p nm False (Some k) sz) w = (z, w')"
  shows "case z of Inl _ \<Rightarrow> obtained x e k new w' \<and> files (db w') = files (db w) | Inr _ \<Rightarrow> counted x e w'"
proof (cases z)
  case (Inl err)
  with CreateUserFileEntry_file [OF assms(2)] obtained_tree [of w' w e x k new] assms(1) show ?thesis by auto
next
  case (Inr i)
  note cf = CreateUserFileEntry_file [OF assms(2), unfolded Inr sum.case]
  then have ap: "appended w (new_file u p nm False (Some k) sz) i w'" by blast
  have rel: "ref_rel x (owes k) (db w)" using assms(1) by (simp add: obtained_def)
  have "ref_rel x none (db w')"
    using appended_rel [OF ap rel] by (simp only: new_file_def user_file.simps option.case owes_done)
  with cf assms(1) ap have "counted x e w'" by (auto simp: counted_def obtained_def appended_def new_file_def)
  with Inr show ?thesis by simp
qed

lemma remove_chunk_objects_frame:
  "meta (remove_chunk_objects e cs w) = meta w \<and>
   (\<forall>k. k \<notin> (\<lambda>c. (BucketName (AppConfig e), fc_ChunkPath c)) ` set cs \<longrightarrow>
     obj_get k (remove_chunk_objects e cs w) = obj_get k w)"
proof (induction cs arbitrary: w)
  case Nil
  then show ?case by simp
next
  case (Cons c cs)
  obtain y w1 where rm: "RemoveStoreObject e (BucketName (AppConfig e)) (fc_ChunkPath c) w = (y, w1)"
    by fastforce
  with Cons [of w1] store_frame(3) [OF rm] RemoveStoreObject_get [OF rm] show ?case by auto
qed

lemma delete_upload_rows:
  assumes "delete_chunks e p w = (y, w1)" and "delete_session e k w1 = (z, w2)"
  shows "tree (db w2) = tree (db w) \<and> svcs w2 = svcs w \<and> wf_step e w w2"
  using upload_step(4) [OF assms(1)] upload_step(2) [OF assms(2)] by auto

lemma cleanupUploadData_frame:
  "tree (db (cleanupUploadData e u req parts w)) = tree (db w)
   \<and> wf_step e w (cleanupUploadData e u req parts w)
   \<and> (\<forall>k. k \<notin> (\<lambda>c. (BucketName (AppConfig e), fc_ChunkPath c)) ` set parts \<longrightarrow>
       obj_get k (cleanupUploadData e u req parts w) = obj_get k w)"
proof -
  let ?w1 = "remove_chunk_objects e parts w"
  note rm = remove_chunk_objects_frame [of e parts w]
  obtain y w2 where l: "last_session e (session_of e u (mp_FileHash req)) ?w1 = (y, w2)" by fastforce
  note ls = last_session_core [OF l]
  show ?thesis
  proof (cases y)
    case (Inl err)
    with l rm ls show ?thesis by (simp add: cleanupUploadData_def Let_def obj_get_def)
  next
    case (Inr s)
    let ?p = "\<lambda>c. collate e (fc_UploadID c) = collate e (us_UploadID s)"
    obtain z w3 where d: "delete_chunks e ?p w2 = (z, w3)" by fastforce
    obtain v w4 where d2: "delete_session e (us_ID s) w3 = (v, w4)" by fastforce
    have "cleanupUploadData e u req parts w = w4"
      using l Inr d d2 by (simp add: cleanupUploadData_def Let_def)
    with delete_upload_rows [OF d d2] rm ls show ?thesis by (auto simp: obj_get_def)
  qed
qed

lemma FindIdByUsername_frame:
  "FindIdByUsername e un w = (r, w') \<Longrightarrow> db w' = db w \<and> svcs w' = svcs w"
  by (auto simp: FindIdByUsername_def first_user_def split: prod.splits sum.splits dest!: query_rowD)

lemma FindAllChunkFile_frame:
  "FindAllChunkFile e u req w = (r, w') \<Longrightarrow> db w' = db w \<and> svcs w' = svcs w"
  by (auto simp: FindAllChunkFile_def last_session_def find_chunks_def
      split: prod.splits sum.splits dest!: query_rowD queryD)



section \<open>Contents\<close>

lemma chunk_path_inj [simp]: "chunk_path uid i = chunk_path uid j \<longleftrightarrow> i = j"
  using injD [OF show_int_inj] by (auto simp: chunk_path_def)

lemma chunk_path_neq [simp]: "chunk_path uid i \<noteq> BuildObjectName un h"
  by (simp add: chunk_path_def BuildObjectName_def)

text \<open>The hash is neither in the table nor in the cache.\<close>

definition unknown_hash :: "env \<Rightarrow> string \<Rightarrow> world \<Rightarrow> bool" where
  "unknown_hash e h w \<longleftrightarrow> map_of (redis w) (file_object_hash_key h) = None
     \<and> (\<forall>r\<in>set (rows (objects (db w))). collate e (fo_Hash r) \<noteq> collate e h)"

lemma GetFileObjectByHash_unknown:
  assumes "unknown_hash e h w" and "GetFileObjectByHash e h w = (r, w')"
  shows "\<exists>err. r = Inl err"
proof -
  obtain c w1 where c: "GetFileObjectIDByHash e h w = (c, w1)" by fastforce
  have "c = None"
  proof (cases c)
    case (Some k)
    with c obtain exp where "map_of (redis w) (file_object_hash_key h) = Some (RNum k, exp)"
      by (auto simp: GetFileObjectIDByHash_def split: prod.splits sum.splits rval.splits if_splits
          dest!: redis_get_now)
    with assms(1) show ?thesis by (simp add: unknown_hash_def)
  qed simp
  with c assms(2) have g: "GetFileObjectByHash_db e h w1 = (r, w')" by (simp add: GetFileObjectByHash_def)
  show ?thesis
  proof (cases r)
    case (Inr ob)
    with g obtain w2 where "first_object e (\<lambda>r. collate e (fo_Hash r) = collate e h) w1 = (Inr ob, w2)"
      unfolding GetFileObjectByHash_db_def by (elim seqE) auto
    from first_object_InrD [OF this] cache_read_frame(4) [OF c] assms(1) show ?thesis
      by (auto simp: unknown_hash_def)
  qed simp
qed

text \<open>The chunks an upload has, in the order of their indices.\<close>

definition session_parts :: "env \<Rightarrow> nat \<Rightarrow> string \<Rightarrow> world \<Rightarrow> file_chunk list" where
  "session_parts e u h w = (case last_row us_ID (session_of e u h) (sessions (db w)) of None \<Rightarrow> []
     | Some s \<Rightarrow> sort_key fc_ChunkIndex
         (filter (uploaded_chunk e (us_UploadID s)) (rows (chunks (db w)))))"

lemma FindAllChunkFile_InrD:
  assumes "FindAllChunkFile e u req w = (Inr parts, w')"
  shows "parts = session_parts e u (mp_FileHash req) w"
proof -
  from assms obtain s w1 where "last_session e (session_of e u (mp_FileHash req)) w = (Inr s, w1)"
    and "\<exists>ps w2. find_chunks e (uploaded_chunk e (us_UploadID s)) w1 = (Inr ps, w2)
      \<and> parts = sort_key fc_ChunkIndex ps"
    unfolding FindAllChunkFile_def by (elim seqE) auto
  then show ?thesis
    unfolding last_session_def find_chunks_def by (auto simp: session_parts_def dest!: query_rowD queryD)
qed

lemma writeObject_contents:
  assumes "writeObject e req parts ob w = (Inr (), w')" and "mp_TotalChunks req \<noteq> 0"
  shows "\<exists>c. obj_collect (map (\<lambda>c. (BucketName (AppConfig e), fc_ChunkPath c)) parts) w = Some c
    \<and> obj_get (BucketName (AppConfig e), ob) w' = Some c"
  using assms ComposeObject_ok unfolding writeObject_def Let_def obj_collect_eq by auto

lemma obj_collect_store: "store w' = store w \<Longrightarrow> obj_collect ks w' = obj_collect ks w"
  unfolding obj_collect_def obj_get_def by simp

text \<open>What a completion that creates a new object leaves behind.\<close>

lemma CompleteFile_composes:
  assumes "CompleteFile e req un w = (Inr (), w')" and "unknown_hash e (mp_FileHash req) w"
    and "\<And>usr. usr \<in> set (rows (users (db w))) \<Longrightarrow> collate e (u_UserName usr) = collate e un \<Longrightarrow>
      session_parts e (u_ID usr) (mp_FileHash req) w \<noteq> []" and "db_wf (collate e) (db w)"
    and "\<And>c. c \<in> set (rows (chunks (db w))) \<Longrightarrow> fc_ChunkPath c \<noteq> BuildObjectName un (mp_FileHash req)"
  shows "\<exists>usr r f c. usr \<in> set (rows (users (db w))) \<and> collate e (u_UserName usr) = collate e un
    \<and> r \<in> set (rows (objects (db w'))) \<and> fo_Hash r = mp_FileHash req
    \<and> path r = (BucketName (AppConfig e), BuildObjectName un (mp_FileHash req))
    \<and> f \<in> set (frows w') \<and> uf_ObjectID f = Some (fo_ID r) \<and> uf_UserID f = u_ID usr
    \<and> uf_Name f = mp_FileName req \<and> uf_ParentID f = parentOf (mp_ParentId req)
    \<and> int (length (session_parts e (u_ID usr) (mp_FileHash req) w)) = mp_TotalChunks req
    \<and> obj_collect (map (\<lambda>c. (BucketName (AppConfig e), fc_ChunkPath c))
        (session_parts e (u_ID usr) (mp_FileHash req) w)) w = Some c
    \<and> obj_get (path r) w' = Some c"
proof -
  let ?h = "mp_FileHash req" and ?b = "BucketName (AppConfig e)"
  let ?dst = "(?b, BuildObjectName un ?h)"
  from assms(1) obtain u w1 parts w2 k new w3 z i w4
    where u: "FindIdByUsername e un w = (Inr u, w1)" and p: "FindAllChunkFile e u req w1 = (Inr parts, w2)"
      and len: "int (length parts) = mp_TotalChunks req"
      and ob: "obtain_object e u un req parts w2 = (Inr (k, new), w3)"
      and cf: "CreateUserFileEntry e (new_file u (parentOf (mp_ParentId req)) (mp_FileName req) False
          (Some k) (mp_FileSize req)) w3 = (Inr i, w4)"
      and w': "w' = cleanupUploadData e u req parts w4"
    unfolding CompleteFile_def by (elim stepE if_eqE) (auto split: prod.splits sum.splits)
  note fr1 = FindIdByUsername_frame [OF u] and fr2 = FindAllChunkFile_frame [OF p]
  have parts: "parts = session_parts e u ?h w"
    using FindAllChunkFile_InrD [OF p] unfolding session_parts_def conjunct1 [OF fr1] .
  from u obtain usr where usr: "usr \<in> set (rows (users (db w)))" "collate e (u_UserName usr) = collate e un"
    "u = u_ID usr"
    unfolding FindIdByUsername_def first_user_def by (elim seqE) (auto dest!: query_rowD first_row_SomeD)
  have unk: "unknown_hash e ?h w2" using assms(2) fr1 fr2 by (simp add: unknown_hash_def)
  obtain y w5 where g: "GetFileObjectByHash e ?h w2 = (y, w5)" by fastforce
  from GetFileObjectByHash_unknown [OF unk g] obtain err where "y = Inl err" by blast
  with ob g obtain w6 obj where wo: "writeObject e req parts (BuildObjectName un ?h) w5 = (Inr (), w6)"
    and co: "CreateFilesObject e \<lparr>fo_ID = 0, fo_UserID = u, fo_Hash = ?h, fo_BucketName = ?b,
        fo_ObjectName = BuildObjectName un ?h, fo_Size = mp_FileSize req, fo_RefCount = 1,
        fo_CreatedAt = 0\<rparr> w6 = (Inr obj, w3)" and k: "k = fo_ID obj"
    unfolding obtain_object_def Let_def by (auto split: prod.splits sum.splits if_splits)
  have d5: "db w5 = db w" "store w5 = store w" using GetFileObjectByHash_core [OF g] fr1 fr2 by auto
  have tot: "mp_TotalChunks req \<noteq> 0" using assms(3) [OF usr(1,2)] len parts usr(3) by auto
  from writeObject_contents [OF wo tot] obtain c
    where c: "obj_collect (map (\<lambda>c. (?b, fc_ChunkPath c)) parts) w5 = Some c" "obj_get ?dst w6 = Some c"
    by blast
  have cw: "obj_collect (map (\<lambda>c. (?b, fc_ChunkPath c)) parts) w = Some c"
    using c(1) obj_collect_store [OF d5(2)] by simp
  have d6: "db w6 = db w" using writeObject_meta [OF wo] d5 by simp
  from CreateFilesObject_rows [OF co, folded k, unfolded d6] obtain t
    where rows3: "rows (objects (db w3)) = rows (objects (db w)) @ [\<lparr>fo_ID = k, fo_UserID = u, fo_Hash = ?h,
        fo_BucketName = ?b, fo_ObjectName = BuildObjectName un ?h, fo_Size = mp_FileSize req,
        fo_RefCount = 1, fo_CreatedAt = t\<rparr>]" and st3: "store w3 = store w6"
    by blast
  let ?f = "new_file u (parentOf (mp_ParentId req)) (mp_FileName req) False (Some k) (mp_FileSize req)"
  have ap: "appended w3 ?f i w4" and st4: "store w4 = store w3"
    using CreateUserFileEntry_file [OF cf] unfolding sum.case by blast+
  note cl = cleanupUploadData_frame [of e u req parts w4, folded w']
  have chunk: "fc_ChunkPath q \<noteq> BuildObjectName un ?h" if "q \<in> set parts" for q
    using that assms(5) parts by (auto simp: session_parts_def split: option.splits)
  then have "?dst \<notin> (\<lambda>c. (?b, fc_ChunkPath c)) ` set parts" by force
  with cl have "obj_get ?dst w' = obj_get ?dst w4" by blast
  then have dst: "obj_get ?dst w' = Some c" using c(2) st3 st4 by (simp add: obj_get_def)
  let ?r = "\<lparr>fo_ID = k, fo_UserID = u, fo_Hash = ?h, fo_BucketName = ?b,
      fo_ObjectName = BuildObjectName un ?h, fo_Size = mp_FileSize req, fo_RefCount = 1, fo_CreatedAt = t\<rparr>
      :: file_object"
  have r: "?r \<in> set (rows (objects (db w')))" using cl ap rows3 by (simp add: appended_def)
  from ap obtain t' where "frows w4 = frows w3 @ [?f\<lparr>uf_ID := i, uf_CreatedAt := t', uf_UpdatedAt := t'\<rparr>]"
    unfolding appended_def by blast
  then have f: "?f\<lparr>uf_ID := i, uf_CreatedAt := t', uf_UpdatedAt := t'\<rparr> \<in> set (frows w')" using cl by simp
  show ?thesis
    using usr r f dst cw len parts
    by (intro exI [of _ usr] exI [of _ ?r] exI [of _ "?f\<lparr>uf_ID := i, uf_CreatedAt := t', uf_UpdatedAt := t'\<rparr>"]
        exI [of _ c]) (simp add: new_file_def)
qed


section \<open>Uploading chunk by chunk\<close>

text \<open>A client that sends chunks, given as pairs of index and contents, and stops at an error.\<close>

fun send_chunks :: "env \<Rightarrow> string \<Rightarrow> (int \<times> string) list \<Rightarrow> unit step" where
  "send_chunks e uid [] w = (Inr (), w)"
| "send_chunks e uid ((i, c) # ps) w =
     (case UploadChunk e \<lparr>mc_UploadID = uid, mc_BucketName = BucketName (AppConfig e),
             mc_ChunkIndex = i, mc_Contents = c\<rparr> w of
        (Inl err, w) \<Rightarrow> (Inl err, w)
      | (Inr _, w) \<Rightarrow> send_chunks e uid ps w)"

text \<open>The contents sent last under an index.\<close>

abbreviation last_sent :: "(int \<times> string) list \<Rightarrow> int \<Rightarrow> string" where
  "last_sent ps i \<equiv> the (map_of (rev ps) i)"

definition chunk_rows :: "env \<Rightarrow> string \<Rightarrow> int set \<Rightarrow> world \<Rightarrow> bool" where
  "chunk_rows e uid I w \<longleftrightarrow> file_chunk_unique (collate e) (rows (chunks (db w)))
     \<and> (\<forall>c\<in>set (rows (chunks (db w))). collate e (fc_UploadID c) = collate e uid \<longrightarrow>
          fc_Status c = 1 \<and> fc_ChunkIndex c \<in> I \<and> fc_ChunkPath c = chunk_path uid (fc_ChunkIndex c))
     \<and> (\<forall>i\<in>I. \<exists>c\<in>set (rows (chunks (db w))). collate e (fc_UploadID c) = collate e uid \<and> fc_ChunkIndex c = i)"

definition has_chunks :: "env \<Rightarrow> string \<Rightarrow> (int \<rightharpoonup> string) \<Rightarrow> world \<Rightarrow> bool" where
  "has_chunks e uid m w \<longleftrightarrow> chunk_rows e uid (dom m) w
     \<and> (\<forall>i\<in>dom m. obj_get (BucketName (AppConfig e), chunk_path uid i) w = m i)"

text \<open>What sending chunks leaves alone.\<close>

definition rest :: "world \<Rightarrow> user_file table \<times> file_object table \<times> upload_session table \<times> user table
    \<times> redis_db" where
  "rest w = (files (db w), objects (db w), sessions (db w), users (db w), redis w)"

lemma upsert_chunk_rows:
  assumes "upsert_chunk e c w = (Inr u, w')" and "fc_ChunkPath c = chunk_path uid (fc_ChunkIndex c)"
    and "fc_UploadID c = uid" and "fc_Status c = 1" and "chunk_rows e uid I w"
  shows "chunk_rows e uid (insert (fc_ChunkIndex c) I) w' \<and> svcs w' = svcs w \<and> rest w' = rest w"
proof -
  let ?p = "\<lambda>r. collate e (fc_UploadID r) = collate e (fc_UploadID c) \<and> fc_ChunkIndex r = fc_ChunkIndex c"
  from assms(1) obtain t where
    d: "db w' = (db w)\<lparr>chunks := upsert_chunk_row (collate e) c t (chunks (db w))\<rparr>"
    and v: "db_valid (collate e) (db w')" unfolding upsert_chunk_def by (auto dest!: execute_at_okD)
  have fr: "svcs w' = svcs w" by (rule upload_frame(3) [OF assms(1)])
  have uniq: "file_chunk_unique (collate e) (rows (chunks (db w')))" using v by (simp add: db_valid_def)
  note hc = assms(5) [unfolded chunk_rows_def]
  have rest: "rest w' = rest w" using d fr by (simp add: rest_def)
  show ?thesis
  proof (cases "list_ex ?p (rows (chunks (db w)))")
    case True
    then have ex: "\<exists>q\<in>set (rows (chunks (db w))). ?p q" by (simp add: list_ex_iff)
    let ?f = "\<lambda>r. r\<lparr>fc_ChunkSize := fc_ChunkSize c, fc_ChunkPath := fc_ChunkPath c,
             fc_Status := fc_Status c, fc_UpdatedAt := t\<rparr>"
    from True d have r: "rows (chunks (db w')) = update_where ?p ?f (rows (chunks (db w)))"
      by (simp add: upsert_chunk_row_def Let_def update_rows_def)
    have "\<exists>q\<in>set (rows (chunks (db w'))). collate e (fc_UploadID q) = collate e uid \<and> fc_ChunkIndex q = i"
      if i: "i \<in> I \<or> i = fc_ChunkIndex c" for i
    proof -
      from i hc ex [unfolded assms(3)] obtain q where "q \<in> set (rows (chunks (db w)))"
        "collate e (fc_UploadID q) = collate e uid" "fc_ChunkIndex q = i" by blast
      then show ?thesis unfolding r
        by (intro bexI [of _ "if ?p q then ?f q else q"]) (auto simp: assms(3))
    qed
    moreover have "fc_Status q = 1 \<and> (fc_ChunkIndex q \<in> I \<or> fc_ChunkIndex q = fc_ChunkIndex c)
           \<and> fc_ChunkPath q = chunk_path uid (fc_ChunkIndex q)"
      if q: "q \<in> set (rows (chunks (db w')))" "collate e (fc_UploadID q) = collate e uid" for q
    proof -
      from q(1) r obtain q0 where q0: "q0 \<in> set (rows (chunks (db w)))" "q = (if ?p q0 then ?f q0 else q0)"
        by auto
      with q(2) hc assms(2-4) show ?thesis by (auto split: if_splits)
    qed
    ultimately show ?thesis using uniq fr rest unfolding chunk_rows_def by blast
  next
    case False
    with d have r: "rows (chunks (db w')) = rows (chunks (db w)) @
        [fc_set (next_key (chunks (db w))) (c\<lparr>fc_CreatedAt := t, fc_UpdatedAt := t\<rparr>)]"
      by (simp add: upsert_chunk_row_def Let_def insert_row_def)
    show ?thesis using uniq fr rest hc assms(2-4) unfolding r chunk_rows_def by (auto 0 3)
  qed
qed


lemma UploadChunk_has_chunks:
  assumes "UploadChunk e \<lparr>mc_UploadID = uid, mc_BucketName = BucketName (AppConfig e), mc_ChunkIndex = i,
      mc_Contents = c\<rparr> w = (Inr u, w')" and "has_chunks e uid m w"
  shows "has_chunks e uid (m(i \<mapsto> c)) w' \<and> rest w' = rest w"
proof -
  let ?c = "\<lparr>fc_ID = 0, fc_UploadID = uid, fc_ChunkIndex = i, fc_ChunkSize = int (length c),
      fc_ChunkPath = chunk_path uid i, fc_Status = 1, fc_CreatedAt = 0, fc_UpdatedAt = 0\<rparr>"
  from assms(1) obtain w1 w2 where a: "attempt e (\<lambda>w. (Inr (), w)) w = (Inr (), w1)"
    and p: "PutObject e (BucketName (AppConfig e)) (chunk_path uid i) c w1 = (Inr (), w2)"
    and up: "upsert_chunk e ?c w2 = (Inr u, w')"
    unfolding UploadChunk_def Let_def by (elim seqE) auto
  have w1: "db w1 = db w" "store w1 = store w" "redis w1 = redis w"
    using a by (auto simp: attempt_def Let_def split: if_splits)
  note m = store_frame(1) [OF p]
  have g: "obj_get (BucketName (AppConfig e), chunk_path uid j) w2 = (m(i \<mapsto> c)) j" if "j \<in> insert i (dom m)" for j
  proof (cases "j = i")
    case True
    with PutObject_ok [OF p] show ?thesis by simp
  next
    case False
    with PutObject_get [OF p, of "(BucketName (AppConfig e), chunk_path uid j)"] w1 that assms(2)
    show ?thesis by (auto simp: has_chunks_def obj_get_def)
  qed
  have d2: "db w2 = db w" "redis w2 = redis w" using m w1 by simp_all
  have "chunk_rows e uid (dom m) w2" using assms(2) d2 by (simp add: has_chunks_def chunk_rows_def)
  from upsert_chunk_rows [OF up _ _ _ this]
  have up': "chunk_rows e uid (insert i (dom m)) w'" "svcs w' = svcs w2" "rest w' = rest w2" by auto
  moreover have "obj_get (BucketName (AppConfig e), chunk_path uid j) w' = (m(i \<mapsto> c)) j"
    if "j \<in> insert i (dom m)" for j using g [OF that] up'(2) by (simp add: obj_get_def)
  moreover have "rest w2 = rest w" using d2 by (simp add: rest_def)
  ultimately show ?thesis by (simp add: has_chunks_def)
qed

lemma send_chunks_has_chunks:
  "send_chunks e uid ps w = (Inr u, w') \<Longrightarrow> has_chunks e uid m w \<Longrightarrow>
   has_chunks e uid (m ++ map_of (rev ps)) w' \<and> rest w' = rest w"
proof (induction e uid ps w arbitrary: m rule: send_chunks.induct)
  case (1 e uid w)
  then show ?case by simp
next
  case (2 e uid i c ps w)
  from 2(2) obtain v w1 where up: "UploadChunk e \<lparr>mc_UploadID = uid, mc_BucketName = BucketName (AppConfig e),
      mc_ChunkIndex = i, mc_Contents = c\<rparr> w = (Inr v, w1)" and sc: "send_chunks e uid ps w1 = (Inr u, w')"
    by (auto split: prod.splits sum.splits)
  note h = UploadChunk_has_chunks [OF up 2(3)]
  have "m(i \<mapsto> c) ++ map_of (rev ps) = m ++ map_of (rev ((i, c) # ps))"
    by (auto simp: map_add_def fun_eq_iff split: option.splits)
  with 2(1) [OF up [symmetric] refl sc, of "m(i \<mapsto> c)"] h show ?case by metis
qed

text \<open>The chunks of a session in order: each index once, with the contents sent last.\<close>

lemma has_chunks_parts:
  assumes "has_chunks e uid m w" and "finite (dom m)"
    and "last_row us_ID (session_of e u h) (sessions (db w)) = Some s" and "us_UploadID s = uid"
  shows "map fc_ChunkIndex (session_parts e u h w) = sorted_list_of_set (dom m)
    \<and> (\<forall>c\<in>set (session_parts e u h w). fc_ChunkPath c = chunk_path uid (fc_ChunkIndex c))"
proof -
  let ?ps = "filter (uploaded_chunk e uid) (rows (chunks (db w)))"
  note cr = assms(1) [unfolded has_chunks_def, THEN conjunct1, unfolded chunk_rows_def]
  have parts: "session_parts e u h w = sort_key fc_ChunkIndex ?ps"
    using assms(3,4) by (simp add: session_parts_def)
  have "distinct (map (\<lambda>c. (collate e (fc_UploadID c), fc_ChunkIndex c)) ?ps)"
    using cr by (simp add: file_chunk_unique_def)
  then have "distinct (map fc_ChunkIndex ?ps)"
    unfolding distinct_map inj_on_def by (auto simp: uploaded_chunk_def)
  then have "distinct (map fc_ChunkIndex (sort_key fc_ChunkIndex ?ps))"
    unfolding distinct_map by simp
  moreover have "set (map fc_ChunkIndex (sort_key fc_ChunkIndex ?ps)) = dom m"
  proof -
    let ?S = "{c \<in> set (rows (chunks (db w))). collate e (fc_UploadID c) = collate e uid \<and> fc_Status c = 1}"
    have "fc_ChunkIndex ` ?S \<subseteq> dom m" using cr by (intro image_subsetI) (simp only: mem_Collect_eq)
    moreover have "i \<in> fc_ChunkIndex ` ?S" if "i \<in> dom m" for i
    proof -
      from cr that obtain c where "c \<in> set (rows (chunks (db w)))"
        "collate e (fc_UploadID c) = collate e uid" "fc_ChunkIndex c = i" by blast
      with cr show ?thesis by (intro image_eqI [of _ _ c]) simp_all
    qed
    ultimately show ?thesis unfolding uploaded_chunk_def list.set_map set_sort set_filter by blast
  qed
  ultimately have "map fc_ChunkIndex (sort_key fc_ChunkIndex ?ps) = sorted_list_of_set (dom m)"
    using sorted_list_of_set.idem_if_sorted_distinct [OF sorted_sort_key [of fc_ChunkIndex ?ps]] by simp
  with parts cr show ?thesis by (auto simp: uploaded_chunk_def)
qed


text \<open>Sending chunks keeps the database well formed and names only its own chunk objects.\<close>

lemma upsert_chunk_paths:
  assumes "upsert_chunk e c w = (r, w')" and "q \<in> set (rows (chunks (db w')))"
  shows "fc_ChunkPath q \<in> insert (fc_ChunkPath c) (fc_ChunkPath ` set (rows (chunks (db w))))"
proof (cases r)
  case (Inl err)
  have "db w' = db w" by (rule execute_at_InlD [OF assms(1) [unfolded upsert_chunk_def Inl]])
  with assms(2) show ?thesis by simp
next
  case (Inr u)
  with assms(1) obtain t where "chunks (db w') = upsert_chunk_row (collate e) c t (chunks (db w))"
    unfolding upsert_chunk_def by (auto dest!: execute_at_okD)
  with assms(2) show ?thesis
    by (auto simp: upsert_chunk_row_def Let_def table_ops split: if_splits)
qed

lemma UploadChunk_step:
  assumes "UploadChunk e \<lparr>mc_UploadID = uid, mc_BucketName = b, mc_ChunkIndex = i, mc_Contents = c\<rparr> w = (r, w')"
  shows "wf_step e w w' \<and> (\<forall>q\<in>set (rows (chunks (db w'))).
    fc_ChunkPath q \<in> range (chunk_path uid) \<union> fc_ChunkPath ` set (rows (chunks (db w))))"
  using assms unfolding UploadChunk_def Let_def
proof (elim seqE, goal_cases)
  case (1 err)
  then show ?case by (auto simp: attempt_def Let_def split: if_splits)
next
  case (2 u w1 err)
  then have "db w1 = db w" by (auto simp: attempt_def Let_def split: if_splits)
  with store_frame(1) [OF 2(2)] show ?case by auto
next
  case (3 u w1 v w2)
  then have "db w1 = db w" by (auto simp: attempt_def Let_def split: if_splits)
  with store_frame(1) [OF 3(2)] have d: "db w2 = db w" by auto
  from upsert_chunk_paths [OF 3(3)] upload_step(3) [OF 3(3)] show ?case unfolding d by fastforce
qed

lemma send_chunks_step:
  "send_chunks e uid ps w = (r, w') \<Longrightarrow> wf_step e w w' \<and> (\<forall>q\<in>set (rows (chunks (db w'))).
    fc_ChunkPath q \<in> range (chunk_path uid) \<union> fc_ChunkPath ` set (rows (chunks (db w))))"
proof (induction e uid ps w rule: send_chunks.induct)
  case (1 e uid w)
  then show ?case by auto
next
  case (2 e uid i c ps w)
  obtain v w1 where up: "UploadChunk e \<lparr>mc_UploadID = uid, mc_BucketName = BucketName (AppConfig e),
      mc_ChunkIndex = i, mc_Contents = c\<rparr> w = (v, w1)" by fastforce
  note st = UploadChunk_step [OF up]
  show ?case
  proof (cases v)
    case (Inl err)
    with 2(2) up st show ?thesis by auto
  next
    case (Inr a)
    with 2(2) up have sc: "send_chunks e uid ps w1 = (r, w')" by simp
    from 2(1) [OF up [symmetric] Inr sc] st show ?thesis by fastforce
  qed
qed

text \<open>C3: the multipart upload is a round trip: when a session is open for a hash not yet known, the
  client's chunks, sent in any order and possibly more than once, are accepted, and the completion
  is accepted, then the caller has a new file under the requested name and parent, on an object
  with the requested hash whose contents are the chunks in the order of their indices, each
  as it was sent last.\<close>
theorem upload_roundtrip:
  assumes "db_wf (collate e) (db w)" and "unknown_hash e (mp_FileHash req) w"
    and "\<forall>c\<in>set (rows (chunks (db w))). collate e (fc_UploadID c) \<noteq> collate e (us_UploadID s)
      \<and> fc_ChunkPath c \<noteq> BuildObjectName un (mp_FileHash req)"
    and "\<forall>usr\<in>set (rows (users (db w))). collate e (u_UserName usr) = collate e un \<longrightarrow>
      last_row us_ID (session_of e (u_ID usr) (mp_FileHash req)) (sessions (db w)) = Some s"
    and "ps \<noteq> []"
    and "send_chunks e (us_UploadID s) ps w = (Inr (), w1)" and "CompleteFile e req un w1 = (Inr (), w')"
  shows "\<exists>usr\<in>set (rows (users (db w))). \<exists>f\<in>set (frows w'). \<exists>r\<in>set (rows (objects (db w'))).
    collate e (u_UserName usr) = collate e un \<and> uf_UserID f = u_ID usr \<and> uf_Name f = mp_FileName req
    \<and> uf_ParentID f = parentOf (mp_ParentId req)
    \<and> uf_ObjectID f = Some (fo_ID r) \<and> fo_Hash r = mp_FileHash req
    \<and> obj_get (path r) w' = Some (concat (map (last_sent ps) (sorted_list_of_set (fst ` set ps))))"
proof -
  let ?b = "BucketName (AppConfig e)" and ?h = "mp_FileHash req" and ?m = "map_of (rev ps)"
  have hc0: "has_chunks e (us_UploadID s) Map.empty w"
    using assms(1,3) by (auto simp: has_chunks_def chunk_rows_def db_wf_def db_valid_def)
  from send_chunks_has_chunks [OF assms(6) hc0]
  have hc: "has_chunks e (us_UploadID s) ?m w1" and rs: "rest w1 = rest w" by auto
  have dom: "dom ?m = fst ` set ps" by (simp add: dom_map_of_conv_image_fst)
  have unk: "unknown_hash e ?h w1" using assms(2) rs by (simp add: unknown_hash_def rest_def)
  have wf1: "db_wf (collate e) (db w1)" using send_chunks_step [OF assms(6)] assms(1) by blast
  have fresh: "fc_ChunkPath c \<noteq> BuildObjectName un ?h" if "c \<in> set (rows (chunks (db w1)))" for c
    using send_chunks_step [OF assms(6)] assms(3) that by fastforce
  have parts: "map fc_ChunkIndex (session_parts e (u_ID usr) ?h w1) = sorted_list_of_set (fst ` set ps)"
      "\<forall>c\<in>set (session_parts e (u_ID usr) ?h w1). fc_ChunkPath c = chunk_path (us_UploadID s) (fc_ChunkIndex c)"
    if "usr \<in> set (rows (users (db w1)))" "collate e (u_UserName usr) = collate e un" for usr
  proof -
    have "last_row us_ID (session_of e (u_ID usr) ?h) (sessions (db w1)) = Some s"
      using assms(4) that rs by (auto simp: rest_def)
    from has_chunks_parts [OF hc finite_dom_map_of this refl] dom
    show "map fc_ChunkIndex (session_parts e (u_ID usr) ?h w1) = sorted_list_of_set (fst ` set ps)"
      "\<forall>c\<in>set (session_parts e (u_ID usr) ?h w1). fc_ChunkPath c = chunk_path (us_UploadID s) (fc_ChunkIndex c)"
      by auto
  qed
  have nonempty: "session_parts e (u_ID usr) ?h w1 \<noteq> []"
    if "usr \<in> set (rows (users (db w1)))" "collate e (u_UserName usr) = collate e un" for usr
  proof
    assume "session_parts e (u_ID usr) ?h w1 = []"
    with parts(1) [OF that] have "set (sorted_list_of_set (fst ` set ps)) = {}" by (metis list.set(1) list.simps(8))
    with assms(5) show False by simp
  qed
  from CompleteFile_composes [OF assms(7) unk nonempty wf1 fresh] obtain usr r f c
    where x: "usr \<in> set (rows (users (db w1)))" "collate e (u_UserName usr) = collate e un"
      "r \<in> set (rows (objects (db w')))" "fo_Hash r = ?h" "f \<in> set (frows w')"
      "uf_ObjectID f = Some (fo_ID r)" "uf_UserID f = u_ID usr"
      "uf_Name f = mp_FileName req" "uf_ParentID f = parentOf (mp_ParentId req)"
      and c: "obj_collect (map (\<lambda>c. (?b, fc_ChunkPath c)) (session_parts e (u_ID usr) ?h w1)) w1 = Some c"
      "obj_get (path r) w' = Some c"
    by blast
  let ?ps = "session_parts e (u_ID usr) ?h w1" and ?is = "sorted_list_of_set (fst ` set ps)"
  have g: "obj_get (?b, fc_ChunkPath q) w1 = Some (last_sent ps (fc_ChunkIndex q))" if q: "q \<in> set ?ps" for q
  proof -
    have "fc_ChunkIndex q \<in> set ?is" using q parts(1) [OF x(1,2)] by (metis image_eqI list.set_map)
    then have "fc_ChunkIndex q \<in> dom ?m" using dom by simp
    with hc parts(2) [OF x(1,2)] q show ?thesis by (auto simp: has_chunks_def)
  qed
  have "c = concat (map (\<lambda>q. last_sent ps (fc_ChunkIndex q)) ?ps)"
    using c(1) g by (auto simp: obj_collect_def comp_def split: if_splits intro!: arg_cong [of _ _ concat])
  also have "map (\<lambda>q. last_sent ps (fc_ChunkIndex q)) ?ps = map (last_sent ps) (map fc_ChunkIndex ?ps)"
    by simp
  also have "map fc_ChunkIndex ?ps = ?is" by (rule parts(1) [OF x(1,2)])
  finally have "c = concat (map (last_sent ps) ?is)" .
  with x c(2) rs show ?thesis by (auto simp: rest_def)
qed


section \<open>Runs\<close>

definition session4 :: "string \<Rightarrow> upload_session" where
  "session4 h = \<lparr>us_ID = 1, us_UploadID = ''U'', us_UserID = 1, us_FileHash = h, us_FileName = ''n'',
     us_FileSize = 3, us_ChunkSize = 2, us_TotalChunks = 2, us_Status = 0, us_CreatedAt = 0,
     us_UpdatedAt = 0\<rparr>"

text \<open>The world with one object, and an upload open for a hash.\<close>

definition world4 :: "string \<Rightarrow> world" where
  "world4 h = world1\<lparr>db := (db world1)\<lparr>sessions := \<lparr>rows = [session4 h], next_key = 2\<rparr>\<rparr>\<rparr>"

definition complete4 :: "string \<Rightarrow> multipart_complete" where
  "complete4 h = \<lparr>mp_FileHash = h, mp_FileName = ''n'', mp_FileSize = 3, mp_TotalChunks = 2, mp_ParentId = 0\<rparr>"

abbreviation sent4 :: "(int \<times> string) list" where
  "sent4 \<equiv> [(1, ''yz''), (0, ''o''), (0, ''x'')]"

lemma world4_wf: "db_wf id (db (world4 h))"
  by (simp add: db_wf_def keys_wf_defs db_valid_defs has_key_def world1_defs world4_def session4_def)

lemma world4_ok:
  "case send_chunks env0 ''U'' sent4 (world4 ''g'') of (Inr _, w1) \<Rightarrow>
     (case CompleteFile env0 (complete4 ''g'') ''ann'' w1 of (Inr _, _) \<Rightarrow> True | _ \<Rightarrow> False) | _ \<Rightarrow> False"
  by code_simp

lemma upload_roundtrip_witness:
  "\<exists>w1 w'. send_chunks env0 ''U'' sent4 (world4 ''g'') = (Inr (), w1)
     \<and> CompleteFile env0 (complete4 ''g'') ''ann'' w1 = (Inr (), w')
     \<and> (\<exists>f\<in>set (frows w'). \<exists>r. uf_ObjectID f = Some (fo_ID r) \<and> obj_get (path r) w' = Some ''xyz'')"
proof -
  from world4_ok obtain w1 w' where s: "send_chunks env0 ''U'' sent4 (world4 ''g'') = (Inr (), w1)"
    and c: "CompleteFile env0 (complete4 ''g'') ''ann'' w1 = (Inr (), w')"
    by (auto split: prod.splits sum.splits)
  have wf: "db_wf (collate env0) (db (world4 ''g''))" using world4_wf by simp
  have unk: "unknown_hash env0 (mp_FileHash (complete4 ''g'')) (world4 ''g'')"
    by (simp add: unknown_hash_def world4_def world1_defs complete4_def)
  have u: "us_UploadID (session4 ''g'') = ''U''" by (simp add: session4_def)
  have srt: "sorted_list_of_set (fst ` set sent4) = [0, 1]" by simp
  have "\<exists>f\<in>set (frows w'). \<exists>r. uf_ObjectID f = Some (fo_ID r) \<and> obj_get (path r) w' =
      Some (concat (map (last_sent sent4) (sorted_list_of_set (fst ` set sent4))))"
    using upload_roundtrip [OF wf unk _ _ _ s [folded u] c]
    by (fastforce simp: world4_def world1_defs session4_def complete4_def last_row_def session_of_def)
  with s c show ?thesis by (simp add: srt)
qed



text \<open>A completion never compares what was uploaded with the hash it claims. When the one read
  that checks a known object fails, here the eighteenth request, the chunks of another upload with
  the same claimed hash overwrite the contents of the object that existing files share, and the
  completion reports success: the file with key 2 then reads back what the second upload sent.\<close>
theorem CompleteFile_overwrites_shared_object:
  "let w = snd (send_chunks env0 ''U'' sent4 (world4 ''h''));
       (r, w') = CompleteFile (env0\<lparr>fault := \<lambda>k. k = 17\<rparr>) (complete4 ''h'') ''ann'' w in
     r = Inr () \<and> obj_get (''netdisk'', ''files/ann/h'') w = Some ''abc''
     \<and> obj_get (''netdisk'', ''files/ann/h'') w' = Some ''xyz''
     \<and> list_ex (\<lambda>f. f = file2) (frows w') \<and> uf_ObjectID file2 = Some 1"
  by code_simp

end
