(* ===== verification/GoStrings.thy ===== *)
theory GoStrings
  imports Cache "HOL-Library.Sublist"
begin

text \<open>
  The functions of Go's \<open>strings\<close> and \<open>path\<close> packages the code uses, on strings as their
  bytes, and the sanitizers built from them: \<open>SanitizeHeaderFilename\<close>
  (\<open>src/utils/sanitize.go\<close>), \<open>sanitizeArchiveName\<close> (\<open>service/archive.go\<close>), \<open>sanitizeOrderBy\<close>
  (\<open>service/order.go\<close>), \<open>normalizeRecentSource\<close> (\<open>service/user_library.go\<close>) and
  \<open>GetContentBook\<close> (\<open>service/minio.go\<close>). The Unicode case tables are a parameter of \<open>ToLower\<close>,
  used for strings that are not ASCII.
\<close>

section \<open>Bytes\<close>

abbreviation byte :: "nat \<Rightarrow> char" where
  "byte n \<equiv> char_of n"

definition is_ascii :: "char \<Rightarrow> bool" where
  "is_ascii c \<longleftrightarrow> of_char c < (128 :: nat)"

definition lower_char :: "char \<Rightarrow> char" where
  "lower_char c = (if 65 \<le> (of_char c :: nat) \<and> (of_char c :: nat) \<le> 90
     then char_of (of_char c + 32 :: nat) else c)"

definition ToLower :: "(string \<Rightarrow> string) \<Rightarrow> string \<Rightarrow> string" where
  "ToLower unicodeLower s = (if list_all is_ascii s then map lower_char s else unicodeLower s)"

text \<open>The UTF-8 encodings of the runes for which \<open>unicode.IsSpace\<close> holds.\<close>

definition space_runes :: "string list" where
  "space_runes = [[byte 9], [CHR 0x0A], [byte 11], [byte 12], [CHR 0x0D], [byte 32],
     [byte 194, byte 133], [byte 194, byte 160], [byte 225, byte 154, byte 128]]
     @ map (\<lambda>n. [byte 226, byte 128, byte n]) [128..<139]
     @ [[byte 226, byte 128, byte 168], [byte 226, byte 128, byte 169],
        [byte 226, byte 128, byte 175], [byte 226, byte 129, byte 159],
        [byte 227, byte 128, byte 128]]"

definition HasPrefix :: "string \<Rightarrow> string \<Rightarrow> bool" where
  "HasPrefix s p \<longleftrightarrow> take (length p) s = p"

definition HasSuffix :: "string \<Rightarrow> string \<Rightarrow> bool" where
  "HasSuffix s p \<longleftrightarrow> HasPrefix (rev s) (rev p)"

definition TrimPrefix :: "string \<Rightarrow> string \<Rightarrow> string" where
  "TrimPrefix s p = (if HasPrefix s p then drop (length p) s else s)"

lemma HasPrefix_iff: "HasPrefix s p \<longleftrightarrow> prefix p s"
  unfolding HasPrefix_def prefix_def by (metis append_eq_conv_conj append_take_drop_id)

lemma HasSuffix_iff: "HasSuffix s p \<longleftrightarrow> suffix p s"
  by (simp add: HasSuffix_def HasPrefix_iff suffix_to_prefix)

lemma space_runes_nonempty: "r \<in> set space_runes \<Longrightarrow> r \<noteq> []"
  by (auto simp: space_runes_def)

text \<open>Cutting a leading rune of a list, as long as there is one.\<close>

function trim_left :: "string list \<Rightarrow> string \<Rightarrow> string" where
  "trim_left rs s = (case find (\<lambda>r. r \<noteq> [] \<and> HasPrefix s r) rs of
     None \<Rightarrow> s | Some r \<Rightarrow> trim_left rs (drop (length r) s))"
  by auto
termination
proof (relation "measure (length \<circ> snd)")
  fix rs s r
  assume "find (\<lambda>r. r \<noteq> [] \<and> HasPrefix s r) rs = Some r"
  then have "r \<noteq> []" "HasPrefix s r" by (auto simp: find_Some_iff)
  then have "0 < length r" "length r \<le> length s" by (auto simp: HasPrefix_iff prefix_length_le)
  then have "length s - length r < length s" by linarith
  then show "((rs, drop (length r) s), rs, s) \<in> measure (length \<circ> snd)" by simp
qed simp

declare trim_left.simps [simp del]

definition TrimSpace :: "string \<Rightarrow> string" where
  "TrimSpace s = rev (trim_left (map rev space_runes) (rev (trim_left space_runes s)))"

text \<open>A text that begins and ends with a visible ASCII character is left as it is by \<open>TrimSpace\<close>.\<close>

definition visible :: "char \<Rightarrow> bool" where
  "visible c = (let n = of_char c :: nat in 33 \<le> n \<and> n \<le> 126)"

lemma spaces_not_visible: "\<forall>r\<in>set space_runes. r \<noteq> [] \<and> \<not> visible (hd r) \<and> \<not> visible (last r)"
  by code_simp

lemma trim_left_visible: "\<forall>r\<in>set rs. r \<noteq> [] \<longrightarrow> \<not> visible (hd r) \<Longrightarrow> s = [] \<or> visible (hd s) \<Longrightarrow> trim_left rs s = s"
proof -
  assume r: "\<forall>r\<in>set rs. r \<noteq> [] \<longrightarrow> \<not> visible (hd r)" and s: "s = [] \<or> visible (hd s)"
  have "\<not> (x \<noteq> [] \<and> HasPrefix s x)" if "x \<in> set rs" for x
    using r s that by (cases x; cases s) (auto simp: HasPrefix_def)
  then have "find (\<lambda>r. r \<noteq> [] \<and> HasPrefix s r) rs = None" by (simp add: find_None_iff)
  then show ?thesis by (subst trim_left.simps) simp
qed

lemma TrimSpace_visible: "s = [] \<or> visible (hd s) \<and> visible (last s) \<Longrightarrow> TrimSpace s = s"
proof -
  assume s: "s = [] \<or> visible (hd s) \<and> visible (last s)"
  have "trim_left space_runes s = s" using s spaces_not_visible by (intro trim_left_visible) auto
  moreover have "trim_left (map rev space_runes) (rev s) = rev s"
    using s spaces_not_visible by (intro trim_left_visible) (auto simp: hd_rev)
  ultimately show ?thesis by (simp add: TrimSpace_def)
qed

text \<open>\<open>strings.ReplaceAll\<close> with a non-empty old string, from the left, without overlap.\<close>

function ReplaceAll :: "string \<Rightarrow> string \<Rightarrow> string \<Rightarrow> string" where
  "ReplaceAll old new [] = []"
| "ReplaceAll old new (c # s) =
     (if old \<noteq> [] \<and> HasPrefix (c # s) old
      then new @ ReplaceAll old new (drop (length old) (c # s))
      else c # ReplaceAll old new s)"
  by pat_completeness auto
termination
  by (relation "measure (\<lambda>(old, new, s). length s)") (auto simp: neq_Nil_conv)

section \<open>Paths\<close>

fun split_slash :: "string \<Rightarrow> string \<Rightarrow> string list" where
  "split_slash acc [] = [rev acc]"
| "split_slash acc (c # s) =
     (if c = CHR ''/'' then rev acc # split_slash [] s else split_slash (c # acc) s)"

fun join_slash :: "string list \<Rightarrow> string" where
  "join_slash [] = []"
| "join_slash [x] = x"
| "join_slash (x # y # xs) = x @ ''/'' @ join_slash (y # xs)"

text \<open>\<open>path.Clean\<close>: empty and \<open>.\<close> elements go, \<open>..\<close> removes the element before it.\<close>

fun clean_elems :: "bool \<Rightarrow> string list \<Rightarrow> string list \<Rightarrow> string list" where
  "clean_elems rooted out [] = rev out"
| "clean_elems rooted out (x # xs) =
     (if x = [] \<or> x = ''.'' then clean_elems rooted out xs
      else if x = ''..'' then
        (case out of
           [] \<Rightarrow> if rooted then clean_elems rooted [] xs else clean_elems rooted [''..''] xs
         | y # out' \<Rightarrow> if y = ''..'' then clean_elems rooted (''..'' # out) xs
                      else clean_elems rooted out' xs)
      else clean_elems rooted (x # out) xs)"

definition path_Clean :: "string \<Rightarrow> string" where
  "path_Clean p =
     (if p = [] then ''.'' else
      let rooted = HasPrefix p ''/'';
          body = join_slash (clean_elems rooted [] (split_slash [] p))
      in if rooted then ''/'' @ body else if body = [] then ''.'' else body)"

definition path_Join :: "string \<Rightarrow> string \<Rightarrow> string" where
  "path_Join a b =
     (let xs = filter (\<lambda>x. x \<noteq> []) [a, b] in if xs = [] then [] else path_Clean (join_slash xs))"

text \<open>\<open>path.Ext\<close>: from the last dot of the last element.\<close>

definition path_Ext :: "string \<Rightarrow> string" where
  "path_Ext p = (let base = takeWhile (\<lambda>c. c \<noteq> CHR ''/'') (rev p) in
     if CHR ''.'' \<in> set base then rev (takeWhile (\<lambda>c. c \<noteq> CHR ''.'') base @ ''.'') else [])"

definition path_Base :: "string \<Rightarrow> string" where
  "path_Base p =
     (if p = [] then ''.'' else
      let q = rev (dropWhile (\<lambda>c. c = CHR ''/'') (rev p)) in
      if q = [] then ''/'' else rev (takeWhile (\<lambda>c. c \<noteq> CHR ''/'') (rev q)))"

section \<open>Sanitizers\<close>

definition SanitizeHeaderFilename :: "string \<Rightarrow> string" where
  "SanitizeHeaderFilename name =
     (let clean = TrimSpace name in
      if clean = [] then ''download'' else
      let clean = ReplaceAll [CHR 0x0D] [] clean;
          clean = ReplaceAll [CHR 0x0A] [] clean
      in ReplaceAll [CHR 0x22] [] clean)"

definition sanitizeArchiveName :: "string \<Rightarrow> string" where
  "sanitizeArchiveName name =
     (let clean = TrimSpace name;
          clean = ReplaceAll [CHR 0x5C] ''/'' clean;
          clean = ReplaceAll ''/'' ''_'' clean;
          clean = ReplaceAll ''..'' ''_'' clean
      in if clean = [] \<or> clean = ''.'' then ''unnamed'' else clean)"

definition allowedOrderBy :: "string \<rightharpoonup> string" where
  "allowedOrderBy = map_of [(''created_at'', ''created_at''), (''updated_at'', ''updated_at''),
     (''name'', ''name''), (''size'', ''size''), (''id'', ''id'')]"

text \<open>A key that is not in the map reads as the empty string.\<close>

definition sanitizeOrderBy :: "(string \<Rightarrow> string) \<Rightarrow> string \<Rightarrow> string" where
  "sanitizeOrderBy unicodeLower orderBy =
     (case allowedOrderBy (ToLower unicodeLower (TrimSpace orderBy)) of None \<Rightarrow> [] | Some s \<Rightarrow> s)"

definition normalizeRecentSource :: "(string \<Rightarrow> string) \<Rightarrow> string \<Rightarrow> string" where
  "normalizeRecentSource unicodeLower source =
     (let source = ToLower unicodeLower (TrimSpace source) in
      if source = [] then ''unknown''
      else if 64 < length source then take 64 source else source)"

definition GetContentBook :: "(string \<Rightarrow> string) \<Rightarrow> string \<Rightarrow> string" where
  "GetContentBook unicodeLower filename =
     (let ext = ToLower unicodeLower (path_Ext filename) in
      if ext = ''.jpg'' \<or> ext = ''.jpeg'' then ''image/jpeg''
      else if ext = ''.png'' then ''image/png''
      else if ext = ''.gif'' then ''image/gif''
      else if ext = ''.txt'' then ''text/plain; charset=utf-8''
      else if ext = ''.pdf'' then ''application/pdf''
      else if ext = ''.zip'' then ''application/zip''
      else if ext = ''.tar'' then ''application/x-tar''
      else if ext = ''.gz'' then ''application/gzip''
      else if ext = ''.mp4'' then ''video/mp4''
      else ''application/octet-stream'')"

section \<open>What the sanitizers guarantee\<close>

lemma set_ReplaceAll: "set (ReplaceAll old new s) \<subseteq> set new \<union> set s"
proof (induction old new s rule: ReplaceAll.induct)
  case (2 old new c s)
  then show ?case using set_drop_subset [of "length old" "c # s"] by auto
qed simp

lemma ReplaceAll_char: "c \<notin> set new \<Longrightarrow> c \<notin> set (ReplaceAll [c] new s)"
  by (induction "[c]" new s rule: ReplaceAll.induct) (auto simp: HasPrefix_def)

lemma ReplaceAll_other: "c \<notin> set new \<Longrightarrow> c \<notin> set s \<Longrightarrow> c \<notin> set (ReplaceAll old new s)"
  using set_ReplaceAll [of old new s] by blast

lemma ReplaceAll_dots: "\<not> sublist ''..'' (ReplaceAll ''..'' ''_'' s)"
proof (induction "''..''" "''_''" s rule: ReplaceAll.induct)
  case 1
  then show ?case by simp
next
  case (2 c s)
  show ?case
  proof (cases "HasPrefix (c # s) ''..''")
    case True
    with 2(1) show ?thesis by (simp add: sublist_Cons_right)
  next
    case False
    have "\<not> prefix ''..'' (c # ReplaceAll ''..'' ''_'' s)"
    proof
      assume p: "prefix ''..'' (c # ReplaceAll ''..'' ''_'' s)"
      then obtain d t where s: "s = d # t" by (cases s) auto
      with False p show False by (auto simp: HasPrefix_def split: if_splits)
    qed
    with False 2(2) show ?thesis by (simp add: sublist_Cons_right)
  qed
qed

text \<open>Whatever name a user gave a file, the name put into a \<open>Content-Disposition\<close> header has
  no carriage return, line feed or quote: it cannot end the header or its quoted string.\<close>
theorem SanitizeHeaderFilename_no_breakout:
  "CHR 0x0D \<notin> set (SanitizeHeaderFilename name) \<and> CHR 0x0A \<notin> set (SanitizeHeaderFilename name)
   \<and> CHR 0x22 \<notin> set (SanitizeHeaderFilename name)"
  by (simp add: SanitizeHeaderFilename_def Let_def ReplaceAll_char ReplaceAll_other)

lemma sanitizeArchiveName_element:
  "let r = sanitizeArchiveName name in r \<noteq> [] \<and> r \<noteq> ''.'' \<and> CHR ''/'' \<notin> set r \<and> CHR 0x5C \<notin> set r
     \<and> \<not> sublist ''..'' r"
proof -
  have "\<not> sublist ''..'' ''unnamed''" by (simp add: sublist_Cons_right)
  then show ?thesis
    by (simp add: sanitizeArchiveName_def Let_def ReplaceAll_dots ReplaceAll_char ReplaceAll_other)
qed

text \<open>Whatever a client asks to order by, only one of five column names, or nothing, reaches
  the SQL text.\<close>
theorem sanitizeOrderBy_allowed:
  "sanitizeOrderBy lo orderBy \<in> {'''', ''created_at'', ''updated_at'', ''name'', ''size'', ''id''}"
  by (auto simp: sanitizeOrderBy_def allowedOrderBy_def split: option.splits if_splits)

end
