(* ===== verification/Users.thy ===== *)
theory Users
  imports Completion GoStrings
begin

text \<open>
  Accounts: \<open>src/internal/service/user.go\<close>, \<open>user_profile.go\<close>, the handlers of
  \<open>src/internal/handler/login.go\<close> and \<open>register.go\<close>, and the tokens and passwords of
  \<open>src/utils/jwt.go\<close>, \<open>middle.go\<close> and \<open>pwd.go\<close>. The bcrypt and JWT packages are parameters; a
  handler's result is its HTTP status and message, with the value it sends.
\<close>

section \<open>Passwords and tokens\<close>

record claims =
  cl_UserId :: nat
  cl_Username :: string
  cl_ExpiresAt :: int
  cl_IssuedAt :: int
  cl_NotBefore :: int

record auth =
  JWTSecret :: string
  bcrypt_hash :: "nat \<Rightarrow> string \<Rightarrow> string option"   \<comment> \<open>with the n-th salt; fails for long input\<close>
  bcrypt_check :: "string \<Rightarrow> string \<Rightarrow> bool"           \<comment> \<open>hash, password\<close>
  jwt_sign :: "string \<Rightarrow> claims \<Rightarrow> string option"     \<comment> \<open>\<open>SignedString\<close> with HS256\<close>
  jwt_parts :: "string \<Rightarrow> (string \<times> claims) option"   \<comment> \<open>\<open>ParseUnverified\<close>: algorithm and claims\<close>
  jwt_verifies :: "string \<Rightarrow> string \<Rightarrow> bool"           \<comment> \<open>secret, token\<close>

text \<open>What the code relies on: a hash checks against its password, a signed token reads back and
  verifies under the secret that signed it.\<close>

definition bcrypt_law :: "auth \<Rightarrow> bool" where
  "bcrypt_law au \<longleftrightarrow> (\<forall>n p h. bcrypt_hash au n p = Some h \<longrightarrow> bcrypt_check au h p)"

definition jwt_law :: "auth \<Rightarrow> bool" where
  "jwt_law au \<longleftrightarrow> (\<forall>s c t. jwt_sign au s c = Some t \<longrightarrow>
     jwt_parts au t = Some (''HS256'', c) \<and> jwt_verifies au s t)"

definition GetPwd :: "env \<Rightarrow> auth \<Rightarrow> string \<Rightarrow> string step" where
  "GetPwd e au pwd w = (let w' = w\<lparr>drawn := Suc (drawn w)\<rparr> in
     case bcrypt_hash au (drawn w) pwd of
       None \<Rightarrow> (Inl (Errorf ''bcrypt''), w') | Some h \<Rightarrow> (Inr h, w'))"

definition CheckPwd :: "auth \<Rightarrow> string \<Rightarrow> string \<Rightarrow> bool" where
  "CheckPwd au pwd password = bcrypt_check au password pwd"

text \<open>A token's times are whole seconds (\<open>jwt.NewNumericDate\<close>).\<close>

definition numeric_date :: "int \<Rightarrow> int" where
  "numeric_date t = t div 1000000000 * 1000000000"

definition GenerateToken :: "env \<Rightarrow> auth \<Rightarrow> nat \<Rightarrow> string \<Rightarrow> string step" where
  "GenerateToken e au userId username w =
     (let (t1, w) = timeNow e w; (t2, w) = timeNow e w; (t3, w) = timeNow e w in
      case jwt_sign au (JWTSecret au) \<lparr>cl_UserId = userId, cl_Username = username,
             cl_ExpiresAt = numeric_date (t1 + day_ns), cl_IssuedAt = numeric_date t2,
             cl_NotBefore = numeric_date t3\<rparr> of
        None \<Rightarrow> (Inl (Errorf ''sign''), w) | Some tok \<Rightarrow> (Inr tok, w))"

text \<open>
  \<open>ParseWithClaims\<close> hands the token to the key function, which refuses any algorithm but HS256,
  checks the times of the claims and the signature. For a text that is not a token at all it
  returns a nil token, and reading its claims panics: the result \<open>None\<close>.
\<close>

definition VerifyToken :: "auth \<Rightarrow> int \<Rightarrow> string \<Rightarrow> claims result option" where
  "VerifyToken au now tok =
     (case jwt_parts au tok of
        None \<Rightarrow> None
      | Some (alg, c) \<Rightarrow>
          Some (if alg = ''HS256'' \<and> now < cl_ExpiresAt c \<and> cl_IssuedAt c \<le> now \<and> cl_NotBefore c \<le> now
                   \<and> jwt_verifies au (JWTSecret au) tok
                then Inr c else Inl (Errorf ''invalid token'')))"

text \<open>\<open>strings.Split(header, " ")\<close>.\<close>

fun split_space :: "string \<Rightarrow> string \<Rightarrow> string list" where
  "split_space acc [] = [rev acc]"
| "split_space acc (c # s) =
     (if c = CHR '' '' then rev acc # split_space [] s else split_space (c # acc) s)"

text \<open>The identity set in the request's context; \<open>Inl\<close> is the 401 response.\<close>

definition AuthMiddleware :: "auth \<Rightarrow> int \<Rightarrow> string \<Rightarrow> (nat + nat \<times> string) option" where
  "AuthMiddleware au now authHeader =
     (if authHeader = [] then Some (Inl 401) else
      case split_space [] authHeader of
        [scheme, tok] \<Rightarrow>
          if scheme \<noteq> ''Bearer'' then Some (Inl 401) else
         (case VerifyToken au now tok of
            None \<Rightarrow> None
          | Some (Inl _) \<Rightarrow> Some (Inl 401)
          | Some (Inr c) \<Rightarrow> Some (Inr (cl_UserId c, cl_Username c)))
      | _ \<Rightarrow> Some (Inl 401))"

section \<open>Users\<close>

definition userInfoCacheTTL :: int where
  "userInfoCacheTTL = 5 * 60 * 1000000000"

definition create_user :: "env \<Rightarrow> user \<Rightarrow> nat step" where
  "create_user e r = execute_at e (\<lambda>t d. (next_key (users d),
     d\<lparr>users := insert_row u_set (r\<lparr>u_CreatedAt := t\<rparr>) (users d)\<rparr>))"

text \<open>The number of rows an update changed, as MySQL reports it: a row set to the values it has
  does not count.\<close>

definition update_users :: "env \<Rightarrow> (user \<Rightarrow> bool) \<Rightarrow> (user \<Rightarrow> user) \<Rightarrow> nat step" where
  "update_users e p f = execute e (\<lambda>d.
     (length (filter (\<lambda>r. u_live r \<and> p r \<and> f r \<noteq> r) (rows (users d))),
      d\<lparr>users := update_rows (\<lambda>r. u_live r \<and> p r) f (users d)\<rparr>))"

definition CreateUser :: "env \<Rightarrow> auth \<Rightarrow> user \<Rightarrow> nat step" where
  "CreateUser e au usr w =
     (case GetPwd e au (u_Password usr) w of
        (Inl err, w) \<Rightarrow> (Inl err, w)
      | (Inr hashed, w) \<Rightarrow>
          (let usr = usr\<lparr>u_Password := hashed\<rparr>; t = clock e (reads w) in
           case create_user e usr w of
             (Inl err, w) \<Rightarrow> (Inl err, w)
           | (Inr k, w) \<Rightarrow> (Inr k, SetUserInfoToCache e k (usr\<lparr>u_ID := k, u_CreatedAt := t\<rparr>)
                            userInfoCacheTTL w)))"

text \<open>\<open>First\<close> on \<open>user_name\<close>: \<open>IsExist\<close>.\<close>

definition IsExist :: "env \<Rightarrow> string \<Rightarrow> user step" where
  "IsExist e username = first_user e (\<lambda>u. collate e (u_UserName u) = collate e username)"

definition FindUserNameById :: "env \<Rightarrow> nat \<Rightarrow> string step" where
  "FindUserNameById e userId w =
     (case GetUserInfoFromCache e userId w of
        (Some cached, w) \<Rightarrow> (Inr (u_UserName cached), w)
      | (None, w) \<Rightarrow>
          (case first_user e (\<lambda>u. u_ID u = userId) w of
             (Inl err, w) \<Rightarrow> (Inl err, w)
           | (Inr u, w) \<Rightarrow> (Inr (u_UserName u), SetUserInfoToCache e userId u userInfoCacheTTL w)))"

definition CheckPassword :: "env \<Rightarrow> auth \<Rightarrow> string \<Rightarrow> string \<Rightarrow> unit step" where
  "CheckPassword e au username password w =
     (case first_user e (\<lambda>u. collate e (u_UserName u) = collate e username) w of
        (Inl err, w) \<Rightarrow> (Inl err, w)
      | (Inr u, w) \<Rightarrow>
          if \<not> CheckPwd au password (u_Password u) then (Inl (Errorf ''password error''), w)
          else (Inr (), w))"

definition IsEmailExist :: "env \<Rightarrow> string \<Rightarrow> unit step" where
  "IsEmailExist e email w =
     (case first_user e (\<lambda>u. collate e (u_Email u) = collate e email) w of
        (Inl err, w) \<Rightarrow> (Inl err, w)
      | (Inr _, w) \<Rightarrow> (Inr (), w))"

section \<open>Profiles\<close>

record user_profile =
  up_ID :: nat
  up_UserName :: string
  up_NickName :: string
  up_Email :: string
  up_AvatarURL :: string
  up_Bio :: string
  up_IsActive :: bool
  up_TotalSpace :: nat
  up_UseSpace :: nat
  up_CreatedAt :: int

definition toUserProfile :: "user \<Rightarrow> user_profile" where
  "toUserProfile u = \<lparr>up_ID = u_ID u, up_UserName = u_UserName u, up_NickName = u_NickName u,
     up_Email = u_Email u, up_AvatarURL = u_AvatarURL u, up_Bio = u_Bio u, up_IsActive = u_IsActive u,
     up_TotalSpace = u_TotalSpace u, up_UseSpace = u_UseSpace u, up_CreatedAt = u_CreatedAt u\<rparr>"

definition GetUserProfileByID :: "env \<Rightarrow> nat \<Rightarrow> user_profile step" where
  "GetUserProfileByID e userID w =
     (case GetUserInfoFromCache e userID w of
        (Some cached, w) \<Rightarrow> (Inr (toUserProfile cached), w)
      | (None, w) \<Rightarrow>
          (case first_user e (\<lambda>u. u_ID u = userID) w of
             (Inl err, w) \<Rightarrow> (Inl err, w)
           | (Inr u, w) \<Rightarrow> (Inr (toUserProfile u), SetUserInfoToCache e (u_ID u) u userInfoCacheTTL w)))"

record profile_update =
  pu_NickName :: "string option"
  pu_Email :: "string option"
  pu_AvatarURL :: "string option"
  pu_Bio :: "string option"

definition apply_updates :: "profile_update \<Rightarrow> user \<Rightarrow> user" where
  "apply_updates req u =
     u\<lparr>u_NickName := (case pu_NickName req of None \<Rightarrow> u_NickName u | Some s \<Rightarrow> TrimSpace s),
       u_AvatarURL := (case pu_AvatarURL req of None \<Rightarrow> u_AvatarURL u | Some s \<Rightarrow> TrimSpace s),
       u_Bio := (case pu_Bio req of None \<Rightarrow> u_Bio u | Some s \<Rightarrow> TrimSpace s),
       u_Email := (case pu_Email req of None \<Rightarrow> u_Email u | Some s \<Rightarrow> TrimSpace s)\<rparr>"

definition check_email :: "env \<Rightarrow> nat \<Rightarrow> string option \<Rightarrow> unit step" where
  "check_email e userID mail w =
     (case mail of None \<Rightarrow> (Inr (), w)
      | Some s \<Rightarrow>
         (let email = TrimSpace s in
          if email = [] then (Inl (Errorf ''email cannot be empty''), w) else
         (case query e (\<lambda>d. length (filter (\<lambda>u. u_live u \<and> collate e (u_Email u) = collate e email
                 \<and> u_ID u \<noteq> userID) (rows (users d)))) w of
            (Inl err, w) \<Rightarrow> (Inl err, w)
          | (Inr count, w) \<Rightarrow>
              if 0 < count then (Inl (Errorf ''email already exists''), w) else (Inr (), w))))"

definition UpdateUserProfile :: "env \<Rightarrow> nat \<Rightarrow> profile_update \<Rightarrow> user_profile step" where
  "UpdateUserProfile e userID req w =
     (case check_email e userID (pu_Email req) w of
        (Inl err, w) \<Rightarrow> (Inl err, w)
      | (Inr _, w) \<Rightarrow>
     (let some_update = (pu_NickName req \<noteq> None \<or> pu_AvatarURL req \<noteq> None \<or> pu_Bio req \<noteq> None
                         \<or> pu_Email req \<noteq> None) in
      case (if some_update then update_users e (\<lambda>u. u_ID u = userID) (apply_updates req) w
            else (Inr 1, w)) of
        (Inl err, w) \<Rightarrow> (Inl err, w)
      | (Inr affected, w) \<Rightarrow>
          if affected = 0 then (Inl RecordNotFound, w)
          else GetUserProfileByID e userID (InvalidateUserInfoCache e userID w)))"

section \<open>Registration and login\<close>

record register_request =
  rg_Username :: string
  rg_FirstPassword :: string
  rg_LastPassword :: string
  rg_Email :: string

abbreviation register_key :: "string \<Rightarrow> string" where
  "register_key tok \<equiv> ''register:'' @ tok"

abbreviation register_used_key :: "string \<Rightarrow> string" where
  "register_used_key tok \<equiv> ''register_used:'' @ tok"

definition ten_minutes :: int where
  "ten_minutes = 10 * 60 * 1000000000"

text \<open>The token is what the activation mail carries; sending it is a request that may fail.\<close>

definition Register :: "env \<Rightarrow> register_request \<Rightarrow> world \<Rightarrow> (nat \<times> string) \<times> string \<times> world" where
  "Register e req w =
     (if rg_FirstPassword req \<noteq> rg_LastPassword req then ((400, ''passwords do not match''), '''', w) else
      case IsExist e (rg_Username req) w of
        (Inr _, w) \<Rightarrow> ((400, ''username already exists''), '''', w)
      | (Inl err, w) \<Rightarrow>
          if err \<noteq> RecordNotFound then ((500, ''check username failed''), '''', w) else
     (case IsEmailExist e (rg_Email req) w of
        (Inr _, w) \<Rightarrow> ((400, ''email already exists''), '''', w)
      | (Inl err, w) \<Rightarrow>
          if err \<noteq> RecordNotFound then ((500, ''check email failed''), '''', w) else
     (let (tok, w) = GetToken e w in
      case redis_set e (register_key tok)
             (RRegister (rg_Email req) (rg_Username req) (rg_FirstPassword req)) ten_minutes w of
        (Inl _, w) \<Rightarrow> ((500, ''cache activation token failed''), '''', w)
      | (Inr _, w) \<Rightarrow>
     (case attempt e (\<lambda>w. (Inr (), w)) w of      \<comment> \<open>\<open>SendActivateMail\<close>\<close>
        (Inl _, w) \<Rightarrow> ((500, ''send activation email failed''), '''', w)
      | (Inr _, w) \<Rightarrow> ((200, ''activation email sent''), tok, w)))))"

definition new_user :: "string \<Rightarrow> string \<Rightarrow> string \<Rightarrow> user" where
  "new_user email username password = \<lparr>u_ID = 0, u_UserName = username, u_Password = password,
     u_Email = email, u_NickName = '''', u_AvatarURL = '''', u_Bio = '''', u_IsActive = True,
     u_TotalSpace = 0, u_UseSpace = 0, u_CreatedAt = 0, u_DeletedAt = None\<rparr>"

definition Activate :: "env \<Rightarrow> auth \<Rightarrow> string \<Rightarrow> world \<Rightarrow> (nat \<times> string) \<times> world" where
  "Activate e au tok w =
     (if tok = [] then ((400, ''token missing''), w) else
      case redis_get e (register_key tok) w of
        (Inl _, w) \<Rightarrow>
          (case redis_get e (register_used_key tok) w of
             (Inr v, w) \<Rightarrow> if v = RText ''1'' then ((200, ''account already activated''), w)
                           else ((400, ''link invalid or expired''), w)
           | (Inl _, w) \<Rightarrow> ((400, ''link invalid or expired''), w))
      | (Inr (RRegister email username password), w) \<Rightarrow>
          (case CreateUser e au (new_user email username password) w of
             (Inl _, w) \<Rightarrow> ((400, ''create failed''), w)
           | (Inr _, w) \<Rightarrow>
               (let w = snd (redis_del e [register_key tok] w);
                    w = snd (redis_set e (register_used_key tok) (RText ''1'') ten_minutes w)
                in ((200, ''account activated''), w)))
      | (Inr _, w) \<Rightarrow> ((500, ''decode failed''), w))"

definition Login :: "env \<Rightarrow> auth \<Rightarrow> string \<Rightarrow> string \<Rightarrow> world \<Rightarrow> (nat + string \<times> user) \<times> world" where
  "Login e au username password w =
     (case IsExist e username w of
        (Inl _, w) \<Rightarrow> (Inl 400, w)
      | (Inr u, w) \<Rightarrow>
          if \<not> u_IsActive u then (Inl 403, w) else
     (case CheckPassword e au username password w of
        (Inl _, w) \<Rightarrow> (Inl 400, w)
      | (Inr _, w) \<Rightarrow>
     (case GenerateToken e au (u_ID u) (u_UserName u) w of
        (Inl _, w) \<Rightarrow> (Inl 400, w)
      | (Inr tok, w) \<Rightarrow> (Inr (tok, u\<lparr>u_Password := ''''\<rparr>), w))))"


section \<open>Tokens identify their user\<close>

lemma split_space_app: "CHR '' '' \<notin> set s \<Longrightarrow> split_space acc s = [rev acc @ s]"
  by (induction acc s rule: split_space.induct) auto

lemma split_space_two: "CHR '' '' \<notin> set s \<Longrightarrow> split_space acc (s @ '' '' @ t) = (rev acc @ s) # split_space [] t"
  by (induction s arbitrary: acc) auto

lemma split_space_join: "split_space acc s = xs \<Longrightarrow> rev acc @ s = concat (map (\<lambda>x. x @ '' '') (butlast xs)) @ last xs
    \<and> xs \<noteq> []"
  by (induction acc s arbitrary: xs rule: split_space.induct) (auto split: if_splits)

lemma bearer_split: "CHR '' '' \<notin> set tok \<Longrightarrow> split_space [] (''Bearer '' @ tok) = [''Bearer'', tok]"
  using split_space_two [of "''Bearer''" "[]" tok] split_space_app [of tok "[]"] by simp

lemma bearer_header:
  assumes "split_space [] h = [''Bearer'', tok]"
  shows "h = ''Bearer '' @ tok"
  using split_space_join [OF assms] by simp

text \<open>A token handed out for a user is accepted for a day: sent back as a bearer token, it
  identifies exactly that user, id and name.\<close>
theorem token_roundtrip:
  assumes "jwt_law au" and "GenerateToken e au userId username w = (Inr tok, w')"
    and "CHR '' '' \<notin> set tok" and "clock e (Suc (reads w)) \<le> now" and "clock e (Suc (Suc (reads w))) \<le> now"
    and "now < numeric_date (clock e (reads w) + day_ns)"
  shows "AuthMiddleware au now (''Bearer '' @ tok) = Some (Inr (userId, username))"
proof -
  let ?c = "\<lparr>cl_UserId = userId, cl_Username = username,
      cl_ExpiresAt = numeric_date (clock e (reads w) + day_ns),
      cl_IssuedAt = numeric_date (clock e (Suc (reads w))),
      cl_NotBefore = numeric_date (clock e (Suc (Suc (reads w))))\<rparr>"
  have "jwt_sign au (JWTSecret au) ?c = Some tok"
    using assms(2) by (auto simp: GenerateToken_def timeNow_def split: option.splits)
  with assms(1) have "jwt_parts au tok = Some (''HS256'', ?c)" "jwt_verifies au (JWTSecret au) tok"
    by (simp_all add: jwt_law_def)
  moreover have "numeric_date t \<le> t" for t
    using pos_mod_sign [of 1000000000 t] by (simp add: numeric_date_def minus_mod_eq_div_mult [symmetric])
  then have "numeric_date (clock e (Suc (reads w))) \<le> now" "numeric_date (clock e (Suc (Suc (reads w)))) \<le> now"
    using assms(4,5) order_trans by blast+
  ultimately have "VerifyToken au now tok = Some (Inr ?c)" using assms(6) by (simp add: VerifyToken_def)
  then show ?thesis using bearer_split [OF assms(3)] by (simp add: AuthMiddleware_def)
qed

text \<open>C17: a request passes the authentication only with a bearer token that was signed with the
  server's secret under HS256 and whose times include the present; the identity it runs under is
  the one in that token.\<close>
theorem AuthMiddleware_sound:
  assumes "AuthMiddleware au now h = Some (Inr (userId, username))"
  shows "\<exists>tok c. h = ''Bearer '' @ tok \<and> jwt_parts au tok = Some (''HS256'', c)
    \<and> jwt_verifies au (JWTSecret au) tok \<and> cl_UserId c = userId \<and> cl_Username c = username
    \<and> cl_IssuedAt c \<le> now \<and> cl_NotBefore c \<le> now \<and> now < cl_ExpiresAt c"
proof -
  from assms obtain tok c where s: "split_space [] h = [''Bearer'', tok]"
    and v: "VerifyToken au now tok = Some (Inr c)" and c: "cl_UserId c = userId" "cl_Username c = username"
    by (auto simp: AuthMiddleware_def split: if_splits list.splits option.splits sum.splits)
  from v have "jwt_parts au tok = Some (''HS256'', c)" "jwt_verifies au (JWTSecret au) tok"
    "cl_IssuedAt c \<le> now" "cl_NotBefore c \<le> now" "now < cl_ExpiresAt c"
    by (auto simp: VerifyToken_def split: option.splits if_splits)
  with bearer_header [OF s] c show ?thesis by blast
qed

text \<open>A bearer token that is not a token at all, such as a single word, is not answered with
  401: reading the claims of the nil token panics.\<close>
theorem AuthMiddleware_malformed_panics:
  assumes "jwt_parts au tok = None" and "CHR '' '' \<notin> set tok"
  shows "AuthMiddleware au now (''Bearer '' @ tok) = None"
  using assms bearer_split [OF assms(2)] by (simp add: AuthMiddleware_def VerifyToken_def)

section \<open>Logging in\<close>

lemma first_user_frame: "first_user e p w = (r, w') \<Longrightarrow> db w' = db w \<and> svcs w' = svcs w
    \<and> (\<forall>u. r = Inr u \<longrightarrow> first_row u_ID (\<lambda>u. u_live u \<and> p u) (users (db w)) = Some u)"
  unfolding first_user_def by (drule query_rowD) auto

text \<open>C28: logging in hands out a token only for an active account that exists under the name and
  whose stored hash the password matches; the token is signed for that account, the answer never
  carries the hash, and nothing is changed.\<close>
theorem Login_sound:
  assumes "Login e au username password w = (Inr (tok, u'), w')"
  shows "\<exists>u\<in>set (rows (users (db w))). u_live u \<and> u_IsActive u
    \<and> collate e (u_UserName u) = collate e username \<and> bcrypt_check au (u_Password u) password
    \<and> u' = u\<lparr>u_Password := ''''\<rparr> \<and> db w' = db w
    \<and> (\<exists>c. jwt_sign au (JWTSecret au) c = Some tok \<and> cl_UserId c = u_ID u \<and> cl_Username c = u_UserName u)"
proof -
  let ?p = "\<lambda>u. collate e (u_UserName u) = collate e username"
  from assms obtain u w1 w2 where i: "first_user e ?p w = (Inr u, w1)" and a: "u_IsActive u"
    and c: "CheckPassword e au username password w1 = (Inr (), w2)"
    and g: "GenerateToken e au (u_ID u) (u_UserName u) w2 = (Inr tok, w')" and u': "u' = u\<lparr>u_Password := ''''\<rparr>"
    unfolding Login_def IsExist_def by (auto split: prod.splits sum.splits if_splits)
  note f = first_user_frame [OF i]
  from c obtain v where v: "first_user e ?p w1 = (Inr v, w2)" and ok: "CheckPwd au password (u_Password v)"
    unfolding CheckPassword_def by (auto split: prod.splits sum.splits if_splits)
  note fv = first_user_frame [OF v]
  from f fv have "v = u" by simp
  moreover from f first_row_SomeD [of u_ID "\<lambda>u. u_live u \<and> ?p u" "users (db w)" u]
  have "u \<in> set (rows (users (db w)))" "u_live u" "?p u" by auto
  moreover from g have "db w' = db w2" "\<exists>c. jwt_sign au (JWTSecret au) c = Some tok \<and> cl_UserId c = u_ID u
      \<and> cl_Username c = u_UserName u"
    by (auto simp: GenerateToken_def timeNow_def split: option.splits)
  ultimately show ?thesis using ok a u' f fv by (auto simp: CheckPwd_def)
qed


section \<open>From registration to login\<close>

lemma CreateUser_InrD:
  assumes "CreateUser e au usr w = (Inr k, w')"
  shows "\<exists>h t. bcrypt_hash au (drawn w) (u_Password usr) = Some h \<and> db_valid (collate e) (db w')
    \<and> rows (users (db w')) = rows (users (db w)) @ [usr\<lparr>u_Password := h, u_CreatedAt := t, u_ID := k\<rparr>]"
proof -
  from assms obtain h w1 w2 where h: "GetPwd e au (u_Password usr) w = (Inr h, w1)"
    and c: "create_user e (usr\<lparr>u_Password := h\<rparr>) w1 = (Inr k, w2)" and d: "db w' = db w2"
    unfolding CreateUser_def Let_def by (elim seqE) auto
  from h have b: "bcrypt_hash au (drawn w) (u_Password usr) = Some h" "db w1 = db w"
    by (auto simp: GetPwd_def Let_def split: option.splits)
  from c b d show ?thesis unfolding create_user_def by (auto simp: insert_row_def dest!: execute_at_okD)
qed

lemma redis_get_set:
  assumes "redis_get e k w = (Inr v, w')" and "map_of (redis w) k = Some (u, exp)"
  shows "v = u"
  using assms by (auto simp: redis_get_def attempt_def Let_def redis_now_def split: if_splits option.splits)

lemma redis_set_okD:
  "redis_set e k v ttl w = (Inr u, w') \<Longrightarrow> \<exists>exp. map_of (redis w') k = Some (v, exp)"
  by (auto simp: redis_set_def attempt_def Let_def map_of_update split: if_splits)

lemma Register_ok:
  assumes "Register e req w = ((200, m), tok, w')"
  shows "\<exists>exp. map_of (redis w') (register_key tok) =
    Some (RRegister (rg_Email req) (rg_Username req) (rg_FirstPassword req), exp)"
proof -
  from assms obtain w1 u w2 v where
    s: "redis_set e (register_key tok)
      (RRegister (rg_Email req) (rg_Username req) (rg_FirstPassword req)) ten_minutes w1 = (Inr u, w2)"
    and a: "attempt e (\<lambda>w. (Inr (), w)) w2 = (Inr v, w')"
    unfolding Register_def Let_def GetToken_def prod.case
    by (auto split: if_splits prod.splits sum.splits simp del: append_Cons)
  have "redis w' = redis w2" using attempt_okD [OF a] by simp
  with redis_set_okD [OF s] show ?thesis by simp
qed

text \<open>A query on a username finds the row that has it.\<close>

lemma first_user_unique:
  assumes "fault e = (\<lambda>_. False)" and "db_valid (collate e) (db w)" and "u \<in> set (rows (users (db w)))"
    and "u_live u" and "collate e (u_UserName u) = collate e n"
  shows "\<exists>w'. first_user e (\<lambda>u. collate e (u_UserName u) = collate e n) w = (Inr u, w') \<and> db w' = db w"
proof -
  let ?p = "\<lambda>u. u_live u \<and> collate e (u_UserName u) = collate e n"
  have d: "distinct (map (collate e \<circ> u_UserName) (rows (users (db w))))"
    using assms(2) by (simp add: db_valid_def user_unique_def)
  have "first_row u_ID ?p (users (db w)) \<noteq> None" using assms(3-5) by (auto simp: first_row_None)
  then obtain v where v: "first_row u_ID ?p (users (db w)) = Some v" by blast
  from first_row_SomeD [OF v] have "v \<in> set (rows (users (db w)))"
    "(collate e \<circ> u_UserName) v = (collate e \<circ> u_UserName) u" using assms(5) by auto
  from distinct_map_eq [OF d this(1) assms(3) this(2)] v assms(1) show ?thesis
    by (simp add: first_user_def query_row_no_fault)
qed

text \<open>C16: registration is a round trip: after a registration and the activation with the mailed
  token, both answered with success, the login with the registered name and password succeeds, as
  an account that carries the registered name and e-mail address.\<close>
theorem register_activate_login:
  assumes "fault e = (\<lambda>_. False)" and "bcrypt_law au" and "\<forall>c. jwt_sign au (JWTSecret au) c \<noteq> None"
    and "Register e req w = ((200, m), tok, w1)"
    and "Activate e au tok w1 = ((200, ''account activated''), w2)"
  shows "\<exists>t u w3. Login e au (rg_Username req) (rg_FirstPassword req) w2 = (Inr (t, u), w3)
    \<and> u_UserName u = rg_Username req \<and> u_Email u = rg_Email req"
proof -
  from Register_ok [OF assms(4)] obtain exp where
    r: "map_of (redis w1) (register_key tok) =
      Some (RRegister (rg_Email req) (rg_Username req) (rg_FirstPassword req), exp)" by blast
  from assms(5) obtain v w3 where g: "redis_get e (register_key tok) w1 = (Inr v, w3)"
    unfolding Activate_def by (auto split: if_splits prod.splits sum.splits)
  with redis_get_set [OF g r] have v: "v = RRegister (rg_Email req) (rg_Username req) (rg_FirstPassword req)"
    by simp
  let ?n = "new_user (rg_Email req) (rg_Username req) (rg_FirstPassword req)"
  from assms(5) g v obtain k w4 where c: "CreateUser e au ?n w3 = (Inr k, w4)" and d: "db w2 = db w4"
    unfolding Activate_def Let_def using redis_frame
    by (auto split: if_splits prod.splits sum.splits)
  from CreateUser_InrD [OF c] obtain h t where h: "bcrypt_hash au (drawn w3) (u_Password ?n) = Some h"
    and valid: "db_valid (collate e) (db w2)"
    and rows: "rows (users (db w2)) = rows (users (db w3)) @ [?n\<lparr>u_Password := h, u_CreatedAt := t, u_ID := k\<rparr>]"
    using d by auto
  let ?u = "?n\<lparr>u_Password := h, u_CreatedAt := t, u_ID := k\<rparr>"
  have u: "?u \<in> set (rows (users (db w2)))" "u_live ?u" "u_IsActive ?u" "u_UserName ?u = rg_Username req"
    using rows by (simp_all add: new_user_def)
  from first_user_unique [OF assms(1) valid u(1,2), of "rg_Username req"] u(4) obtain w5
    where f5: "first_user e (\<lambda>u. collate e (u_UserName u) = collate e (rg_Username req)) w2 = (Inr ?u, w5)"
      and d5: "db w5 = db w2" by auto
  from first_user_unique [of e w5 ?u "rg_Username req"] assms(1) valid u d5 obtain w6
    where f6: "first_user e (\<lambda>u. collate e (u_UserName u) = collate e (rg_Username req)) w5 = (Inr ?u, w6)" by auto
  have chk: "bcrypt_check au (u_Password ?u) (rg_FirstPassword req)"
    using assms(2) h by (auto simp: bcrypt_law_def new_user_def)
  obtain tk w7 where "GenerateToken e au (u_ID ?u) (u_UserName ?u) w6 = (Inr tk, w7)"
    using assms(3) by (force simp: GenerateToken_def timeNow_def split: option.splits)
  with f5 f6 chk u show ?thesis
    by (auto simp: Login_def IsExist_def CheckPassword_def CheckPwd_def new_user_def)
qed


section \<open>Profiles\<close>

text \<open>Saving a profile whose fields already have the saved values reports that the user does
  not exist: MySQL counts the rows it changed, and the code takes none for not found.\<close>
theorem UpdateUserProfile_unchanged:
  assumes "fault e = (\<lambda>_. False)" and "db_valid (collate e) (db w)"
    and "\<forall>u\<in>set (rows (users (db w))). u_ID u = k \<longrightarrow> apply_updates req u = u"
    and "pu_Email req = None" and "pu_NickName req \<noteq> None \<or> pu_AvatarURL req \<noteq> None \<or> pu_Bio req \<noteq> None"
  shows "fst (UpdateUserProfile e k req w) = Inl RecordNotFound"
proof -
  let ?f = "\<lambda>d. (length (filter (\<lambda>r. u_live r \<and> u_ID r = k \<and> apply_updates req r \<noteq> r) (rows (users d))),
      d\<lparr>users := update_rows (\<lambda>r. u_live r \<and> u_ID r = k) (apply_updates req) (users d)\<rparr>)"
  have "filter (\<lambda>r. u_live r \<and> u_ID r = k \<and> apply_updates req r \<noteq> r) (rows (users (db w))) = []"
    using assms(3) by (auto simp: filter_empty_conv)
  moreover have "update_where (\<lambda>r. u_live r \<and> u_ID r = k) (apply_updates req) (rows (users (db w)))
      = rows (users (db w))"
    using assms(3) by (auto intro: map_idI)
  then have "(db w)\<lparr>users := update_rows (\<lambda>r. u_live r \<and> u_ID r = k) (apply_updates req) (users (db w))\<rparr> = db w"
    by (simp add: update_rows_def)
  ultimately have f: "?f (db w) = (0, db w)" by simp
  have "update_users e (\<lambda>u. u_ID u = k) (apply_updates req) w
      = (Inr 0, w\<lparr>requests := Suc (requests w), db := db w\<rparr>)"
    unfolding update_users_def by (rule execute_no_fault [of e ?f, OF assms(1) f assms(2)])
  then show ?thesis using assms(4,5) by (auto simp: UpdateUserProfile_def check_email_def)
qed

section \<open>Runs\<close>

definition claims0 :: claims where
  "claims0 = \<lparr>cl_UserId = 1, cl_Username = ''ann'', cl_ExpiresAt = day_ns, cl_IssuedAt = 0,
     cl_NotBefore = 0\<rparr>"

definition auth0 :: auth where
  "auth0 = \<lparr>JWTSecret = ''k'', bcrypt_hash = (\<lambda>n p. Some (''$'' @ p)), bcrypt_check = (\<lambda>h p. h = ''$'' @ p),
     jwt_sign = (\<lambda>s c. if s = ''k'' \<and> c = claims0 then Some ''a.b.c'' else None),
     jwt_parts = (\<lambda>t. if t = ''a.b.c'' then Some (''HS256'', claims0) else None),
     jwt_verifies = (\<lambda>s t. s = ''k'' \<and> t = ''a.b.c'')\<rparr>"

lemma auth0_laws: "bcrypt_law auth0" "jwt_law auth0"
  by (auto simp: bcrypt_law_def jwt_law_def auth0_def)

lemma auth0_token: "fst (GenerateToken env0 auth0 1 ''ann'' world0) = Inr ''a.b.c''"
  by (simp add: GenerateToken_def timeNow_def auth0_def claims0_def numeric_date_def day_ns_def)

lemma token_roundtrip_witness:
  "AuthMiddleware auth0 1000 (''Bearer '' @ ''a.b.c'') = Some (Inr (1, ''ann''))"
proof -
  have "GenerateToken env0 auth0 1 ''ann'' world0 = (Inr ''a.b.c'', snd (GenerateToken env0 auth0 1 ''ann'' world0))"
    using auth0_token by (metis prod.collapse)
  from token_roundtrip [OF auth0_laws(2) this, of 1000] show ?thesis
    by (simp add: numeric_date_def day_ns_def)
qed

lemma AuthMiddleware_sound_witness:
  "\<exists>tok c. ''Bearer a.b.c'' = ''Bearer '' @ tok \<and> jwt_parts auth0 tok = Some (''HS256'', c) \<and> cl_UserId c = 1"
proof -
  have "AuthMiddleware auth0 1000 ''Bearer a.b.c'' = Some (Inr (1, ''ann''))" by code_simp
  from AuthMiddleware_sound [OF this] show ?thesis by blast
qed

lemma AuthMiddleware_malformed_panics_witness: "AuthMiddleware auth0 0 (''Bearer '' @ ''x'') = None"
  using AuthMiddleware_malformed_panics [of auth0 "''x''" 0] by (simp add: auth0_def)

definition auth1 :: auth where
  "auth1 = auth0\<lparr>jwt_sign := (\<lambda>s c. Some ''t'')\<rparr>"

definition register1 :: register_request where
  "register1 = \<lparr>rg_Username = ''bob'', rg_FirstPassword = ''p'', rg_LastPassword = ''p'', rg_Email = ''b@c''\<rparr>"

lemma register1_ok:
  "case Register env0 register1 world0 of ((c, _), tok, w1) \<Rightarrow> c = 200 \<and>
     fst (Activate env0 auth1 tok w1) = (200, ''account activated'')"
  by code_simp

lemma register_activate_login_witness:
  "case Register env0 register1 world0 of (_, tok, w1) \<Rightarrow>
     case Activate env0 auth1 tok w1 of (_, w2) \<Rightarrow>
       \<exists>t u w3. Login env0 auth1 ''bob'' ''p'' w2 = (Inr (t, u), w3) \<and> u_UserName u = ''bob''"
proof -
  obtain m tok w1 where r: "Register env0 register1 world0 = ((200, m), tok, w1)"
    and a: "fst (Activate env0 auth1 tok w1) = (200, ''account activated'')"
    using register1_ok by (auto split: prod.splits)
  obtain w2 where a2: "Activate env0 auth1 tok w1 = ((200, ''account activated''), w2)"
    using a by (metis prod.collapse)
  have "bcrypt_law auth1" by (simp add: bcrypt_law_def auth1_def auth0_def)
  moreover have "\<forall>c. jwt_sign auth1 (JWTSecret auth1) c \<noteq> None" by (simp add: auth1_def)
  ultimately show ?thesis
    using register_activate_login [of env0 auth1 register1 world0 m tok w1 w2] r a2
    by (fastforce simp: register1_def)
qed

lemma Login_sound_witness:
  "\<exists>w u tok u' w'. Login env0 auth1 ''bob'' ''p'' w = (Inr (tok, u'), w')
     \<and> u \<in> set (rows (users (db w))) \<and> u' = u\<lparr>u_Password := ''''\<rparr> \<and> u_IsActive u"
proof -
  obtain m tok w1 where r: "Register env0 register1 world0 = ((200, m), tok, w1)"
    and a: "fst (Activate env0 auth1 tok w1) = (200, ''account activated'')"
    using register1_ok by (auto split: prod.splits)
  have "case Register env0 register1 world0 of (_, tok, w1) \<Rightarrow>
      (case Login env0 auth1 ''bob'' ''p'' (snd (Activate env0 auth1 tok w1)) of (Inr _, _) \<Rightarrow> True | _ \<Rightarrow> False)"
    by code_simp
  with r obtain tok' u' w3 where l: "Login env0 auth1 ''bob'' ''p'' (snd (Activate env0 auth1 tok w1)) = (Inr (tok', u'), w3)"
    by (auto split: prod.splits sum.splits)
  from Login_sound [OF l] l show ?thesis by blast
qed

lemma UpdateUserProfile_unchanged_witness:
  "fst (UpdateUserProfile env0 1 \<lparr>pu_NickName = Some '''', pu_Email = None, pu_AvatarURL = None,
     pu_Bio = None\<rparr> world1) = Inl RecordNotFound"
proof -
  have "db_valid (collate env0) (db world1)" using world1_sound by (simp add: sound_def db_wf_def)
  moreover have "TrimSpace [] = []" by (rule TrimSpace_visible) simp
  ultimately show ?thesis
    using UpdateUserProfile_unchanged [of env0 world1 1 "\<lparr>pu_NickName = Some '''', pu_Email = None,
      pu_AvatarURL = None, pu_Bio = None\<rparr>"]
    by (simp add: apply_updates_def world1_def user1_def)
qed

end
