(* ===== verification/Remote.thy ===== *)
theory Remote
  imports Users "HOL-Library.Word"
begin

text \<open>
  Reaching outside: \<open>src/internal/service/minio.go\<close>. Which URLs the server may fetch for a user,
  the fetch itself with its redirects, and the uploads that store what was fetched or sent. Name
  resolution, the remote servers, URL parsing and the presigned links of the object store are
  parameters, gathered in \<open>net\<close>.
\<close>

unbundle bit_operations_syntax

section \<open>The network\<close>

text \<open>\<open>net.IP\<close>: 4 or 16 bytes.\<close>

type_synonym ip = "8 word list"

record url =
  url_Scheme :: string
  url_Hostname :: string
  url_String :: string

datatype http_reply =
    NetFail err                    \<comment> \<open>the exchange failed\<close>
  | Redirect url                   \<comment> \<open>a redirect, to the URL its location denotes\<close>
  | Response int int string        \<comment> \<open>status, \<open>ContentLength\<close>, body\<close>

record net =
  parseURL :: "string \<Rightarrow> url option"
  parseIP :: "string \<Rightarrow> ip option"
  lookupIP :: "nat \<Rightarrow> string \<Rightarrow> ip list option"     \<comment> \<open>at the n-th request\<close>
  reply :: "nat \<Rightarrow> url \<Rightarrow> http_reply"              \<comment> \<open>at the n-th request\<close>
  max_hops :: nat                                   \<comment> \<open>exchanges before \<open>DownloadHTTPTimeout\<close>\<close>
  unicodeLower :: "string \<Rightarrow> string"
  presigned :: "string \<Rightarrow> string \<Rightarrow> int \<Rightarrow> (string \<times> string) list \<Rightarrow> string"
  errText :: "err \<Rightarrow> string"                        \<comment> \<open>\<open>err.Error()\<close>\<close>

section \<open>Addresses\<close>

definition To4 :: "ip \<Rightarrow> ip option" where
  "To4 ip = (if length ip = 4 then Some ip
     else if length ip = 16 \<and> take 10 ip = replicate 10 0 \<and> ip ! 10 = 255 \<and> ip ! 11 = 255
     then Some (drop 12 ip) else None)"

definition IsLoopback :: "ip \<Rightarrow> bool" where
  "IsLoopback ip = (case To4 ip of Some v \<Rightarrow> v ! 0 = 127 | None \<Rightarrow> ip = replicate 15 0 @ [1])"

definition IsMulticast :: "ip \<Rightarrow> bool" where
  "IsMulticast ip = (case To4 ip of Some v \<Rightarrow> v ! 0 AND 0xF0 = 0xE0
     | None \<Rightarrow> length ip = 16 \<and> ip ! 0 = 0xFF)"

definition IsLinkLocalMulticast :: "ip \<Rightarrow> bool" where
  "IsLinkLocalMulticast ip = (case To4 ip of Some v \<Rightarrow> v ! 0 = 224 \<and> v ! 1 = 0 \<and> v ! 2 = 0
     | None \<Rightarrow> length ip = 16 \<and> ip ! 0 = 0xFF \<and> ip ! 1 AND 0x0F = 0x02)"

definition IsLinkLocalUnicast :: "ip \<Rightarrow> bool" where
  "IsLinkLocalUnicast ip = (case To4 ip of Some v \<Rightarrow> v ! 0 = 169 \<and> v ! 1 = 254
     | None \<Rightarrow> length ip = 16 \<and> ip ! 0 = 0xFE \<and> ip ! 1 AND 0xC0 = 0x80)"

definition IsUnspecified :: "ip \<Rightarrow> bool" where
  "IsUnspecified ip \<longleftrightarrow> To4 ip = Some [0, 0, 0, 0] \<or> ip = replicate 16 0"

definition IsPrivate :: "ip \<Rightarrow> bool" where
  "IsPrivate ip = (case To4 ip of
       Some v \<Rightarrow> v ! 0 = 10 \<or> v ! 0 = 172 \<and> v ! 1 AND 0xF0 = 16 \<or> v ! 0 = 192 \<and> v ! 1 = 168
     | None \<Rightarrow> length ip = 16 \<and> ip ! 0 AND 0xFE = 0xFC)"

definition isBlockedIP :: "ip \<Rightarrow> bool" where
  "isBlockedIP ip =
     (if IsLoopback ip \<or> IsMulticast ip \<or> IsLinkLocalMulticast ip \<or> IsLinkLocalUnicast ip
         \<or> IsUnspecified ip then True
      else if IsPrivate ip then True else False)"

section \<open>Which URLs may be fetched\<close>

definition host_entry_matches :: "net \<Rightarrow> string \<Rightarrow> string \<Rightarrow> bool" where
  "host_entry_matches nt host entry =
     (let entry = ToLower (unicodeLower nt) (TrimSpace entry) in
      if entry = [] then False
      else if HasPrefix entry ''.'' then HasSuffix host entry
      else host = entry)"

definition hostAllowed :: "net \<Rightarrow> string \<Rightarrow> string list \<Rightarrow> bool" where
  "hostAllowed nt host allowlist =
     (if allowlist = [] then True
      else let host = ToLower (unicodeLower nt) (TrimSpace host) in
           list_ex (host_entry_matches nt host) allowlist)"

definition isLocalHostname :: "net \<Rightarrow> string \<Rightarrow> bool" where
  "isLocalHostname nt host =
     (let host = ToLower (unicodeLower nt) (TrimSpace host) in
      if host = ''localhost'' \<or> host = ''localhost.localdomain'' then True
      else if HasSuffix host ''.local'' then True else False)"

definition validateDownloadURL :: "net \<Rightarrow> env \<Rightarrow> string \<Rightarrow> url step" where
  "validateDownloadURL nt e rawURL w =
     (case parseURL nt (TrimSpace rawURL) of
        None \<Rightarrow> (Inl (Errorf ''invalid url''), w)
      | Some u \<Rightarrow>
          if url_Scheme u \<noteq> ''http'' \<and> url_Scheme u \<noteq> ''https'' then (Inl (Errorf ''unsupported scheme''), w)
          else if url_Hostname u = [] then (Inl (Errorf ''missing host''), w)
          else if \<not> hostAllowed nt (url_Hostname u) (DownloadAllowedHosts (AppConfig e))
          then (Inl (Errorf ''host not allowed''), w)
          else if DownloadAllowPrivate (AppConfig e) then (Inr u, w)
          else if isLocalHostname nt (url_Hostname u) then (Inl (Errorf ''host not allowed''), w)
          else
         (case parseIP nt (url_Hostname u) of
            Some ip \<Rightarrow> if isBlockedIP ip then (Inl (Errorf ''ip not allowed''), w) else (Inr u, w)
          | None \<Rightarrow>
             (let n = requests w; w = w\<lparr>requests := Suc n\<rparr> in
              case lookupIP nt n (url_Hostname u) of
                None \<Rightarrow> (Inl (Errorf ''host not resolvable''), w)
              | Some ips \<Rightarrow>
                  if ips = [] then (Inl (Errorf ''host not resolvable''), w)
                  else if list_ex isBlockedIP ips then (Inl (Errorf ''ip not allowed''), w)
                  else (Inr u, w))))"

definition ValidateDownloadSourceURL :: "net \<Rightarrow> env \<Rightarrow> string \<Rightarrow> unit step" where
  "ValidateDownloadSourceURL nt e rawURL w =
     (case validateDownloadURL nt e rawURL w of (Inl err, w) \<Rightarrow> (Inl err, w) | (Inr _, w) \<Rightarrow> (Inr (), w))"

section \<open>Fetching\<close>

text \<open>
  \<open>client.Do\<close> with the \<open>CheckRedirect\<close> of the code: every redirect is validated before it is
  followed. The first component records the URLs a request was sent to.
\<close>

fun http_do :: "net \<Rightarrow> env \<Rightarrow> nat \<Rightarrow> url \<Rightarrow> world \<Rightarrow> (url list \<times> (int \<times> int \<times> string) result) \<times> world" where
  "http_do nt e 0 u w = (([], Inl ContextErr), w)"
| "http_do nt e (Suc hops) u w =
     (let n = requests w; w = w\<lparr>requests := Suc n\<rparr> in
      case reply nt n u of
        NetFail err \<Rightarrow> (([u], Inl err), w)
      | Response status len body \<Rightarrow> (([u], Inr (status, len, body)), w)
      | Redirect u' \<Rightarrow>
         (case validateDownloadURL nt e (url_String u') w of
            (Inl err, w) \<Rightarrow> (([u], Inl err), w)
          | (Inr _, w) \<Rightarrow> (case http_do nt e hops u' w of ((us, r), w) \<Rightarrow> ((u # us, r), w))))"

definition fetch :: "net \<Rightarrow> env \<Rightarrow> string \<Rightarrow> world \<Rightarrow> (url list \<times> (int \<times> int \<times> string) result) \<times> world" where
  "fetch nt e rawURL w =
     (case validateDownloadURL nt e rawURL w of
        (Inl err, w) \<Rightarrow> (([], Inl err), w)
      | (Inr parsed, w) \<Rightarrow> http_do nt e (max_hops nt) parsed w)"

definition DownloadByHTTP :: "net \<Rightarrow> env \<Rightarrow> string \<Rightarrow> string \<Rightarrow> nat \<Rightarrow> int step" where
  "DownloadByHTTP nt e rawURL fileName userId w =
     (case fetch nt e rawURL w of
        ((_, Inl err), w) \<Rightarrow> (Inl err, w)
      | ((_, Inr (status, len, body)), w) \<Rightarrow>
          if status \<noteq> 200 then (Inl (HTTPStatusError status), w)
          else if len < 0 then (Inl (Errorf ''unknown content length''), w)
          else if 0 < DownloadMaxBytes (AppConfig e) \<and> DownloadMaxBytes (AppConfig e) < len
          then (Inl (Errorf ''content too large''), w)
          else
         (case FindUserNameById e userId w of
            (Inl err, w) \<Rightarrow> (Inl err, w)
          | (Inr userName, w) \<Rightarrow>
         (case PutObject e (BucketName (AppConfig e)) (BuildObjectName userName fileName) body w of
            (Inl err, w) \<Rightarrow> (Inl err, w)
          | (Inr _, w) \<Rightarrow> (Inr len, w))))"

text \<open>Storing a new object and a file on it, taking both back when the file is refused.\<close>

definition store_new :: "env \<Rightarrow> nat \<Rightarrow> string \<Rightarrow> string \<Rightarrow> string \<Rightarrow> int \<Rightarrow> file_object" where
  "store_new e userID hash bucket objectName size' = \<lparr>fo_ID = 0, fo_UserID = userID, fo_Hash = hash,
     fo_BucketName = bucket, fo_ObjectName = objectName, fo_Size = size', fo_RefCount = 1, fo_CreatedAt = 0\<rparr>"

definition UploadFromURL :: "net \<Rightarrow> env \<Rightarrow> nat \<Rightarrow> string \<Rightarrow> string \<Rightarrow> nat option \<Rightarrow> nat step" where
  "UploadFromURL nt e userID rawURL fileName parentID w =
     (case ValidateDownloadSourceURL nt e rawURL w of
        (Inl err, w) \<Rightarrow> (Inl err, w)
      | (Inr _, w) \<Rightarrow>
     (let (fileHash, w) = GetToken e w in
      case DownloadByHTTP nt e rawURL fileHash userID w of
        (Inl err, w) \<Rightarrow> (Inl err, w)
      | (Inr len, w) \<Rightarrow>
     (case FindUserNameById e userID w of
        (Inl err, w) \<Rightarrow> (Inl err, w)
      | (Inr userName, w) \<Rightarrow>
     (let objectName = BuildObjectName userName fileHash; bucket = BucketName (AppConfig e) in
      case CreateFilesObject e (store_new e userID fileHash bucket objectName len) w of
        (Inl err, w) \<Rightarrow> (Inl err, snd (RemoveStoreObject e bucket objectName w))
      | (Inr fileObj, w) \<Rightarrow>
     (case CreateUserFileEntry e (new_file userID parentID fileName False (Some (fo_ID fileObj)) len) w of
        (Inl err, w) \<Rightarrow>
          (Inl err, snd (delete_object e (fo_ID fileObj) (snd (RemoveStoreObject e bucket objectName w))))
      | (Inr k, w) \<Rightarrow> (Inr k, w))))))"

section \<open>Uploading through the server\<close>

definition find_by_path :: "env \<Rightarrow> string \<Rightarrow> string \<Rightarrow> file_object step" where
  "find_by_path e bucketName objectName = first_object e (\<lambda>r.
     collate e (fo_BucketName r) = collate e bucketName \<and> collate e (fo_ObjectName r) = collate e objectName)"

definition reuse_object :: "env \<Rightarrow> file_object \<Rightarrow> string \<Rightarrow> string \<Rightarrow> string \<Rightarrow> int \<Rightarrow> unit step" where
  "reuse_object e existingObj bucketName objectName contents size' w =
     (case isFileObjectAvailable e existingObj w of
        (Inl err, w) \<Rightarrow> (Inl err, w)
      | (Inr available, w) \<Rightarrow>
          if available then (Inr (), w) else
     (case PutObject e bucketName objectName contents w of
        (Inl err, w) \<Rightarrow> (Inl err, w)
      | (Inr _, w) \<Rightarrow>
          update_objects e (\<lambda>r. fo_ID r = fo_ID existingObj)
            (\<lambda>r. r\<lparr>fo_BucketName := bucketName, fo_ObjectName := objectName, fo_Size := size'\<rparr>) w))"

definition upload_object ::
  "env \<Rightarrow> nat \<Rightarrow> string \<Rightarrow> string \<Rightarrow> string \<Rightarrow> int \<Rightarrow> string \<Rightarrow> (nat \<times> bool) step" where
  "upload_object e userId bucketName objectName contents size' hash w =
     (case find_by_path e bucketName objectName w of
        (Inr existingObj, w) \<Rightarrow>
          (case reuse_object e existingObj bucketName objectName contents size' w of
             (Inl err, w) \<Rightarrow> (Inl err, w)
           | (Inr _, w) \<Rightarrow>
          (case IncreaseRefCount e (fo_ID existingObj) w of
             (Inl err, w) \<Rightarrow> (Inl err, w)
           | (Inr _, w) \<Rightarrow> (Inr (fo_ID existingObj, False), w)))
      | (Inl err, w) \<Rightarrow>
          if err \<noteq> RecordNotFound then (Inl err, w) else
          (case PutObject e bucketName objectName contents w of
             (Inl err, w) \<Rightarrow> (Inl err, w)
           | (Inr _, w) \<Rightarrow>
          (case CreateFilesObject e (store_new e userId hash bucketName objectName size') w of
             (Inl err, w) \<Rightarrow> (Inl err, w)
           | (Inr fileObject, w) \<Rightarrow> (Inr (fo_ID fileObject, True), w))))"

definition MinioUploadFile ::
  "env \<Rightarrow> nat \<Rightarrow> string \<Rightarrow> string \<Rightarrow> string \<Rightarrow> int \<Rightarrow> string \<Rightarrow> string \<Rightarrow> unit step" where
  "MinioUploadFile e userId bucketName objectName contents size' filePath hash w =
     (case upload_object e userId bucketName objectName contents size' hash w of
        (Inl err, w) \<Rightarrow> (Inl err, w)
      | (Inr (objectID, createdNew), w) \<Rightarrow>
     (case CreateUserFileEntry e (new_file userId None (path_Base filePath) False (Some objectID) size') w of
        (Inl err, w) \<Rightarrow>
          (Inl err, if createdNew
             then snd (delete_object e objectID (snd (RemoveStoreObject e bucketName objectName w)))
             else snd (DecreaseRefCount e objectID w))
      | (Inr _, w) \<Rightarrow> (Inr (), w)))"

section \<open>Reading back\<close>

definition MinioDownloadObject :: "env \<Rightarrow> string \<Rightarrow> string step" where
  "MinioDownloadObject e objectName w =
     (if objectName = [] then (Inl (Errorf ''object name missing''), w)
      else GetObject e (BucketName (AppConfig e)) objectName w)"

definition MinioDownloadFile :: "env \<Rightarrow> string \<Rightarrow> string \<Rightarrow> string step" where
  "MinioDownloadFile e username hash w =
     (if hash = [] then (Inl (Errorf ''file hash missing''), w) else
      case GetFileObjectByHash e hash w of
        (Inl err, w) \<Rightarrow> (Inl err, w)
      | (Inr obj, w) \<Rightarrow>
          MinioDownloadObject e (if fo_ObjectName obj = [] \<and> username \<noteq> []
            then BuildObjectName username hash else fo_ObjectName obj) w)"

definition disposition :: "string \<Rightarrow> string \<Rightarrow> string" where
  "disposition kind fileName = kind @ ''; filename='' @ [CHR 0x22] @ SanitizeHeaderFilename fileName @ [CHR 0x22]"

text \<open>When the link with response headers fails, a plain one is tried.\<close>

definition GetDownloadURL :: "net \<Rightarrow> env \<Rightarrow> string \<Rightarrow> string \<Rightarrow> string \<Rightarrow> int \<Rightarrow> string step" where
  "GetDownloadURL nt e bucketName objectName fileName expiry' w =
     (if objectName = [] then (Inl (Errorf ''object name missing''), w) else
      case attempt e (\<lambda>w. (Inr (presigned nt bucketName objectName expiry'
             [(''response-content-type'', GetContentBook (unicodeLower nt) fileName),
              (''response-content-disposition'', disposition ''attachment'' fileName)]), w)) w of
        (Inr u, w) \<Rightarrow> (Inr u, w)
      | (Inl _, w) \<Rightarrow> attempt e (\<lambda>w. (Inr (presigned nt bucketName objectName expiry' []), w)) w)"

definition GetPreviewURL :: "net \<Rightarrow> env \<Rightarrow> nat \<Rightarrow> nat \<Rightarrow> int \<Rightarrow> string step" where
  "GetPreviewURL nt e userID fileID expiry' w =
     (case first_file e (\<lambda>f. uf_ID f = fileID \<and> uf_UserID f = userID \<and> \<not> uf_IsDeleted f) w of
        (Inl err, w) \<Rightarrow> (Inl err, w)
      | (Inr file, w) \<Rightarrow>
     (case uf_ObjectID file of
        None \<Rightarrow> (Inl (Errorf ''file not found''), w)
      | Some k \<Rightarrow>
     (case first_object e (\<lambda>r. fo_ID r = k) w of
        (Inl err, w) \<Rightarrow> (Inl err, w)
      | (Inr obj, w) \<Rightarrow>
          attempt e (\<lambda>w. (Inr (presigned nt (fo_BucketName obj) (fo_ObjectName obj) expiry'
             [(''response-content-type'', GetContentBook (unicodeLower nt) (uf_Name file)),
              (''response-content-disposition'', disposition ''inline'' (uf_Name file))]), w)) w)))"


section \<open>Blocked addresses\<close>

lemma and240: "n AND 240 = (n div 16 mod 16) * (16::nat)"
proof -
  have m: "(240::nat) = push_bit 4 (mask 4)" by (simp add: mask_eq_exp_minus_1 push_bit_eq_mult)
  have "n AND push_bit 4 (mask 4) = push_bit 4 (take_bit 4 (drop_bit 4 n))"
    by (rule bit_eqI) (auto simp: bit_simps)
  then show ?thesis unfolding m by (simp add: push_bit_eq_mult take_bit_eq_mod drop_bit_eq_div)
qed
lemma high_nibble:
  fixes x :: "8 word"
  shows "x AND 0xF0 = 0xE0 \<longleftrightarrow> 224 \<le> x \<and> x \<le> 239" and "x AND 0xF0 = 16 \<longleftrightarrow> 16 \<le> x \<and> x \<le> 31"
proof -
  have u: "unat (x AND 0xF0) = (unat x div 16 mod 16) * 16" by (simp add: unsigned_and_eq and240)
  have b: "unat x < 256" using unsigned_less [of x] by simp
  then have "unat x div 16 < 16" by (simp add: div_less_iff_less_mult)
  then have d: "unat x div 16 mod 16 = unat x div 16" by simp
  show "x AND 0xF0 = 0xE0 \<longleftrightarrow> 224 \<le> x \<and> x \<le> 239"
    unfolding word_le_nat_alt word_unat_eq_iff u d by simp presburger
  show "x AND 0xF0 = 16 \<longleftrightarrow> 16 \<le> x \<and> x \<le> 31"
    unfolding word_le_nat_alt word_unat_eq_iff u d by simp presburger
qed

lemma To4_v4: "To4 [a, b, c, d] = Some [a, b, c, d]"
  by (simp add: To4_def)

lemma isBlockedIP_v4:
  "(isBlockedIP [a, b, c, d] \<longleftrightarrow> a = 127 \<or> 224 \<le> a \<and> a \<le> 239 \<or> a = 169 \<and> b = 254 \<or> a = 10
      \<or> a = 172 \<and> 16 \<le> b \<and> b \<le> 31 \<or> a = 192 \<and> b = 168 \<or> a = 0 \<and> b = 0 \<and> c = 0 \<and> d = 0)
   \<and> isBlockedIP (replicate 10 0 @ [255, 255, a, b, c, d]) = isBlockedIP [a, b, c, d]"
proof -
  note 4 = To4_v4
  have m: "To4 (replicate 10 0 @ [255, 255, a, b, c, d]) = Some [a, b, c, d]"
    by (simp add: To4_def nth_append)
  have "length [a, b, c, d] \<noteq> length (replicate 16 (0 :: 8 word))" by simp
  then have z: "[a, b, c, d] \<noteq> replicate 16 0" by metis
  have "(replicate 10 0 @ [255, 255, a, b, c, d]) ! 10 \<noteq> replicate 16 (0 :: 8 word) ! 10"
    by (simp add: nth_append)
  then have z2: "replicate 10 0 @ [255, 255, a, b, c, d] \<noteq> replicate 16 (0 :: 8 word)" by metis
  have "IsLinkLocalMulticast [a, b, c, d] \<Longrightarrow> IsMulticast [a, b, c, d]"
    by (auto simp: IsLinkLocalMulticast_def IsMulticast_def 4)
  then have b4: "isBlockedIP [a, b, c, d] \<longleftrightarrow> a = 127 \<or> 224 \<le> a \<and> a \<le> 239 \<or> a = 169 \<and> b = 254 \<or> a = 10
      \<or> a = 172 \<and> 16 \<le> b \<and> b \<le> 31 \<or> a = 192 \<and> b = 168 \<or> a = 0 \<and> b = 0 \<and> c = 0 \<and> d = 0"
    unfolding isBlockedIP_def IsLoopback_def IsMulticast_def IsLinkLocalUnicast_def IsUnspecified_def IsPrivate_def
    using z by (auto simp: 4 high_nibble)
  have "isBlockedIP (replicate 10 0 @ [255, 255, a, b, c, d]) = isBlockedIP [a, b, c, d]"
    unfolding isBlockedIP_def IsLoopback_def IsMulticast_def IsLinkLocalMulticast_def IsLinkLocalUnicast_def
      IsUnspecified_def IsPrivate_def 4 m using z z2 by simp
  with b4 show ?thesis by blast
qed

text \<open>Of the IPv4 addresses exactly the loopback, multicast, link-local and private ranges and
  \<open>0.0.0.0\<close> are refused, and writing an address as an IPv4-mapped IPv6 address does not get around it.\<close>
theorem isBlockedIP_ranges:
  "(isBlockedIP [a, b, c, d] \<longleftrightarrow> a = 127 \<or> 224 \<le> a \<and> a \<le> 239 \<or> a = 169 \<and> b = 254 \<or> a = 10
      \<or> a = 172 \<and> 16 \<le> b \<and> b \<le> 31 \<or> a = 192 \<and> b = 168 \<or> a = 0 \<and> b = 0 \<and> c = 0 \<and> d = 0)
   \<and> isBlockedIP (replicate 10 0 @ [255, 255, a, b, c, d]) = isBlockedIP [a, b, c, d]"
  by (rule isBlockedIP_v4)

section \<open>What a fetch may reach\<close>

text \<open>A host the code lets a fetch go to: allowed by the list and, unless private targets are
  allowed, not a local name, and resolving only to addresses that are not blocked.\<close>

definition vetted :: "net \<Rightarrow> env \<Rightarrow> url \<Rightarrow> bool" where
  "vetted nt e u \<longleftrightarrow> (url_Scheme u = ''http'' \<or> url_Scheme u = ''https'') \<and> url_Hostname u \<noteq> []
     \<and> hostAllowed nt (url_Hostname u) (DownloadAllowedHosts (AppConfig e))
     \<and> (DownloadAllowPrivate (AppConfig e) \<or> \<not> isLocalHostname nt (url_Hostname u) \<and>
        (case parseIP nt (url_Hostname u) of
           Some ip \<Rightarrow> \<not> isBlockedIP ip
         | None \<Rightarrow> \<exists>n ips. lookupIP nt n (url_Hostname u) = Some ips \<and> ips \<noteq> [] \<and> (\<forall>ip\<in>set ips. \<not> isBlockedIP ip)))"

text \<open>Parsing what the URL of a redirect prints gives a URL with its scheme and host.\<close>

definition url_law :: "net \<Rightarrow> bool" where
  "url_law nt \<longleftrightarrow> (\<forall>n u u' v. reply nt n u = Redirect u' \<longrightarrow>
     parseURL nt (TrimSpace (url_String u')) = Some v \<longrightarrow>
     url_Scheme v = url_Scheme u' \<and> url_Hostname v = url_Hostname u')"

lemma validate_vetted:
  "validateDownloadURL nt e raw w = (Inr u, w') \<Longrightarrow> parseURL nt (TrimSpace raw) = Some u \<and> vetted nt e u"
  unfolding validateDownloadURL_def vetted_def
  by (auto simp: Let_def list_ex_iff split: option.splits if_splits)

lemma vetted_cong:
  fixes u v :: url
  shows "url_Scheme v = url_Scheme u \<Longrightarrow> url_Hostname v = url_Hostname u \<Longrightarrow> vetted nt e v = vetted nt e u"
  by (simp add: vetted_def cong: option.case_cong)

lemma http_do_vetted:
  "http_do nt e hops u w = ((us, r), w') \<Longrightarrow> url_law nt \<Longrightarrow> vetted nt e u \<Longrightarrow> \<forall>v\<in>set us. vetted nt e v"
proof (induction nt e hops u w arbitrary: us r w' rule: http_do.induct)
  case (1 nt e u w)
  then show ?case by simp
next
  case (2 nt e hops u w)
  let ?w1 = "w\<lparr>requests := Suc (requests w)\<rparr>"
  show ?case
  proof (cases "reply nt (requests w) u")
    case (Redirect u')
    obtain x w2 where v: "validateDownloadURL nt e (url_String u') ?w1 = (x, w2)" by fastforce
    show ?thesis
    proof (cases x)
      case (Inl err)
      with 2(2,4) Redirect v show ?thesis by (auto simp: Let_def)
    next
      case (Inr v')
      from validate_vetted [OF v [unfolded Inr]] 2(3) Redirect vetted_cong [of v' u'] have vt: "vetted nt e u'"
        unfolding url_law_def by blast
      obtain us' r' w3 where h: "http_do nt e hops u' w2 = ((us', r'), w3)" by (metis prod.collapse)
      have "us = u # us'" using 2(2) Redirect v Inr h by (simp add: Let_def)
      with 2(1) [OF refl refl Redirect v [symmetric] Inr h 2(3) vt] 2(4) show ?thesis by simp
    qed
  qed (use 2(2,4) in \<open>auto simp: Let_def\<close>)
qed


section \<open>Downloads are bounded\<close>

lemma validate_core: "validateDownloadURL nt e raw w = (r, w') \<Longrightarrow> core w' = core w \<and> redis w' = redis w"
  unfolding validateDownloadURL_def by (auto simp: Let_def split: option.splits if_splits)

lemma http_do_core: "http_do nt e hops u w = (r, w') \<Longrightarrow> core w' = core w \<and> redis w' = redis w"
proof (induction nt e hops u w arbitrary: r w' rule: http_do.induct)
  case (1 nt e u w)
  then show ?case by simp
next
  case (2 nt e hops u w)
  let ?w1 = "w\<lparr>requests := Suc (requests w)\<rparr>"
  show ?case
  proof (cases "reply nt (requests w) u")
    case (Redirect u')
    obtain x w2 where v: "validateDownloadURL nt e (url_String u') ?w1 = (x, w2)" by fastforce
    note vc = validate_core [OF v]
    show ?thesis
    proof (cases x)
      case (Inl err)
      with 2(2) Redirect v vc show ?thesis by (auto simp: Let_def)
    next
      case (Inr v')
      obtain us' r' w3 where h: "http_do nt e hops u' w2 = ((us', r'), w3)" by (metis prod.collapse)
      from 2(1) [OF refl refl Redirect v [symmetric] Inr h] 2(2) Redirect v Inr h vc show ?thesis
        by (simp add: Let_def)
    qed
  qed (use 2(2) in \<open>auto simp: Let_def\<close>)
qed

lemma fetch_core: "fetch nt e raw w = (r, w') \<Longrightarrow> core w' = core w \<and> redis w' = redis w"
  unfolding fetch_def by (auto split: prod.splits sum.splits dest!: validate_core http_do_core)


lemma FindUserNameById_core: "FindUserNameById e k w = (r, w') \<Longrightarrow> core w' = core w"
  unfolding FindUserNameById_def first_user_def
  by (auto simp: query_row_def attempt_def Let_def split: prod.splits sum.splits option.splits if_splits
      dest!: cache_read_frame(2))

lemma DownloadByHTTP_cases:
  assumes "DownloadByHTTP nt e raw nm uid w = (r, w')"
  obtains err where "r = Inl err" "db w' = db w" "queues w' = queues w"
  | len us body n w1 w2 where "r = Inr len" "fetch nt e raw w = ((us, Inr (200, len, body)), w1)" "0 \<le> len"
      "0 < DownloadMaxBytes (AppConfig e) \<Longrightarrow> len \<le> DownloadMaxBytes (AppConfig e)"
      "FindUserNameById e uid w1 = (Inr n, w2)"
      "PutObject e (BucketName (AppConfig e)) (BuildObjectName n nm) body w2 = (Inr (), w')" "db w' = db w" "queues w' = queues w"
proof -
  obtain us q w1 where f: "fetch nt e raw w = ((us, q), w1)" by (metis prod.collapse)
  note fc = fetch_core [OF f]
  show ?thesis
  proof (cases q)
    case (Inl err)
    with assms f fc that(1) show ?thesis by (auto simp: DownloadByHTTP_def)
  next
    case (Inr x)
    obtain st len body where x: "x = (st, len, body)" by (metis prod_cases3)
    from assms f Inr x have d: "(if st \<noteq> 200 then (Inl (HTTPStatusError st), w1)
          else if len < 0 then (Inl (Errorf ''unknown content length''), w1)
          else if 0 < DownloadMaxBytes (AppConfig e) \<and> DownloadMaxBytes (AppConfig e) < len
          then (Inl (Errorf ''content too large''), w1)
          else
         (case FindUserNameById e uid w1 of
            (Inl err, w) \<Rightarrow> (Inl err, w)
          | (Inr userName, w) \<Rightarrow>
         (case PutObject e (BucketName (AppConfig e)) (BuildObjectName userName nm) body w of
            (Inl err, w) \<Rightarrow> (Inl err, w)
          | (Inr _, w) \<Rightarrow> (Inr len, w)))) = (r, w')"
      by (simp add: DownloadByHTTP_def)
    from d show ?thesis
    proof (elim if_eqE stepE, goal_cases)
      case (4 err w2)
      with FindUserNameById_core [OF 4(4)] fc that(1) show ?case by auto
    next
      case (5 n w2 err w3)
      with FindUserNameById_core [OF 5(4)] store_frame(1) [OF 5(5)] fc that(1) show ?case by auto
    next
      case (6 n w2 u w3)
      with FindUserNameById_core [OF 6(4)] store_frame(1) [OF 6(5)] fc f Inr x that(2) [of len us body w1 n w2]
      show ?case by auto
    qed (use fc that(1) in auto)
  qed
qed

lemma DownloadByHTTP_frame: "DownloadByHTTP nt e raw nm uid w = (r, w') \<Longrightarrow> db w' = db w \<and> queues w' = queues w"
  by (erule DownloadByHTTP_cases) auto

lemma DownloadByHTTP_db: "DownloadByHTTP nt e raw nm uid w = (r, w') \<Longrightarrow> db w' = db w"
  using DownloadByHTTP_frame by blast

text \<open>A download that succeeds came from a response with status 200 and a declared length within
  the configured limit, and its body is what the object of that user and name holds; no other
  object and nothing in the database changes.\<close>
theorem DownloadByHTTP_stores:
  assumes "DownloadByHTTP nt e rawURL fileName userId w = (Inr len, w')"
  shows "\<exists>us body w1 n w2. fetch nt e rawURL w = ((us, Inr (200, len, body)), w1)
    \<and> FindUserNameById e userId w1 = (Inr n, w2)
    \<and> obj_get (BucketName (AppConfig e), BuildObjectName n fileName) w' = Some body
    \<and> (\<forall>k. k \<noteq> (BucketName (AppConfig e), BuildObjectName n fileName) \<longrightarrow> obj_get k w' = obj_get k w)
    \<and> 0 \<le> len \<and> (0 < DownloadMaxBytes (AppConfig e) \<longrightarrow> len \<le> DownloadMaxBytes (AppConfig e))
    \<and> db w' = db w"
  using assms
proof (cases rule: DownloadByHTTP_cases)
  case (2 len' us body n w1 w2)
  have "store w2 = store w" using fetch_core [OF 2(2)] FindUserNameById_core [OF 2(5)] by simp
  with 2 PutObject_ok [OF 2(6)] PutObject_get [OF 2(6)] show ?thesis by (auto simp: obj_get_def)
qed simp

section \<open>Counts of the other uploads\<close>

lemma new_object_obtained:
  assumes "CreateFilesObject e (store_new e u h b n s) w = (Inr obj, w')" and "counted x e w"
  shows "obtained x e (fo_ID obj) True w' \<and> files (db w') = files (db w)"
  using CreateFilesObject_rel [OF assms(1) [unfolded store_new_def], of x] assms(2)
  by (auto simp: obtained_def counted_def)

lemma RemoveStoreObject_db: "db (snd (RemoveStoreObject e b n w)) = db w"
  using store_frame(3) [of e b n w] by (metis meta_eq prod.collapse)

lemma ValidateDownloadSourceURL_db: "ValidateDownloadSourceURL nt e raw w = (r, w') \<Longrightarrow> db w' = db w"
  unfolding ValidateDownloadSourceURL_def by (auto split: prod.splits sum.splits dest!: validate_core)

text \<open>Uploading from a URL keeps the counts, whichever step fails: exact without faults, and
  at least the number of files under faults; an upload that reports an error adds no file.\<close>
theorem UploadFromURL_keeps_counts:
  assumes "counted x e w" and "UploadFromURL nt e userID rawURL fileName parentID w = (r, w')"
  shows "counted x e w' \<and> (\<forall>err. r = Inl err \<longrightarrow> files (db w') = files (db w))"
  using assms(2) unfolding UploadFromURL_def Let_def GetToken_def prod.case
proof (elim stepE, goal_cases)
  case (1 err w1)
  then have "db w1 = db w" using ValidateDownloadSourceURL_db by blast
  with 1 assms(1) show ?case by (auto intro: counted_db)
next
  case (2 u1 w1 err w2)
  then have "db w1 = db w" using ValidateDownloadSourceURL_db by blast
  with 2 DownloadByHTTP_db [OF 2(2)] assms(1) show ?case by (auto intro: counted_db)
next
  case (3 u1 w1 len w2 err w3)
  then have "db w1 = db w" using ValidateDownloadSourceURL_db by blast
  with 3 DownloadByHTTP_db [OF 3(2)] FindUserNameById_core [OF 3(3)] assms(1) show ?case
    by (auto intro: counted_db)
next
  case (4 u1 w1 len w2 n w3 err w4)
  then have "db w1 = db w" using ValidateDownloadSourceURL_db by blast
  with 4 DownloadByHTTP_db [OF 4(2)] FindUserNameById_core [OF 4(3)] CreateFilesObject_InlD [OF 4(4)] assms(1)
  show ?case by (auto simp: RemoveStoreObject_db intro: counted_db)
next
  case (5 u1 w1 len w2 n w3 obj w4 err w5)
  then have "db w1 = db w" using ValidateDownloadSourceURL_db by blast
  with DownloadByHTTP_db [OF 5(2)] FindUserNameById_core [OF 5(3)] have d: "db w3 = db w" by simp
  note o4 = new_object_obtained [OF 5(4) counted_db [OF d assms(1)]]
  from entry_after_obtained [OF conjunct1 [OF o4] 5(5)] have o5: "obtained x e (fo_ID obj) True w5"
    and f5: "files (db w5) = files (db w4)" by auto
  from undo_new_counts [OF o5] 5(6) f5 o4 d show ?case by auto
next
  case (6 u1 w1 len w2 n w3 obj w4 k w5)
  then have "db w1 = db w" using ValidateDownloadSourceURL_db by blast
  with DownloadByHTTP_db [OF 6(2)] FindUserNameById_core [OF 6(3)] have d: "db w3 = db w" by simp
  note o4 = new_object_obtained [OF 6(4) counted_db [OF d assms(1)]]
  from entry_after_obtained [OF conjunct1 [OF o4] 6(5)] 6(6) show ?case by auto
qed


lemma reuse_object_quiet: "reuse_object e ob b n c s w = (r, w') \<Longrightarrow> quiet e w w'"
  unfolding reuse_object_def
proof (elim seqE if_eqE, goal_cases)
  case (1 err)
  with isFileObjectAvailable_frame [OF 1(1)] show ?case by (simp add: quiet_db)
next
  case (2 av w1)
  with isFileObjectAvailable_frame [OF 2(1)] show ?case by (simp add: quiet_db)
next
  case (3 av w1 err)
  with isFileObjectAvailable_frame [OF 3(1)] store_frame(1) [OF 3(3)] show ?case by (simp add: quiet_db)
next
  case (4 av w1 u w2)
  have "quiet e w w2" using isFileObjectAvailable_frame [OF 4(1)] store_frame(1) [OF 4(3)]
    by (simp add: quiet_db)
  with update_place_quiet [OF 4(4)] show ?case by (blast intro: quiet_trans)
qed

lemma upload_object_counts:
  assumes "upload_object e u b n c s h w = (r, w')" and "counted x e w"
  shows "files (db w') = files (db w) \<and>
    (case r of Inl _ \<Rightarrow> counted x e w' | Inr (k, new) \<Rightarrow> obtained x e k new w')"
proof -
  obtain y w1 where f: "find_by_path e b n w = (y, w1)" by fastforce
  have d1: "db w1 = db w" using first_object_core [OF f [unfolded find_by_path_def]] by simp
  note c1 = counted_db [OF d1 assms(2)]
  show ?thesis
  proof (cases y)
    case (Inr ob)
    with assms(1) f have "(case reuse_object e ob b n c s w1 of
             (Inl err, w) \<Rightarrow> (Inl err, w)
           | (Inr _, w) \<Rightarrow>
          (case IncreaseRefCount e (fo_ID ob) w of
             (Inl err, w) \<Rightarrow> (Inl err, w)
           | (Inr _, w) \<Rightarrow> (Inr (fo_ID ob, False), w))) = (r, w')"
      by (simp add: upload_object_def)
    then show ?thesis
    proof (elim stepE, goal_cases)
      case (1 err w2)
      with quiet_counted [OF reuse_object_quiet [OF 1(1)] c1] reuse_object_quiet [OF 1(1)] d1 show ?case
        by (auto simp: quiet_def)
    next
      case (2 u2 w2 err w3)
      with quiet_counted [OF reuse_object_quiet [OF 2(1)] c1] reuse_object_quiet [OF 2(1)] d1
        IncreaseRefCount_InlD [OF 2(2)] show ?case by (auto simp: quiet_def intro: counted_db)
    next
      case (3 u2 w2 v w3)
      with IncreaseRefCount_obtained [OF 3(2) quiet_counted [OF reuse_object_quiet [OF 3(1)] c1]]
        reuse_object_quiet [OF 3(1)] d1 show ?case by (auto simp: quiet_def)
    qed
  next
    case (Inl err)
    show ?thesis
    proof (cases "err = RecordNotFound")
      case False
      with assms(1) f Inl c1 d1 show ?thesis by (auto simp: upload_object_def)
    next
      case True
      with assms(1) f Inl have "(case PutObject e b n c w1 of
             (Inl err, w) \<Rightarrow> (Inl err, w)
           | (Inr _, w) \<Rightarrow>
          (case CreateFilesObject e (store_new e u h b n s) w of
             (Inl err, w) \<Rightarrow> (Inl err, w)
           | (Inr fileObject, w) \<Rightarrow> (Inr (fo_ID fileObject, True), w))) = (r, w')"
        by (simp add: upload_object_def)
      then show ?thesis
      proof (elim stepE, goal_cases)
        case (1 err w2)
        from store_frame(1) [OF 1(1)] have d2: "db w2 = db w1" by simp
        from 1 counted_db [OF d2 c1] d2 d1 show ?case by auto
      next
        case (2 u2 w2 err w3)
        from store_frame(1) [OF 2(1)] CreateFilesObject_InlD [OF 2(2)] have d2: "db w3 = db w1" by simp
        from 2 counted_db [OF d2 c1] d2 d1 show ?case by auto
      next
        case (3 u2 w2 obj w3)
        from store_frame(1) [OF 3(1)] have d2: "db w2 = db w1" by simp
        from new_object_obtained [OF 3(2) counted_db [OF d2 c1]] 3(3) d2 d1 show ?case by auto
      qed
    qed
  qed
qed

text \<open>An upload through the server keeps the counts in the same way, on a new object or one
  more reference to an object already stored under the name.\<close>
theorem MinioUploadFile_keeps_counts:
  assumes "counted x e w" and "MinioUploadFile e userId b n contents s filePath hash w = (r, w')"
  shows "counted x e w' \<and> (\<forall>err. r = Inl err \<longrightarrow> files (db w') = files (db w))"
proof -
  obtain y w1 where o1: "upload_object e userId b n contents s hash w = (y, w1)" by fastforce
  note c = upload_object_counts [OF o1 assms(1)]
  show ?thesis
  proof (cases y)
    case (Inl err)
    with assms(2) o1 c show ?thesis by (auto simp: MinioUploadFile_def)
  next
    case (Inr kn)
    obtain k new where kn: "kn = (k, new)" by fastforce
    obtain z w2 where cf: "CreateUserFileEntry e
        (new_file userId None (path_Base filePath) False (Some k) s) w1 = (z, w2)" by fastforce
    from c Inr kn have o2: "obtained x e k new w1" "files (db w1) = files (db w)" by auto
    note en = entry_after_obtained [OF o2(1) cf]
    show ?thesis
    proof (cases z)
      case (Inr i)
      with assms(2) o1 \<open>y = Inr kn\<close> kn cf en show ?thesis by (auto simp: MinioUploadFile_def)
    next
      case (Inl err)
      with assms(2) o1 \<open>y = Inr kn\<close> kn cf en o2(2) undo_new_counts [of x e k w2 b n] uncount_counts [of x e k w2]
      show ?thesis by (cases new) (auto simp: MinioUploadFile_def)
    qed
  qed
qed

section \<open>Runs\<close>

definition net0 :: net where
  "net0 = \<lparr>parseURL = (\<lambda>s. if s = ''http://h/f'' then Some \<lparr>url_Scheme = ''http'', url_Hostname = ''h'', url_String = s\<rparr>
       else None), parseIP = (\<lambda>_. None), lookupIP = (\<lambda>n h. Some [[8, 8, 8, 8]]),
     reply = (\<lambda>n u. Response 200 3 ''xyz''), max_hops = 3, unicodeLower = id,
     presigned = (\<lambda>b n t ps. b @ ''/'' @ n), errText = (\<lambda>_. ''e'')\<rparr>"

definition net1 :: net where
  "net1 = net0\<lparr>parseURL := (\<lambda>s. Some \<lparr>url_Scheme = ''http'', url_Hostname = ''h'', url_String = s\<rparr>),
     reply := (\<lambda>n u. if url_String u = ''a'' then Redirect \<lparr>url_Scheme = ''http'', url_Hostname = ''h'', url_String = ''b''\<rparr>
       else Response 200 3 ''xyz'')\<rparr>"

lemma UploadFromURL_keeps_counts_witness:
  "counted True env0 (snd (UploadFromURL net0 env0 1 ''http://h/f'' ''n'' None world1))"
proof -
  have "counted True env0 world1" using world1_sound by (simp add: sound_counted)
  from UploadFromURL_keeps_counts [OF this, of net0 1 "''http://h/f''" "''n''" None] show ?thesis
    by (metis prod.collapse)
qed

lemma MinioUploadFile_keeps_counts_witness:
  "counted True env0 (snd (MinioUploadFile env0 1 ''netdisk'' ''o'' ''xyz'' 3 ''d/n'' ''q'' world1))"
proof -
  have "counted True env0 world1" using world1_sound by (simp add: sound_counted)
  from MinioUploadFile_keeps_counts [OF this, of 1 "''netdisk''" "''o''" "''xyz''" 3 "''d/n''" "''q''"]
  show ?thesis by (metis prod.collapse)
qed

lemma validate0:
  "validateDownloadURL net0 env0 ''http://h/f'' w =
     (Inr \<lparr>url_Scheme = ''http'', url_Hostname = ''h'', url_String = ''http://h/f''\<rparr>,
      w\<lparr>requests := Suc (requests w)\<rparr>)"
proof -
  have "TrimSpace ''http://h/f'' = ''http://h/f''" by (simp add: TrimSpace_visible visible_def)
  moreover have "isLocalHostname net0 ''h'' = False" by code_simp
  ultimately show ?thesis
    by (simp add: validateDownloadURL_def net0_def config0_def hostAllowed_def isBlockedIP_v4)
qed

lemma validate1:
  assumes "s \<in> {''a'', ''b''}"
  shows "validateDownloadURL net1 env0 s w =
     (Inr \<lparr>url_Scheme = ''http'', url_Hostname = ''h'', url_String = s\<rparr>, w\<lparr>requests := Suc (requests w)\<rparr>)"
proof -
  have "TrimSpace ''a'' = ''a''" "TrimSpace ''b'' = ''b''" by (simp_all add: TrimSpace_visible visible_def)
  moreover have "isLocalHostname net1 ''h'' = False" by code_simp
  ultimately show ?thesis
    using assms by (auto simp: validateDownloadURL_def net1_def net0_def config0_def hostAllowed_def isBlockedIP_v4)
qed

lemma DownloadByHTTP_ok0:
  "case DownloadByHTTP net0 env0 ''http://h/f'' ''q'' 1 world1 of (Inr len, w') \<Rightarrow>
     len = 3 \<and> obj_get (''netdisk'', ''files/ann/q'') w' = Some ''xyz'' | _ \<Rightarrow> False"
  unfolding DownloadByHTTP_def fetch_def validate0 by code_simp

lemma DownloadByHTTP_stores_witness:
  "\<exists>w' n. DownloadByHTTP net0 env0 ''http://h/f'' ''q'' 1 world1 = (Inr 3, w') \<and> db w' = db world1
     \<and> obj_get (''netdisk'', BuildObjectName n ''q'') w' \<noteq> None"
proof -
  from DownloadByHTTP_ok0 obtain w' where d: "DownloadByHTTP net0 env0 ''http://h/f'' ''q'' 1 world1 = (Inr 3, w')"
    by (auto split: prod.splits sum.splits)
  from DownloadByHTTP_stores [OF d] d show ?thesis by (auto simp: config0_def)
qed


end
