(* ===== verification/Downloads.thy ===== *)
theory Downloads
  imports Remote
begin

text \<open>
  Offline downloads: the tasks of \<open>src/internal/task/download_task.go\<close> and the worker of
  \<open>src/internal/worker/download_worker.go\<close>. A task moves from \<open>pending\<close> to \<open>running\<close> and on to
  \<open>completed\<close>, \<open>retrying\<close> or \<open>failed\<close>; the worker handles one message of the queue of tasks at a
  time and answers it with an acknowledgement or puts it back.
\<close>

section \<open>The download_task table\<close>

definition create_task :: "env \<Rightarrow> download_task \<Rightarrow> nat step" where
  "create_task e r = execute_at e (\<lambda>t d. (next_key (tasks d), d\<lparr>tasks := insert_row dt_set
     (r\<lparr>dt_CreatedAt := t, dt_UpdatedAt := t\<rparr>) (tasks d)\<rparr>))"

definition first_task :: "env \<Rightarrow> (download_task \<Rightarrow> bool) \<Rightarrow> download_task step" where
  "first_task e p = query_row e (\<lambda>d. first_row dt_ID p (tasks d))"

text \<open>The result is the number of rows affected; every update sets \<open>updated_at\<close>.\<close>

definition update_tasks :: "env \<Rightarrow> (download_task \<Rightarrow> bool) \<Rightarrow> (download_task \<Rightarrow> download_task) \<Rightarrow> nat step" where
  "update_tasks e p f = execute_at e (\<lambda>t d. (length (filter p (rows (tasks d))),
     d\<lparr>tasks := update_rows p (\<lambda>r. (f r)\<lparr>dt_UpdatedAt := t\<rparr>) (tasks d)\<rparr>))"

section \<open>Tasks\<close>

definition markDownloadTaskFailed :: "net \<Rightarrow> env \<Rightarrow> nat \<Rightarrow> err \<Rightarrow> world \<Rightarrow> world" where
  "markDownloadTaskFailed nt e taskID err w =
     (let (finishedAt, w) = timeNow e w in
      snd (update_tasks e (\<lambda>r. dt_ID r = taskID) (\<lambda>r. r\<lparr>dt_Status := ''failed'',
        dt_ErrorMsg := errText nt err, dt_FinishedAt := Some finishedAt\<rparr>) w))"

definition CreateDownloadTask :: "net \<Rightarrow> env \<Rightarrow> nat \<Rightarrow> string \<Rightarrow> string \<Rightarrow> nat step" where
  "CreateDownloadTask nt e userID source fileName w =
     (let (tok, w) = GetToken e w in
      case create_task e \<lparr>dt_ID = 0, dt_UserID = userID, dt_Type = ''http'', dt_Source = source,
             dt_Bucket = BucketName (AppConfig e), dt_ObjectName = tok, dt_FileName = fileName,
             dt_Status = ''pending'', dt_Progress = 0, dt_ErrorMsg = '''', dt_RetryCount = 0,
             dt_NextRetryAt = None, dt_StartedAt = None, dt_FinishedAt = None, dt_CreatedAt = 0,
             dt_UpdatedAt = 0\<rparr> w of
        (Inl err, w) \<Rightarrow> (Inl err, w)
      | (Inr k, w) \<Rightarrow>
     (let body = TaskMsg \<lparr>dm_TaskID = k, dm_Attempt = 0\<rparr> in
      case GetPublisher e w of
        (Inl err, w) \<Rightarrow> (Inl err, markDownloadTaskFailed nt e k err w)
      | (Inr _, w) \<Rightarrow>
     (case PublishTask e body w of
        (Inl err, w) \<Rightarrow> (Inl err, markDownloadTaskFailed nt e k err w)
      | (Inr _, w) \<Rightarrow> (Inr k, w))))"

text \<open>A user's tasks, the newest first.\<close>

definition ListDownloadTasks :: "env \<Rightarrow> nat \<Rightarrow> int \<Rightarrow> download_task list step" where
  "ListDownloadTasks e userID limit = query e (\<lambda>d.
     let limit = (if limit \<le> 0 then 20 else limit)
     in take (nat limit) (rev (sort_key dt_CreatedAt
          (rev (filter (\<lambda>r. dt_UserID r = userID) (rows (tasks d)))))))"

text \<open>The object of a downloaded file: a new one, or the one already stored under the hash.\<close>

definition download_object :: "env \<Rightarrow> download_task \<Rightarrow> string \<Rightarrow> int \<Rightarrow> (nat \<times> bool) step" where
  "download_object e t objectName len w =
     (case CreateFilesObject e (store_new e (dt_UserID t) (dt_ObjectName t) (dt_Bucket t) objectName len) w of
        (Inr fileObj, w) \<Rightarrow> (Inr (fo_ID fileObj, True), w)
      | (Inl err, w) \<Rightarrow>
          (case GetFileObjectByHash e (dt_ObjectName t) w of
             (Inl _, w) \<Rightarrow> (Inl err, snd (RemoveStoreObject e (dt_Bucket t) objectName w))
           | (Inr existingObj, w) \<Rightarrow> (Inr (fo_ID existingObj, False), w)))"

text \<open>What follows a successful transfer.\<close>

definition finish_download :: "env \<Rightarrow> download_task \<Rightarrow> int \<Rightarrow> unit step" where
  "finish_download e t len w =
     (case FindUserNameById e (dt_UserID t) w of
        (Inl err, w) \<Rightarrow> (Inl err, w)
      | (Inr userName, w) \<Rightarrow>
     (let objectName = BuildObjectName userName (dt_ObjectName t) in
      case download_object e t objectName len w of
        (Inl err, w) \<Rightarrow> (Inl err, w)
      | (Inr (k, createdNewObject), w) \<Rightarrow>
     (case CreateUserFileEntry e (new_file (dt_UserID t) None (dt_FileName t) False (Some k) len) w of
        (Inl err, w) \<Rightarrow>
          (Inl err, if createdNewObject
             then snd (delete_object e k (snd (RemoveStoreObject e (dt_Bucket t) objectName w))) else w)
      | (Inr fileID, w) \<Rightarrow>
     (let (finishedAt, w) = timeNow e w in
      case update_tasks e (\<lambda>r. dt_ID r = dt_ID t) (\<lambda>r. r\<lparr>dt_Status := ''completed'', dt_Progress := 100,
             dt_FinishedAt := Some finishedAt\<rparr>) w of
        (Inl err, w) \<Rightarrow> (Inl err, w)
      | (Inr _, w) \<Rightarrow> (Inr (), snd (Emit e (dt_UserID t) ActionDownload fileID len w))))))"

definition ProcessDownloadTask :: "net \<Rightarrow> env \<Rightarrow> nat \<Rightarrow> unit step" where
  "ProcessDownloadTask nt e taskID w =
     (case first_task e (\<lambda>r. dt_ID r = taskID) w of
        (Inl err, w) \<Rightarrow> (Inl err, w)
      | (Inr t, w) \<Rightarrow>
          if dt_Status t = ''completed'' then (Inr (), w) else
     (let (startedAt, w) = timeNow e w in
      case update_tasks e (\<lambda>r. dt_ID r = taskID \<and> dt_Status r \<in> {''pending'', ''retrying''})
             (\<lambda>r. r\<lparr>dt_Status := ''running'', dt_Progress := 0, dt_StartedAt := Some startedAt,
                     dt_ErrorMsg := ''''\<rparr>) w of
        (Inl err, w) \<Rightarrow> (Inl err, w)
      | (Inr affected, w) \<Rightarrow>
          if affected = 0 then (Inr (), w) else
     (case DownloadByHTTP nt e (dt_Source t) (dt_ObjectName t) (dt_UserID t) w of
        (Inl err, w) \<Rightarrow> (Inl err, w)
      | (Inr len, w) \<Rightarrow> finish_download e t len w)))"

section \<open>The worker\<close>

definition shouldRetry :: "err \<Rightarrow> bool" where
  "shouldRetry err = (case err of
       RecordNotFound \<Rightarrow> False
     | HTTPStatusError status \<Rightarrow> if status = 408 \<or> status = 429 then True else 500 \<le> status
     | _ \<Rightarrow> True)"

definition pickRetryDelay :: "int \<Rightarrow> int list \<Rightarrow> int" where
  "pickRetryDelay attempt' delays =
     (if delays = [] then 0 else
      let index = attempt' - 1; index = (if index < 0 then 0 else index) in
      if int (length delays) \<le> index then delays ! (length delays - 1) else delays ! nat index)"

definition markFailed :: "net \<Rightarrow> env \<Rightarrow> download_message \<Rightarrow> err \<Rightarrow> unit step" where
  "markFailed nt e msg procErr w =
     (let (finishedAt, w) = timeNow e w in
      case update_tasks e (\<lambda>r. dt_ID r = dm_TaskID msg) (\<lambda>r. r\<lparr>dt_Status := ''failed'',
             dt_ErrorMsg := errText nt procErr, dt_FinishedAt := Some finishedAt\<rparr>) w of
        (Inl err, w) \<Rightarrow> (Inl err, w)
      | (Inr _, w) \<Rightarrow>
          (Inr (), snd (PublishDLQ e (DlqMsg \<lparr>dl_TaskID = dm_TaskID msg, dl_Attempt = dm_Attempt msg,
             dl_Error = procErr, dl_FailedAt = finishedAt\<rparr>) w)))"

definition scheduleRetry :: "net \<Rightarrow> env \<Rightarrow> download_message \<Rightarrow> err \<Rightarrow> unit step" where
  "scheduleRetry nt e msg procErr w =
     (let maxRetry = DownloadRetryMax (AppConfig e);
          maxRetry = (if maxRetry < 0 then 0 else maxRetry);
          nextAttempt = dm_Attempt msg + 1 in
      if maxRetry = 0 \<or> maxRetry < nextAttempt then markFailed nt e msg procErr w else
      let delay = pickRetryDelay nextAttempt (DownloadRetryDelays (AppConfig e));
          (now, w) = timeNow e w; nextRetryAt = now + delay in
      case update_tasks e (\<lambda>r. dt_ID r = dm_TaskID msg) (\<lambda>r. r\<lparr>dt_Status := ''retrying'',
             dt_ErrorMsg := errText nt procErr, dt_RetryCount := nextAttempt,
             dt_NextRetryAt := Some nextRetryAt\<rparr>) w of
        (Inl err, w) \<Rightarrow> (Inl err, w)
      | (Inr _, w) \<Rightarrow> PublishRetry e (TaskMsg (msg\<lparr>dm_Attempt := nextAttempt\<rparr>)) delay w)"

text \<open>Waiting for the rate limiter fails when the worker's context is cancelled.\<close>

definition handleDownloadMessage :: "net \<Rightarrow> env \<Rightarrow> mq_body \<Rightarrow> world \<Rightarrow> ack \<times> world" where
  "handleDownloadMessage nt e body w =
     (case body of
        TaskMsg msg \<Rightarrow>
          (case attempt e (\<lambda>w. (Inr (), w)) w of
             (Inl _, w) \<Rightarrow> (NackRequeue, w)
           | (Inr _, w) \<Rightarrow>
          (case ProcessDownloadTask nt e (dm_TaskID msg) w of
             (Inr _, w) \<Rightarrow> (Ack, w)
           | (Inl err, w) \<Rightarrow>
               if err = ContextErr then (NackRequeue, w)
               else (case (if shouldRetry err then scheduleRetry nt e msg err w
                           else markFailed nt e msg err w) of
                       (Inl _, w) \<Rightarrow> (NackRequeue, w)
                     | (Inr _, w) \<Rightarrow> (Ack, w))))
      | _ \<Rightarrow> (Ack, w))"


section \<open>What a transfer leaves alone\<close>

text \<open>The tasks, and the messages that name one, in the order they were queued.\<close>

definition task_msgs :: "world \<Rightarrow> (string \<times> mq_body \<times> string) list" where
  "task_msgs w = filter (\<lambda>(q, b, x). case b of TaskMsg _ \<Rightarrow> True | _ \<Rightarrow> False) (queues w)"

definition task_part :: "world \<Rightarrow> download_task table \<times> (string \<times> mq_body \<times> string) list" where
  "task_part w = (tasks (db w), task_msgs w)"

lemma task_part_eq [simp]:
  "task_part w' = task_part w \<longleftrightarrow> tasks (db w') = tasks (db w) \<and> task_msgs w' = task_msgs w"
  by (simp add: task_part_def)

lemma task_part_cong: "db w' = db w \<Longrightarrow> queues w' = queues w \<Longrightarrow> task_part w' = task_part w"
  by (simp add: task_msgs_def)

lemma tasks_daily: "db w' = (db w)\<lparr>daily := x\<rparr> \<Longrightarrow> tasks (db w') = tasks (db w)"
  by simp

lemma upsertDailyRow_svcs: "upsertDailyRow e u day inc w = (r, w') \<Longrightarrow> svcs w' = svcs w"
  by (auto simp: upsertDailyRow_def timeNow_def dest!: execute_frame)

lemma ApplyEvent_queues:
  assumes "ApplyEvent e ev w = (r, w')"
  shows "queues w' = queues w"
proof -
  note fr = redis_frame [unfolded core_eq] redis_add_daily_core [unfolded core_eq]
  from assms show ?thesis
    unfolding ApplyEvent_def Let_def
    by (auto simp: timeNow_def fr split: if_splits prod.splits sum.splits
        dest!: redis_frameD upsertDailyRow_svcs)
qed

lemma publish_msgs:
  "publish e x k (EventMsg ev) exp w = (r, w') \<Longrightarrow> task_msgs w' = task_msgs w"
  "publish e x k (DlqMsg dl) exp w = (r, w') \<Longrightarrow> task_msgs w' = task_msgs w"
  by (auto simp: publish_def attempt_def Let_def task_msgs_def filter_map comp_def split: if_splits)

lemma Publish_msgs:
  assumes "Publish e ev w = (r, ev', w')"
  shows "task_msgs w' = task_msgs w"
proof -
  have g: "task_msgs w2 = task_msgs w1" if "GetPublisher e w1 = (x, w2)" for x w1 w2
    using GetPublisher_data [OF that] by (simp add: task_msgs_def)
  have s: "task_msgs (w1\<lparr>reads := n\<rparr>) = task_msgs w1" "task_msgs (w1\<lparr>drawn := n\<rparr>) = task_msgs w1" for w1 n
    by (simp_all add: task_msgs_def)
  from assms show ?thesis
    by (auto simp: Publish_def GetToken_def timeNow_def Let_def PublishActivity_def s
        split: if_splits prod.splits sum.splits dest!: g publish_msgs)
qed

lemma Emit_task_part:
  assumes "Emit e u a k n w = (r, w')"
  shows "task_part w' = task_part w"
proof -
  let ?w0 = "w\<lparr>drawn := Suc (drawn w), reads := Suc (reads w)\<rparr>"
  have q: "task_msgs w2 = task_msgs w1" if "ApplyEvent e ev w1 = (x, w2)" for ev w1 w2 x
    using ApplyEvent_queues [OF that] by (simp add: task_msgs_def)
  have "task_msgs w' = task_msgs ?w0"
    using assms
    by (auto simp: Emit_def GetToken_def timeNow_def Let_def split: prod.splits sum.splits
        dest!: Publish_msgs q)
  moreover have "tasks (db w') = tasks (db w)"
    using Emit_only [OF assms] unfolding only_daily_def by (metis tasks_daily)
  ultimately show ?thesis by (simp add: task_msgs_def)
qed

lemma CreateUserFileEntry_task_part:
  assumes "CreateUserFileEntry e (new_file u p nm False (Some k) sz) w = (r, w')"
  shows "task_part w' = task_part w"
proof -
  let ?f = "new_file u p nm False (Some k) sz"
  have f: "CreateUserFileEntry e ?f w = CreateUserFile e ?f w" "uf_ObjectID ?f \<noteq> None"
    "uf_UserID ?f = u" "uf_ParentID ?f = p" "uf_Size ?f = sz"
    "new_file (uf_UserID ?f) (uf_ParentID ?f) (uf_Name ?f) False (uf_ObjectID ?f) (uf_Size ?f) = ?f"
    by (simp_all add: CreateUserFileEntry_def new_file_def)
  obtain y w1 where c: "create_file e ?f w = (y, w1)" by fastforce
  have t1: "task_part w1 = task_part w"
  proof (cases y)
    case (Inl err)
    with create_file_InlD [OF c [unfolded Inl]] create_file_frame [OF c] show ?thesis
      by (intro task_part_cong) simp_all
  next
    case (Inr i)
    with create_file_InrD [OF c [unfolded Inr]] create_file_frame [OF c] show ?thesis
      by (simp add: task_msgs_def)
  qed
  show ?thesis
  proof (cases y)
    case (Inl err)
    with assms f c t1 show ?thesis by (simp add: CreateUserFile_def)
  next
    case (Inr i)
    let ?w2 = "invalidateFileListCache e u p w1"
    obtain z w3 where em: "Emit e u ActionUpload i sz ?w2 = (z, w3)" by fastforce
    with assms f c Inr have "w' = w3" by (simp add: CreateUserFile_def Let_def)
    with Emit_task_part [OF em] t1 show ?thesis by (simp add: task_msgs_def)
  qed
qed

lemma object_task_part:
  "CreateFilesObject e ob w = (r1, w') \<Longrightarrow> task_part w' = task_part w"
  "delete_object e k w = (r2, w') \<Longrightarrow> task_part w' = task_part w"
proof -
  assume a: "CreateFilesObject e ob w = (r1, w')"
  obtain y w1 where c: "create_object e ob w = (y, w1)" by fastforce
  have core: "core w' = core w1" using a c by (auto simp: CreateFilesObject_def Let_def split: sum.splits)
  have "tasks (db w1) = tasks (db w)"
    using c by (cases y) (auto simp: create_object_def dest!: execute_at_okD execute_at_InlD)
  with core object_frame(1) [OF c] show "task_part w' = task_part w" by (simp add: task_msgs_def)
next
  assume c: "delete_object e k w = (r2, w')"
  have "tasks (db w') = tasks (db w)"
    using c by (cases r2) (auto simp: delete_object_def dest!: execute_okD execute_InlD)
  with object_frame(3) [OF c] show "task_part w' = task_part w" by (simp add: task_msgs_def)
qed

lemma meta_task_part: "meta w' = meta w \<Longrightarrow> task_part w' = task_part w"
  by (simp add: task_msgs_def)

lemma core_task_part: "core w' = core w \<Longrightarrow> task_part w' = task_part w"
  by (simp add: task_msgs_def)

lemma RemoveStoreObject_task_part: "task_part (snd (RemoveStoreObject e b n w)) = task_part w"
  using store_frame(3) [of e b n w] meta_task_part by (metis prod.collapse)


section \<open>What a step does to the tasks\<close>

lemma update_tasks_frame: "update_tasks e p f w = (r, w') \<Longrightarrow> svcs w' = svcs w \<and> task_msgs w' = task_msgs w"
  unfolding update_tasks_def by (drule execute_at_frame) (simp add: task_msgs_def)

lemma update_tasks_InrD:
  "update_tasks e p f w = (Inr n, w') \<Longrightarrow> n = length (filter p (rows (tasks (db w)))) \<and>
     (\<exists>t. db w' = (db w)\<lparr>tasks := update_rows p (\<lambda>r. (f r)\<lparr>dt_UpdatedAt := t\<rparr>) (tasks (db w))\<rparr>)"
  unfolding update_tasks_def by (auto dest!: execute_at_okD)

lemma update_tasks_InlD: "update_tasks e p f w = (Inl err, w') \<Longrightarrow> db w' = db w"
  unfolding update_tasks_def by (rule execute_at_InlD)

lemma download_object_task_part:
  assumes "download_object e t n len w = (r, w')"
  shows "task_part w' = task_part w"
proof -
  obtain y w1 where c: "CreateFilesObject e (store_new e (dt_UserID t) (dt_ObjectName t) (dt_Bucket t) n len) w = (y, w1)"
    by fastforce
  note t1 = object_task_part(1) [OF c]
  show ?thesis
  proof (cases y)
    case (Inr ob)
    with assms c t1 show ?thesis by (auto simp: download_object_def)
  next
    case (Inl err)
    obtain z w2 where g: "GetFileObjectByHash e (dt_ObjectName t) w1 = (z, w2)" by fastforce
    have "task_part w2 = task_part w" using core_task_part [OF GetFileObjectByHash_core [OF g]] t1 by simp
    with assms c Inl g RemoveStoreObject_task_part [of e "dt_Bucket t" n w2] show ?thesis
      by (cases z) (auto simp: download_object_def)
  qed
qed

text \<open>A row rewritten: the same task, in a given state.\<close>

definition moved_to :: "string \<Rightarrow> (download_task \<Rightarrow> download_task) \<Rightarrow> bool" where
  "moved_to s f \<longleftrightarrow> (\<forall>r. dt_ID (f r) = dt_ID r \<and> dt_Status (f r) = s)"

lemma finish_download_tasks:
  assumes "finish_download e t len w = (r, w')"
  shows "task_msgs w' = task_msgs w \<and> (case r of Inl _ \<Rightarrow> tasks (db w') = tasks (db w)
    | Inr _ \<Rightarrow> \<exists>f. moved_to ''completed'' f \<and> tasks (db w') = update_rows (\<lambda>r. dt_ID r = dt_ID t) f (tasks (db w)))"
  using assms unfolding finish_download_def Let_def timeNow_def prod.case
proof (elim stepE, goal_cases)
  case (1 err w1)
  with core_task_part [OF FindUserNameById_core [OF 1(1)]] show ?case by auto
next
  case (2 n w1 err w2)
  with core_task_part [OF FindUserNameById_core [OF 2(1)]] download_object_task_part [OF 2(2)] show ?case by auto
next
  case (3 n w1 kn w2)
  obtain k new where kn: "kn = (k, new)" by fastforce
  have t2: "task_part w2 = task_part w"
    using core_task_part [OF FindUserNameById_core [OF 3(1)]] download_object_task_part [OF 3(2)] by simp
  from 3(3) [unfolded kn prod.case] show ?case
  proof (elim stepE, goal_cases)
    case (1 err w3)
    note t3 = CreateUserFileEntry_task_part [OF 1(1)]
    have "task_part (snd (delete_object e k (snd (RemoveStoreObject e (dt_Bucket t)
        (BuildObjectName n (dt_ObjectName t)) w3)))) = task_part w3"
      using object_task_part(2) [of e k] RemoveStoreObject_task_part [of e "dt_Bucket t"
          "BuildObjectName n (dt_ObjectName t)" w3] by (metis prod.collapse)
    with 1(2) t3 t2 show ?case by (auto split: if_splits)
  next
    case (2 i w3 err w4)
    with CreateUserFileEntry_task_part [OF 2(1)] update_tasks_frame [OF 2(2)] update_tasks_InlD [OF 2(2)] t2
    show ?case by (auto simp: task_msgs_def)
  next
    case (3 i w3 m w4)
    obtain z w5 where em: "Emit e (dt_UserID t) ActionDownload i len w4 = (z, w5)" by fastforce
    note t5 = Emit_task_part [OF em]
    from update_tasks_InrD [OF 3(2)] obtain c where d: "tasks (db w4) = update_rows (\<lambda>r. dt_ID r = dt_ID t)
        (\<lambda>r. r\<lparr>dt_Status := ''completed'', dt_Progress := 100, dt_FinishedAt := Some (clock e (reads w3)),
          dt_UpdatedAt := c\<rparr>) (tasks (db w3))" by auto
    have "moved_to ''completed'' (\<lambda>r. r\<lparr>dt_Status := ''completed'', dt_Progress := 100,
        dt_FinishedAt := Some (clock e (reads w3)), dt_UpdatedAt := c\<rparr>)" by (simp add: moved_to_def)
    moreover have "tasks (db w3) = tasks (db w)" "task_msgs w3 = task_msgs w"
      using CreateUserFileEntry_task_part [OF 3(1)] t2 by auto
    moreover have "tasks (db w') = tasks (db w4)" "task_msgs w' = task_msgs w4" "r = Inr ()"
      using 3(3) em t5 by auto
    ultimately show ?case using d update_tasks_frame [OF 3(2)] by (auto simp: task_msgs_def)
  qed
qed

lemma update_rows_twice:
  "(\<And>r. dt_ID (f r) = dt_ID r) \<Longrightarrow> update_rows (\<lambda>r. dt_ID r = k) g (update_rows (\<lambda>r. dt_ID r = k) f t) =
    update_rows (\<lambda>r. dt_ID r = k) (g \<circ> f) t"
  by (simp add: update_rows_def comp_def)

text \<open>Processing a task: nothing happens to it, or it was waiting and is now running or completed.\<close>

abbreviation waiting :: "download_task \<Rightarrow> bool" where
  "waiting t \<equiv> dt_Status t = ''pending'' \<or> dt_Status t = ''retrying''"

definition processed :: "nat \<Rightarrow> world \<Rightarrow> unit result \<Rightarrow> world \<Rightarrow> bool" where
  "processed k w r w' \<longleftrightarrow>
     (tasks (db w') = tasks (db w) \<and> (\<forall>err. r = Inl err \<longrightarrow> (\<forall>t\<in>set (rows (tasks (db w))). dt_ID t \<noteq> k)))
     \<or> (\<exists>t\<in>set (rows (tasks (db w))). \<exists>f. dt_ID t = k \<and> waiting t
        \<and> moved_to (case r of Inl _ \<Rightarrow> ''running'' | Inr _ \<Rightarrow> ''completed'') f
        \<and> tasks (db w') = update_rows (\<lambda>r. dt_ID r = k) f (tasks (db w)))"

text \<open>The part after the task was found and is not completed.\<close>

definition claim_and_run :: "net \<Rightarrow> env \<Rightarrow> nat \<Rightarrow> download_task \<Rightarrow> unit step" where
  "claim_and_run nt e k t w =
     (case update_tasks e (\<lambda>r. dt_ID r = k \<and> dt_Status r \<in> {''pending'', ''retrying''})
             (\<lambda>r. r\<lparr>dt_Status := ''running'', dt_Progress := 0, dt_StartedAt := Some (clock e (reads w)),
                     dt_ErrorMsg := ''''\<rparr>) (w\<lparr>reads := Suc (reads w)\<rparr>) of
        (Inl err, w) \<Rightarrow> (Inl err, w)
      | (Inr affected, w) \<Rightarrow>
          if affected = 0 then (Inr (), w) else
     (case DownloadByHTTP nt e (dt_Source t) (dt_ObjectName t) (dt_UserID t) w of
        (Inl err, w) \<Rightarrow> (Inl err, w)
      | (Inr len, w) \<Rightarrow> finish_download e t len w))"

lemma ProcessDownloadTask_split:
  "ProcessDownloadTask nt e k w = (case first_task e (\<lambda>r. dt_ID r = k) w of
      (Inl err, w) \<Rightarrow> (Inl err, w)
    | (Inr t, w) \<Rightarrow> if dt_Status t = ''completed'' then (Inr (), w) else claim_and_run nt e k t w)"
  by (simp add: ProcessDownloadTask_def claim_and_run_def timeNow_def Let_def split: prod.splits sum.splits)

lemma first_task_frame: "first_task e p w = (r, w') \<Longrightarrow> db w' = db w \<and> queues w' = queues w
    \<and> (\<forall>t. r = Inr t \<longrightarrow> t \<in> set (rows (tasks (db w))) \<and> p t)"
  unfolding first_task_def by (drule query_rowD) (auto dest: first_row_SomeD)

lemma claim_and_run_msgs:
  assumes "claim_and_run nt e k t w = (r, w')"
  shows "task_msgs w' = task_msgs w"
  using assms unfolding claim_and_run_def
proof (elim stepE if_eqE, goal_cases)
  case (1 err w1)
  with update_tasks_frame [OF 1(1)] show ?case by (simp add: task_msgs_def)
next
  case (2 n w1)
  with update_tasks_frame [OF 2(1)] show ?case by (simp add: task_msgs_def)
next
  case (3 n w1 err w2)
  with update_tasks_frame [OF 3(1)] DownloadByHTTP_frame [OF 3(3)] show ?case by (simp add: task_msgs_def)
next
  case (4 n w1 len w2)
  from finish_download_tasks [OF 4(4)] have "task_msgs w' = task_msgs w2" by (cases r) auto
  with 4 update_tasks_frame [OF 4(1)] DownloadByHTTP_frame [OF 4(3)] show ?case by (simp add: task_msgs_def)
qed

lemma ProcessDownloadTask_msgs: "ProcessDownloadTask nt e k w = (r, w') \<Longrightarrow> task_msgs w' = task_msgs w"
  unfolding ProcessDownloadTask_split
  by (elim stepE if_eqE) (auto simp: task_msgs_def [of w] dest!: first_task_frame claim_and_run_msgs,
      simp_all add: task_msgs_def)

lemma update_tasks_no_fault:
  assumes "fault e = (\<lambda>_. False)" and "db_valid (collate e) (db w)"
  shows "\<exists>w'. update_tasks e p f w = (Inr (length (filter p (rows (tasks (db w))))), w')"
proof -
  have "db_valid (collate e) ((db w)\<lparr>tasks := t\<rparr>)" for t
    using assms(2) by (simp add: db_valid_def file_object_fk_def user_file_fk_def upload_session_fk_def file_share_fk_def)
  with assms(1) show ?thesis
    by (simp add: update_tasks_def execute_at_def timeNow_def execute_def attempt_def)
qed

lemma claim_and_run_tasks:
  assumes "claim_and_run nt e k t w = (r, w')" and "fault e = (\<lambda>_. False)" and "db_wf (collate e) (db w)"
    and "t \<in> set (rows (tasks (db w)))" and "dt_ID t = k"
  shows "processed k w r w'"
proof -
  let ?wait = "\<lambda>r. dt_ID r = k \<and> dt_Status r \<in> {''pending'', ''retrying''}"
  let ?f = "\<lambda>r. r\<lparr>dt_Status := ''running'', dt_Progress := 0, dt_StartedAt := Some (clock e (reads w)), dt_ErrorMsg := ''''\<rparr>"
  let ?w0 = "w\<lparr>reads := Suc (reads w)\<rparr>" and ?ts = "rows (tasks (db w))"
  have uniq: "r = t" if "r \<in> set ?ts" "dt_ID r = k" for r
    using dtt.keys_ok_same_key [of "tasks (db w)" r t] assms(3-5) that by (simp add: db_wf_def keys_wf_def)
  obtain w1 where up: "update_tasks e ?wait ?f ?w0 = (Inr (length (filter ?wait ?ts)), w1)"
    using update_tasks_no_fault [of e ?w0 ?wait ?f] assms(2,3) by (auto simp: db_wf_def)
  then obtain c where d1: "tasks (db w1) = update_rows ?wait (\<lambda>r. (?f r)\<lparr>dt_UpdatedAt := c\<rparr>) (tasks (db w))"
    using update_tasks_InrD [OF up] by auto
  show ?thesis
  proof (cases "waiting t")
    case False
    then have none: "\<forall>r\<in>set ?ts. \<not> ?wait r" using uniq by blast
    then have f0: "filter ?wait ?ts = []" by (auto simp: filter_empty_conv)
    have "update_where ?wait (\<lambda>r. (?f r)\<lparr>dt_UpdatedAt := c\<rparr>) ?ts = ?ts" by (rule update_where_none [OF none])
    then have "tasks (db w1) = tasks (db w)" unfolding d1 update_rows_def by simp
    moreover have "r = Inr ()" "w' = w1" using assms(1) up unfolding f0 claim_and_run_def by auto
    ultimately show ?thesis by (simp add: processed_def)
  next
    case True
    let ?g = "\<lambda>r. (?f r)\<lparr>dt_UpdatedAt := c\<rparr>"
    have "?wait t" using True assms(5) by simp
    from length_filter_pos [of t ?ts ?wait, OF assms(4) this]
    have n: "length (filter ?wait ?ts) \<noteq> 0" by (rule gr_implies_not0)
    have "update_where ?wait ?g ?ts = update_where (\<lambda>r. dt_ID r = k) ?g ?ts"
      by (rule update_where_cong) (use uniq True in blast)
    then have d1': "tasks (db w1) = update_rows (\<lambda>r. dt_ID r = k) ?g (tasks (db w))"
      unfolding d1 update_rows_def by simp
    have g: "moved_to ''running'' ?g" by (simp add: moved_to_def)
    obtain y w2 where dl: "DownloadByHTTP nt e (dt_Source t) (dt_ObjectName t) (dt_UserID t) w1 = (y, w2)" by fastforce
    note d2 = DownloadByHTTP_db [OF dl]
    show ?thesis
    proof (cases y)
      case (Inl err)
      with assms(1) up n dl have "r = Inl err" "w' = w2" by (simp_all add: claim_and_run_def)
      with d1' d2 g True assms(4,5) show ?thesis unfolding processed_def by auto
    next
      case (Inr len)
      with assms(1) up n dl have fd: "finish_download e t len w2 = (r, w')" by (simp add: claim_and_run_def)
      show ?thesis
      proof (cases r)
        case (Inl err)
        with finish_download_tasks [OF fd] d1' d2 g True assms(4,5) show ?thesis unfolding processed_def by auto
      next
        case (Inr u)
        with finish_download_tasks [OF fd] obtain h where h: "moved_to ''completed'' h"
          "tasks (db w') = update_rows (\<lambda>r. dt_ID r = k) h (tasks (db w2))" using assms(5) by auto
        have "tasks (db w') = update_rows (\<lambda>r. dt_ID r = k) (h \<circ> ?g) (tasks (db w))"
          unfolding h(2) d2 d1' by (rule update_rows_twice) simp
        moreover have "moved_to ''completed'' (h \<circ> ?g)" using h(1) by (simp add: moved_to_def)
        ultimately show ?thesis using True assms(4,5) Inr unfolding processed_def by auto
      qed
    qed
  qed
qed

lemma ProcessDownloadTask_tasks:
  assumes "ProcessDownloadTask nt e k w = (r, w')" and "fault e = (\<lambda>_. False)" and "db_wf (collate e) (db w)"
  shows "processed k w r w'"
  using assms(1) unfolding ProcessDownloadTask_split
proof (elim stepE if_eqE, goal_cases)
  case (1 err w1)
  then have "first_row dt_ID (\<lambda>r. dt_ID r = k) (tasks (db w)) = None"
    using assms(2) by (auto simp: first_task_def query_row_no_fault split: option.splits)
  then have "\<forall>t\<in>set (rows (tasks (db w))). dt_ID t \<noteq> k" by (simp add: first_row_None)
  with first_task_frame [OF 1(1)] 1 show ?case by (auto simp: processed_def)
next
  case (2 t w1)
  with first_task_frame [OF 2(1)] show ?case by (auto simp: processed_def)
next
  case (3 t w1)
  note f = first_task_frame [OF 3(1)]
  then have "processed k w1 r w'" using claim_and_run_tasks [OF 3(3) assms(2)] assms(3) by auto
  with f show ?case by (simp add: processed_def)
qed


section \<open>The worker's state machine\<close>

inductive status_step :: "string \<Rightarrow> string \<Rightarrow> bool" where
  claim_pending: "status_step ''pending'' ''running''"
| claim_retrying: "status_step ''retrying'' ''running''"
| complete: "status_step ''running'' ''completed''"
| retry: "status_step ''running'' ''retrying''"
| fail: "status_step ''running'' ''failed''"

inductive_cases status_stepE: "status_step s s'"

definition follows :: "nat \<Rightarrow> download_task \<Rightarrow> download_task \<Rightarrow> bool" where
  "follows k r r' \<longleftrightarrow> dt_ID r' = dt_ID r \<and>
     (if dt_ID r = k then status_step\<^sup>*\<^sup>* (dt_Status r) (dt_Status r') else r' = r)"

abbreviation trows :: "world \<Rightarrow> download_task list" where
  "trows w \<equiv> rows (tasks (db w))"

lemma follows_refl: "list_all2 (follows k) rs rs"
  by (rule list_all2_refl) (simp add: follows_def)

lemma follows_update:
  assumes "\<And>r. r \<in> set rs \<Longrightarrow> dt_ID r = k \<Longrightarrow> dt_ID (f r) = k \<and> status_step\<^sup>*\<^sup>* (dt_Status r) (dt_Status (f r))"
  shows "list_all2 (follows k) rs (update_where (\<lambda>r. dt_ID r = k) f rs)"
  using assms by (induction rs) (auto simp: follows_def)

text \<open>What recording a failure does: the task's rows take the given state, or nothing happens.\<close>

lemma record_failure_tasks:
  assumes "(if again then scheduleRetry nt e msg err w else markFailed nt e msg err w) = (r, w')"
  shows "tasks (db w') = tasks (db w) \<or> (\<exists>f s. (s = ''retrying'' \<or> s = ''failed'') \<and> moved_to s f
    \<and> tasks (db w') = update_rows (\<lambda>r. dt_ID r = dm_TaskID msg) f (tasks (db w)))"
proof -
  have upd: "tasks (db w2) = tasks (db w1) \<or> (\<exists>g. moved_to s g \<and>
      tasks (db w2) = update_rows (\<lambda>r. dt_ID r = dm_TaskID msg) g (tasks (db w1)))"
    if "update_tasks e (\<lambda>r. dt_ID r = dm_TaskID msg) f w1 = (x, w2)" "moved_to s f" for f s w1 x w2
  proof (cases x)
    case (Inl err)
    with update_tasks_InlD that(1) have "db w2 = db w1" by blast
    then show ?thesis by simp
  next
    case (Inr n)
    with that(1) update_tasks_InrD obtain t where
      "db w2 = (db w1)\<lparr>tasks := update_rows (\<lambda>r. dt_ID r = dm_TaskID msg) (\<lambda>r. (f r)\<lparr>dt_UpdatedAt := t\<rparr>) (tasks (db w1))\<rparr>"
      by blast
    moreover have "moved_to s (\<lambda>r. (f r)\<lparr>dt_UpdatedAt := t\<rparr>)" using that(2) by (simp add: moved_to_def)
    ultimately show ?thesis by auto
  qed
  have pd: "db (snd (PublishDLQ e m w1)) = db w1" for m w1
    using Publish_data(3) [of e m w1] by (metis data_eq prod.collapse)
  have mf: "tasks (db w2) = tasks (db w1) \<or> (\<exists>g. moved_to ''failed'' g \<and>
      tasks (db w2) = update_rows (\<lambda>r. dt_ID r = dm_TaskID msg) g (tasks (db w1)))"
    if "markFailed nt e msg err w1 = (x, w2)" for w1 x w2
    using that unfolding markFailed_def timeNow_def Let_def prod.case
    by (elim seqE) (drule upd [where s = "''failed''"], simp add: moved_to_def, force simp: pd)+
  show ?thesis
  proof (cases again)
    case False
    with assms mf show ?thesis by fastforce
  next
    case True
    with assms have sr: "scheduleRetry nt e msg err w = (r, w')" by simp
    show ?thesis
    proof (cases "(if DownloadRetryMax (AppConfig e) < 0 then 0 else DownloadRetryMax (AppConfig e)) = 0
        \<or> (if DownloadRetryMax (AppConfig e) < 0 then 0 else DownloadRetryMax (AppConfig e)) < dm_Attempt msg + 1")
      case True
      with sr have "markFailed nt e msg err w = (r, w')" unfolding scheduleRetry_def Let_def by (simp only: if_True)
      from mf [OF this] show ?thesis by blast
    next
      case False
      let ?a = "dm_Attempt msg + 1"
      let ?d = "pickRetryDelay ?a (DownloadRetryDelays (AppConfig e))"
      let ?f = "\<lambda>r. r\<lparr>dt_Status := ''retrying'', dt_ErrorMsg := errText nt err, dt_RetryCount := ?a,
          dt_NextRetryAt := Some (clock e (reads w) + ?d)\<rparr>"
      obtain x w2 where up: "update_tasks e (\<lambda>r. dt_ID r = dm_TaskID msg) ?f (w\<lparr>reads := Suc (reads w)\<rparr>) = (x, w2)"
        by (rule prod.exhaust)
      have "moved_to ''retrying'' ?f" by (simp add: moved_to_def)
      note u = upd [OF up this]
      have "tasks (db w') = tasks (db w2)"
      proof (cases x)
        case (Inl er)
        with sr False up show ?thesis unfolding scheduleRetry_def Let_def timeNow_def prod.case by simp
      next
        case (Inr n)
        with sr False up have "PublishRetry e (TaskMsg (msg\<lparr>dm_Attempt := ?a\<rparr>)) ?d w2 = (r, w')"
          unfolding scheduleRetry_def Let_def timeNow_def prod.case by simp
        with Publish_data(2) [OF this] show ?thesis by simp
      qed
      with u show ?thesis by auto
    qed
  qed
qed

lemma waiting_to_running: "waiting t \<Longrightarrow> status_step\<^sup>*\<^sup>* (dt_Status t) ''running''"
  by (rule r_into_rtranclp) (auto intro: status_step.intros)

lemma running_on: "status_step\<^sup>*\<^sup>* a ''running'' \<Longrightarrow> s \<in> {''completed'', ''retrying'', ''failed''} \<Longrightarrow> status_step\<^sup>*\<^sup>* a s"
  by (auto intro: rtranclp.rtrancl_into_rtrancl status_step.intros)

lemma follows_moved:
  assumes "t \<in> set rs" and "distinct (map dt_ID rs)" and "dt_ID t = k" and "waiting t" and "moved_to s f"
    and "s \<in> {''running'', ''completed'', ''retrying'', ''failed''}"
  shows "list_all2 (follows k) rs (update_where (\<lambda>r. dt_ID r = k) f rs)"
proof (rule follows_update)
  fix r
  assume "r \<in> set rs" "dt_ID r = k"
  with distinct_map_eq [OF assms(2) this(1) assms(1)] assms(3) have "r = t" by simp
  moreover have "status_step\<^sup>*\<^sup>* (dt_Status t) s"
    using waiting_to_running [OF assms(4)] running_on assms(6) by auto
  ultimately show "dt_ID (f r) = k \<and> status_step\<^sup>*\<^sup>* (dt_Status r) (dt_Status (f r))"
    using assms(3,5) by (simp add: moved_to_def)
qed



section \<open>Retries are bounded\<close>

lemma pickRetryDelay_eq:
  "pickRetryDelay a ds = (if ds = [] then 0 else ds ! nat (min (max 0 (a - 1)) (int (length ds) - 1)))"
proof (cases "ds = []")
  case False
  then have "1 \<le> length ds" by (cases ds) auto
  with False show ?thesis
    by (auto simp: pickRetryDelay_def Let_def max_def min_def nat_diff_distrib of_nat_diff)
qed (simp add: pickRetryDelay_def)

lemma markFailed_msgs: "markFailed nt e msg err w = (r, w') \<Longrightarrow> task_msgs w' = task_msgs w"
proof -
  have pd: "task_msgs (snd (PublishDLQ e (DlqMsg m) w1)) = task_msgs w1" for m w1
    using publish_msgs(2) [of e ExchangeDLQ RoutingDLQ m "''''" w1] unfolding PublishDLQ_def
    by (metis prod.collapse)
  assume "markFailed nt e msg err w = (r, w')"
  then show ?thesis
    unfolding markFailed_def timeNow_def Let_def prod.case
    by (elim seqE) (auto simp: pd task_msgs_def [of "w\<lparr>reads := n\<rparr>" for n] task_msgs_def [of w, symmetric]
        dest!: update_tasks_frame)
qed

text \<open>The message a failed attempt leaves in the retry queue.\<close>

definition retry_of :: "env \<Rightarrow> download_message \<Rightarrow> string \<times> mq_body \<times> string" where
  "retry_of e msg = (QueueRetry, TaskMsg (msg\<lparr>dm_Attempt := dm_Attempt msg + 1\<rparr>),
     show_int (max 0 (pickRetryDelay (dm_Attempt msg + 1) (DownloadRetryDelays (AppConfig e))) div 1000000))"

lemma PublishRetry_msgs:
  "PublishRetry e (TaskMsg m) d w = (r, w') \<Longrightarrow>
   task_msgs w' = task_msgs w @ (case r of Inl _ \<Rightarrow> [] | Inr _ \<Rightarrow> [(QueueRetry, TaskMsg m, show_int (max 0 d div 1000000))])"
  by (auto simp: PublishRetry_def publish_def attempt_def Let_def task_msgs_def max_def split: if_splits)

lemma scheduleRetry_msgs:
  assumes "scheduleRetry nt e msg err w = (r, w')"
  shows "task_msgs w' = task_msgs w \<or>
    dm_Attempt msg + 1 \<le> DownloadRetryMax (AppConfig e) \<and> task_msgs w' = task_msgs w @ [retry_of e msg]"
proof -
  let ?m = "if DownloadRetryMax (AppConfig e) < 0 then 0 else DownloadRetryMax (AppConfig e)"
  show ?thesis
  proof (cases "?m = 0 \<or> ?m < dm_Attempt msg + 1")
    case True
    with assms have "markFailed nt e msg err w = (r, w')" unfolding scheduleRetry_def Let_def by (simp only: if_True)
    from markFailed_msgs [OF this] show ?thesis by blast
  next
    case False
    then have le: "dm_Attempt msg + 1 \<le> DownloadRetryMax (AppConfig e)" by (auto split: if_splits)
    let ?a = "dm_Attempt msg + 1"
    let ?d = "pickRetryDelay ?a (DownloadRetryDelays (AppConfig e))"
    let ?f = "\<lambda>r. r\<lparr>dt_Status := ''retrying'', dt_ErrorMsg := errText nt err, dt_RetryCount := ?a,
        dt_NextRetryAt := Some (clock e (reads w) + ?d)\<rparr>"
    obtain x w2 where up: "update_tasks e (\<lambda>r. dt_ID r = dm_TaskID msg) ?f (w\<lparr>reads := Suc (reads w)\<rparr>) = (x, w2)"
      by (rule prod.exhaust)
    have m2: "task_msgs w2 = task_msgs w" using update_tasks_frame [OF up] by (simp add: task_msgs_def)
    show ?thesis
    proof (cases x)
      case (Inl er)
      with assms False up m2 show ?thesis unfolding scheduleRetry_def Let_def timeNow_def prod.case by simp
    next
      case (Inr n)
      with assms False up have "PublishRetry e (TaskMsg (msg\<lparr>dm_Attempt := ?a\<rparr>)) ?d w2 = (r, w')"
        unfolding scheduleRetry_def Let_def timeNow_def prod.case by simp
      from PublishRetry_msgs [OF this] m2 le show ?thesis by (cases r) (auto simp: retry_of_def)
    qed
  qed
qed


section \<open>Redelivery\<close>

lemma claim_skip:
  assumes "fault e = (\<lambda>_. False)" and "db_wf (collate e) (db w)"
    and "t \<in> set (trows w)" "dt_ID t = k" and "\<not> waiting t"
  shows "\<exists>w'. claim_and_run nt e k t w = (Inr (), w') \<and> db w' = db w"
proof -
  let ?wait = "\<lambda>r. dt_ID r = k \<and> dt_Status r \<in> {''pending'', ''retrying''}"
  let ?f = "\<lambda>r. r\<lparr>dt_Status := ''running'', dt_Progress := 0, dt_StartedAt := Some (clock e (reads w)), dt_ErrorMsg := ''''\<rparr>"
  let ?w0 = "w\<lparr>reads := Suc (reads w)\<rparr>"
  have uniq: "r = t" if "r \<in> set (trows w)" "dt_ID r = k" for r
    using dtt.keys_ok_same_key [of "tasks (db w)" r t] assms(2-4) that by (simp add: db_wf_def keys_wf_def)
  then have none: "\<forall>r\<in>set (trows w). \<not> ?wait r" using assms(5) by blast
  then have f0: "filter ?wait (trows w) = []" by (auto simp: filter_empty_conv)
  obtain w1 where up: "update_tasks e ?wait ?f ?w0 = (Inr (length (filter ?wait (trows w))), w1)"
    using update_tasks_no_fault [of e ?w0 ?wait ?f] assms(1,2) by (auto simp: db_wf_def)
  then obtain c where "db w1 = (db w)\<lparr>tasks := update_rows ?wait (\<lambda>r. (?f r)\<lparr>dt_UpdatedAt := c\<rparr>) (tasks (db w))\<rparr>"
    using update_tasks_InrD [OF up] by auto
  moreover have "update_where ?wait (\<lambda>r. (?f r)\<lparr>dt_UpdatedAt := c\<rparr>) (trows w) = trows w"
    by (rule update_where_none [OF none])
  ultimately have "db w1 = db w" by (simp add: update_rows_def)
  then show ?thesis using up unfolding f0 claim_and_run_def by simp
qed

lemma handle_not_waiting:
  assumes "fault e = (\<lambda>_. False)" and "db_wf (collate e) (db w)"
    and "t \<in> set (trows w)" "dt_ID t = dm_TaskID msg" and "\<not> waiting t"
  shows "\<exists>w'. handleDownloadMessage nt e (TaskMsg msg) w = (Ack, w') \<and> db w' = db w"
proof -
  let ?w1 = "w\<lparr>requests := Suc (requests w)\<rparr>"
  have at: "attempt e (\<lambda>w. (Inr (), w)) w = (Inr (), ?w1)" using assms(1) by (simp add: attempt_def)
  have dist: "distinct (map dt_ID (trows w))"
    using assms(2) by (auto simp: db_wf_def keys_wf_def intro: dtt.keys_ok_distinct)
  from first_row_unique [OF dist assms(3), of "\<lambda>_. True"] assms(1,4)
  have ft: "first_task e (\<lambda>r. dt_ID r = dm_TaskID msg) ?w1 = (Inr t, ?w1\<lparr>requests := Suc (requests ?w1)\<rparr>)"
    by (simp add: first_task_def query_row_no_fault)
  show ?thesis
  proof (cases "dt_Status t = ''completed''")
    case True
    with at ft show ?thesis by (simp add: handleDownloadMessage_def ProcessDownloadTask_split)
  next
    case False
    from claim_skip [OF assms(1), of "?w1\<lparr>requests := Suc (requests ?w1)\<rparr>" t "dm_TaskID msg" nt] assms(2-5)
    obtain w' where "claim_and_run nt e (dm_TaskID msg) t (?w1\<lparr>requests := Suc (requests ?w1)\<rparr>) = (Inr (), w')"
      "db w' = db w" by auto
    with at ft False show ?thesis by (simp add: handleDownloadMessage_def ProcessDownloadTask_split)
  qed
qed

text \<open>A message delivered again for a task that is completed or failed is acknowledged and
  changes nothing in the database: a task is not executed twice.\<close>
theorem redelivery_ignored:
  assumes "fault e = (\<lambda>_. False)" and "db_wf (collate e) (db w)"
    and "t \<in> set (trows w)" and "dt_ID t = dm_TaskID msg"
    and "dt_Status t = ''completed'' \<or> dt_Status t = ''failed''"
  shows "\<exists>w'. handleDownloadMessage nt e (TaskMsg msg) w = (Ack, w') \<and> db w' = db w"
  by (rule handle_not_waiting [OF assms(1-4)]) (use assms(5) in auto)

lemma update_tasks_wf: "update_tasks e p f w = (r, w') \<Longrightarrow> (\<And>r. dt_ID (f r) = dt_ID r) \<Longrightarrow> wf_step e w w'"
proof -
  assume u: "update_tasks e p f w = (r, w')" and f: "\<And>r. dt_ID (f r) = dt_ID r"
  have "db_wf (collate e) (db (snd (update_tasks e p f w)))" if "db_wf (collate e) (db w)"
    unfolding update_tasks_def using that
    by (rule execute_at_db_wf) (auto simp: keys_wf_def f intro!: dtt.keys_ok_upd)
  with u show ?thesis by simp
qed



section \<open>Counts of downloaded files\<close>

lemma FindUserNameById_unknown:
  assumes "FindUserNameById e k w = (r, w')" and "unknown_hash e h w"
  shows "unknown_hash e h w'"
proof -
  have key: "user_info_key k \<noteq> file_object_hash_key h"
    by (simp add: user_info_key_def file_object_hash_key_def BuildCacheKey_def CacheKeyUserInfo_def
        CacheKeyFileObjectHash_def)
  have st: "map_of (redis (snd (redis_set e (user_info_key k) v ttl w1))) (file_object_hash_key h)
      = map_of (redis w1) (file_object_hash_key h)" for v ttl w1
    using key by (simp add: redis_set_def attempt_def Let_def map_of_update)
  have rd: "redis w2 = redis w1" if "GetUserInfoFromCache e k w1 = (c, w2)" for c w1 w2
    using that by (auto simp: GetUserInfoFromCache_def split: prod.splits sum.splits rval.splits dest!: redis_get_redis)
  have "map_of (redis w') (file_object_hash_key h) = map_of (redis w) (file_object_hash_key h)"
    using assms(1) unfolding FindUserNameById_def
    by (auto simp: SetUserInfoToCache_def st split: prod.splits sum.splits option.splits
        dest!: rd first_user_frame)
  with assms(2) FindUserNameById_core [OF assms(1)] show ?thesis by (simp add: unknown_hash_def)
qed

lemma CreateFilesObject_Inl_redis:
  assumes "CreateFilesObject e ob w = (Inl err, w')" shows "redis w' = redis w"
proof -
  from assms have c: "create_object e ob w = (Inl err, w')"
    by (auto simp: CreateFilesObject_def Let_def split: prod.splits sum.splits)
  from object_frame(1) [OF c] show ?thesis by simp
qed

text \<open>A download whose hash is new, as the token drawn for its task is, keeps the counts,
  whichever of the steps after the transfer fails.\<close>
theorem finish_download_keeps_counts:
  assumes "counted x e w" and "unknown_hash e (dt_ObjectName t) w" and "finish_download e t len w = (r, w')"
  shows "counted x e w'"
  using assms(3) unfolding finish_download_def Let_def timeNow_def prod.case
proof (elim stepE, goal_cases)
  case (1 err w1)
  with FindUserNameById_core [OF 1(1)] assms(1) show ?case by (auto intro: counted_db)
next
  case (2 n w1 err w2)
  have d1: "db w1 = db w" using FindUserNameById_core [OF 2(1)] by simp
  have "db w2 = db w1"
    using 2(2) unfolding download_object_def
    by (auto simp: RemoveStoreObject_db split: prod.splits sum.splits
        dest!: CreateFilesObject_InlD GetFileObjectByHash_core)
  with 2(3) d1 assms(1) show ?case by (auto intro: counted_db)
next
  case (3 n w1 kn w2)
  obtain k new where kn: "kn = (k, new)" by fastforce
  have d1: "db w1 = db w" using FindUserNameById_core [OF 3(1)] by simp
  have unk: "unknown_hash e (dt_ObjectName t) w1" by (rule FindUserNameById_unknown [OF 3(1) assms(2)])
  obtain y w1' where c: "CreateFilesObject e (store_new e (dt_UserID t) (dt_ObjectName t) (dt_Bucket t)
      (BuildObjectName n (dt_ObjectName t)) len) w1 = (y, w1')" by fastforce
  have new: new and o2: "obtained x e k True w2"
  proof -
    have "\<exists>ob. y = Inr ob"
    proof (cases y)
      case (Inl err)
      have "unknown_hash e (dt_ObjectName t) w1'"
        using unk CreateFilesObject_InlD [OF c [unfolded Inl]] CreateFilesObject_Inl_redis [OF c [unfolded Inl]]
        by (simp add: unknown_hash_def)
      moreover obtain z w3 where g: "GetFileObjectByHash e (dt_ObjectName t) w1' = (z, w3)" by fastforce
      ultimately obtain er where "z = Inl er" using GetFileObjectByHash_unknown by blast
      with 3(2) c Inl g kn show ?thesis by (simp add: download_object_def)
    qed simp
    then obtain ob where ob: "y = Inr ob" by blast
    with 3(2) c kn have e: "k = fo_ID ob" "w2 = w1'" new by (auto simp: download_object_def)
    from new_object_obtained [OF c [unfolded ob] counted_db [OF d1 assms(1)]] e
    show new "obtained x e k True w2" by auto
  qed
  from 3(3) [unfolded kn prod.case] show ?case
  proof (elim stepE, goal_cases)
    case (1 err w3)
    from entry_after_obtained [OF o2 1(1)] have o3: "obtained x e k True w3" by simp
    from undo_new_counts [OF o3] 1(2) new show ?case by auto
  next
    case (2 i w3 err w4)
    from entry_after_obtained [OF o2 2(1)] have "counted x e w3" by simp
    with update_tasks_InlD [OF 2(2)] 2(3) show ?case by (auto intro: counted_db)
  next
    case (3 i w3 m w4)
    from entry_after_obtained [OF o2 3(1)] have c3: "counted x e w3" by simp
    obtain z w5 where em: "Emit e (dt_UserID t) ActionDownload i len w4 = (z, w5)" by fastforce
    have "tree (db w4) = tree (db w3)" using update_tasks_InrD [OF 3(2)] by auto
    moreover have "wf_step e w3 w4" using update_tasks_wf [OF 3(2)] by simp
    ultimately have q4: "quiet e w3 w4" by (intro quiet_tree) auto
    have "quiet e w4 w5"
      using only_daily_tree [OF Emit_only [OF em]] Emit_only [OF em] by (intro quiet_tree) (auto simp: only_daily_def)
    with q4 have "quiet e w3 w5" by (rule quiet_trans)
    from quiet_counted [OF this c3] 3(3) em show ?case by auto
  qed
qed

section \<open>Runs\<close>

definition env5 :: env where
  "env5 = env0\<lparr>AppConfig := config0\<lparr>DownloadAllowPrivate := True\<rparr>\<rparr>"

definition task5 :: download_task where
  "task5 = \<lparr>dt_ID = 1, dt_UserID = 1, dt_Type = ''http'', dt_Source = ''http://h/f'', dt_Bucket = ''netdisk'',
     dt_ObjectName = ''q'', dt_FileName = ''n'', dt_Status = ''pending'', dt_Progress = 0, dt_ErrorMsg = '''',
     dt_RetryCount = 0, dt_NextRetryAt = None, dt_StartedAt = None, dt_FinishedAt = None, dt_CreatedAt = 0,
     dt_UpdatedAt = 0\<rparr>"

definition world5 :: world where
  "world5 = world1\<lparr>db := (db world1)\<lparr>tasks := \<lparr>rows = [task5], next_key = 2\<rparr>\<rparr>\<rparr>"

lemma world5_wf: "db_wf id (db world5)"
  by (simp add: db_wf_def keys_wf_defs db_valid_defs has_key_def world1_defs world5_def task5_def)

definition attempt5 :: "env \<Rightarrow> int \<Rightarrow> world \<Rightarrow> world" where
  "attempt5 e a w = snd (handleDownloadMessage net0 e (TaskMsg \<lparr>dm_TaskID = 1, dm_Attempt = a\<rparr>) w)"

lemma stalled_transfer:
  "fst (DownloadByHTTP (net0\<lparr>reply := \<lambda>n u. NetFail ContextErr\<rparr>) env5 ''http://h/f'' ''q'' 1 w) = Inl ContextErr"
proof -
  let ?n = "net0\<lparr>reply := \<lambda>n u. NetFail ContextErr\<rparr>"
  have "TrimSpace ''http://h/f'' = ''http://h/f''" by (simp add: TrimSpace_visible visible_def)
  then have "validateDownloadURL ?n env5 ''http://h/f'' w =
     (Inr \<lparr>url_Scheme = ''http'', url_Hostname = ''h'', url_String = ''http://h/f''\<rparr>, w)"
    by (simp add: validateDownloadURL_def net0_def config0_def hostAllowed_def env5_def)
  moreover obtain us w' where "http_do ?n env5 (Suc (Suc (Suc 0))) \<lparr>url_Scheme = ''http'', url_Hostname = ''h'',
      url_String = ''http://h/f''\<rparr> w = ((us, Inl ContextErr), w')" by simp
  moreover have "max_hops ?n = Suc (Suc (Suc 0))" by (simp add: net0_def)
  ultimately show ?thesis by (simp only: DownloadByHTTP_def fetch_def prod.case sum.case fst_conv)
qed

text \<open>What a run leaves: the statuses of the tasks, the objects of the files, and the counts.\<close>

definition digest5 :: "world \<Rightarrow> string list \<times> nat option list \<times> (nat \<times> int) list" where
  "digest5 w = (map dt_Status (trows w), map uf_ObjectID (frows w),
     map (\<lambda>r. (fo_ID r, fo_RefCount r)) (rows (objects (db w))))"

definition finish5 :: "(nat \<Rightarrow> bool) \<Rightarrow> world \<Rightarrow> world" where
  "finish5 f w = snd (finish_download (env5\<lparr>fault := f\<rparr>) task5 3 w)"

text \<open>A task that is retried after the object it created was kept, because the update of its status
  failed, links a second file to that object without counting it: the object is left with one
  reference fewer than it has files, and the first of the two to be deleted takes the content away.\<close>

text \<open>When only the last update of a task fails, the retry gives the user the file twice and
  counts the object once.\<close>
theorem retry_links_uncounted:
  "digest5 (finish5 (\<lambda>_. False) (finish5 (\<lambda>k. k = 12) world5)) =
     ([''completed''], [None, Some 1, Some 1, Some 2, Some 2], [(1, 2), (2, 1)])"
  by code_simp

text \<open>One failed read while the message of a completed task is handled again, as it may be after a
  lost acknowledgement, puts the task back to \<open>retrying\<close>: the transfer is done a second time.\<close>
theorem failed_read_reopens_task:
  "let w = world5\<lparr>db := (db world5)\<lparr>tasks := \<lparr>rows = [task5\<lparr>dt_Status := ''completed''\<rparr>], next_key = 2\<rparr>\<rparr>\<rparr>
   in map dt_Status (trows (attempt5 (env5\<lparr>fault := \<lambda>k. k = 1\<rparr>) 0 w)) = [''retrying'']"
  by code_simp



theorem redelivery_ignored_witness:
  "\<exists>w'. handleDownloadMessage net0 env5 (TaskMsg \<lparr>dm_TaskID = 1, dm_Attempt = 0\<rparr>)
      (world5\<lparr>db := (db world5)\<lparr>tasks := \<lparr>rows = [task5\<lparr>dt_Status := ''failed''\<rparr>], next_key = 2\<rparr>\<rparr>\<rparr>) = (Ack, w') \<and>
    db w' = (db world5)\<lparr>tasks := \<lparr>rows = [task5\<lparr>dt_Status := ''failed''\<rparr>], next_key = 2\<rparr>\<rparr>"
  using redelivery_ignored [of env5 "world5\<lparr>db := (db world5)\<lparr>tasks := \<lparr>rows = [task5\<lparr>dt_Status := ''failed''\<rparr>], next_key = 2\<rparr>\<rparr>\<rparr>"
      "task5\<lparr>dt_Status := ''failed''\<rparr>" "\<lparr>dm_TaskID = 1, dm_Attempt = 0\<rparr>" net0] world5_wf
  by (simp add: env5_def env0_def db_wf_def keys_wf_defs db_valid_defs has_key_def world1_defs world5_def task5_def)


theorem finish_download_keeps_counts_witness:
  "counted True env5 (snd (finish_download env5 task5 3 world5))"
proof -
  obtain r w' where f: "finish_download env5 task5 3 world5 = (r, w')" by (rule prod.exhaust)
  have "counted True env0 world1" using world1_sound by (simp add: sound_counted)
  then have "ref_rel True none (db world1)" "\<forall>f\<in>set (frows world1). uf_IsDir f \<longrightarrow> uf_ObjectID f = None"
    by (simp_all add: counted_def)
  then have "counted True env5 world5"
    using world5_wf by (simp add: counted_def env5_def env0_def world5_def ref_rel_def refs_def)
  moreover have "unknown_hash env5 (dt_ObjectName task5) world5"
    by (simp add: unknown_hash_def world5_def task5_def world1_defs env5_def env0_def)
  ultimately show ?thesis using finish_download_keeps_counts [of True env5 world5 task5 3 r w', OF _ _ f] f by simp
qed

end
