(* ===== verification/Copies.thy ===== *)
theory Copies
  imports Downloads
begin

text \<open>
  What copying guarantees (\<open>CopyFiles\<close> of \<open>src/internal/service/user_file.go\<close>). Without faults a copy,
  complete or not, keeps every reference count exact and only adds files of its user; a folder
  copied into itself is copied for ever.
\<close>

section \<open>What a copy adds\<close>

definition grows :: "env \<Rightarrow> nat \<Rightarrow> world \<Rightarrow> world \<Rightarrow> bool" where
  "grows e u w w' \<longleftrightarrow> (counted True e w \<longrightarrow> counted True e w') \<and> store w' = store w
     \<and> (\<exists>new. frows w' = frows w @ new \<and> list_all (\<lambda>f. uf_UserID f = u) new)"

lemma grows_db: "db w' = db w \<Longrightarrow> store w' = store w \<Longrightarrow> grows e u w w'"
  by (auto simp: grows_def intro: counted_db)

lemma grows_trans: "grows e u w w1 \<Longrightarrow> grows e u w1 w2 \<Longrightarrow> grows e u w w2"
  unfolding grows_def by (elim conjE exE) simp

lemma grows_dir: "create_file e (new_file u t nm d None sz) w = (Inr i, w') \<Longrightarrow> grows e u w w'"
proof -
  assume c: "create_file e (new_file u t nm d None sz) w = (Inr i, w')"
  note d = create_file_InrD [OF c] and wf = statement_wf(1) [OF c]
  have "ref_rel True none (db w') = ref_rel True none (db w)"
    using d by (simp add: ref_rel_def refs_def insert_row_def new_file_def)
  with d wf create_file_frame [OF c] show ?thesis
    by (auto simp: grows_def counted_def insert_row_def new_file_def)
qed

lemma IncreaseRefCount_no_fault:
  assumes "fault e = (\<lambda>_. False)" and "db_wf (collate e) (db w)"
  shows "\<exists>w'. IncreaseRefCount e k w = (Inr (), w')"
proof -
  have "db_valid (collate e) (db w)" using assms(2) by (simp add: db_wf_def)
  from db_valid_update_count [OF this] assms(1) show ?thesis
    by (auto simp: IncreaseRefCount_def update_objects_def execute_no_fault)
qed

text \<open>A copied file and its count.\<close>

lemma grows_file:
  assumes "create_file e (new_file u t nm False (Some k) sz) w = (Inr i, w1)"
    and "IncreaseRefCount e k w1 = (r, w2)" and "counted True e w"
  shows "r = Inr () \<and> grows e u w w2"
proof -
  note d = create_file_InrD [OF assms(1)] and wf = statement_wf(1) [OF assms(1)]
  have wf1: "db_wf (collate e) (db w1)" and nf: "fault e = (\<lambda>_. False)"
    using assms(3) wf by (simp_all add: counted_def)
  from IncreaseRefCount_no_fault [OF nf wf1, of k] assms(2) have r: "r = Inr ()" by auto
  have refs1: "refs (db w1) j = refs (db w) j + (if j = k then 1 else 0)" for j
    using d by (simp add: refs_def insert_row_def new_file_def)
  have "ref_rel True (none(k := -1)) (db w1)"
    using assms(3) refs1 d by (auto simp: ref_rel_def counted_def)
  from IncreaseRefCount_rel [OF assms(2) [unfolded r] this]
  have "ref_rel True none (db w2)" and f2: "files (db w2) = files (db w1)"
    by (simp_all add: fun_upd_idem)
  with assms(3) IncreaseRefCount_wf [OF assms(2)] wf1 d create_file_frame [OF assms(1)]
    IncreaseRefCount_store [OF assms(2)] r
  show ?thesis by (auto simp: grows_def counted_def insert_row_def new_file_def)
qed

text \<open>One level: the copies of a list of files, given that those of their children behave.\<close>

lemma copy_each_grows:
  assumes rec: "\<And>ks t w r w'. counted True e w \<Longrightarrow> CopyFiles e n u ks t w = Some (r, w') \<Longrightarrow> grows e u w w'"
    and "counted True e w" and "copy_each e n u fs t w = Some (r, w')"
    and "\<forall>f\<in>set fs. uf_IsDir f \<longrightarrow> uf_ObjectID f = None"
  shows "grows e u w w'"
  using assms(2-)
proof (induction fs arbitrary: w)
  case Nil
  then show ?case by (auto intro: grows_db)
next
  case (Cons f fs)
  obtain x w1 where cn: "check_names e u t [f] w = (x, w1)" by fastforce
  have g1: "grows e u w w1" using check_names_same [OF cn] by (auto intro: grows_db)
  have c1: "counted True e w1" using g1 Cons.prems(1) by (simp add: grows_def)
  show ?case
  proof (cases x)
    case (Inl err)
    with Cons.prems(2) cn g1 show ?thesis by simp
  next
    case (Inr x')
    obtain y w2 where cr: "create_file e (new_file u t (uf_Name f) (uf_IsDir f) (uf_ObjectID f)
        (uf_Size f)) w1 = (y, w2)" by fastforce
    show ?thesis
    proof (cases y)
      case (Inl err)
      have "grows e u w1 w2"
        using create_file_InlD [OF cr [unfolded Inl]] create_file_frame [OF cr] by (auto intro: grows_db)
      with Cons.prems(2) cn Inr cr Inl g1 show ?thesis by (auto intro: grows_trans)
    next
      case (Inr i)
      show ?thesis
      proof (cases "uf_IsDir f")
        case True
        then have none: "uf_ObjectID f = None" using Cons.prems(3) by simp
        have g2: "grows e u w1 w2" by (rule grows_dir [OF cr [unfolded none Inr]])
        have c2: "counted True e w2" using g2 c1 by (simp add: grows_def)
        obtain z w3 where fc: "find_files e (\<lambda>r. uf_ParentID r = Some (uf_ID f) \<and> \<not> uf_IsDeleted r) w2 = (z, w3)"
          by fastforce
        have g3: "grows e u w2 w3" using find_files_same [OF fc] by (auto intro: grows_db)
        have c3: "counted True e w3" using g3 c2 by (simp add: grows_def)
        have g13: "grows e u w w3" using g1 g2 g3 by (blast intro: grows_trans)
        show ?thesis
        proof (cases z)
          case (Inl err)
          with Cons.prems(2) cn \<open>x = Inr x'\<close> cr \<open>y = Inr i\<close> True fc g13 show ?thesis by simp
        next
          case (Inr cs)
          from Cons.prems(2) cn \<open>x = Inr x'\<close> cr \<open>y = Inr i\<close> True fc Inr none
          obtain v w4 where sub: "(if cs = [] then Some (Inr (), w3)
              else CopyFiles e n u (map uf_ID cs) (Some i) w3) = Some (v, w4)"
            and rest: "case v of Inl err \<Rightarrow> w' = w4 | Inr _ \<Rightarrow> copy_each e n u fs t w4 = Some (r, w')"
            by (auto split: option.splits sum.splits if_splits)
          have g4: "grows e u w3 w4"
          proof (cases "cs = []")
            case True
            with sub show ?thesis by (auto intro: grows_db)
          next
            case False
            with sub have "CopyFiles e n u (map uf_ID cs) (Some i) w3 = Some (v, w4)" by simp
            from rec [OF c3 this] show ?thesis .
          qed
          have g14: "grows e u w w4" by (rule grows_trans [OF g13 g4])
          have c4: "counted True e w4" using g4 c3 by (simp add: grows_def)
          show ?thesis
          proof (cases v)
            case (Inl err)
            with rest g14 show ?thesis by simp
          next
            case (Inr v')
            with rest have "copy_each e n u fs t w4 = Some (r, w')" by simp
            from Cons.IH [OF c4 this] Cons.prems(3) g14 show ?thesis by (auto intro: grows_trans)
          qed
        qed
      next
        case False
        note step = Cons.prems(2) cn \<open>x = Inr x'\<close> cr \<open>y = Inr i\<close> False
        show ?thesis
        proof (cases "uf_ObjectID f")
          case None
          have g2: "grows e u w1 w2" by (rule grows_dir [OF cr [unfolded None Inr]])
          have c2: "counted True e w2" using g2 c1 by (simp add: grows_def)
          from step None have "copy_each e n u fs t w2 = Some (r, w')" by simp
          from Cons.IH [OF c2 this] Cons.prems(3) g1 g2 show ?thesis by (auto intro: grows_trans)
        next
          case (Some k)
          obtain z w3 where inc: "IncreaseRefCount e k w2 = (z, w3)" by fastforce
          have cr': "create_file e (new_file u t (uf_Name f) False (Some k) (uf_Size f)) w1 = (Inr i, w2)"
            using cr Some False Inr by simp
          from grows_file [OF cr' inc c1]
          have z: "z = Inr ()" and g3: "grows e u w1 w3" by simp_all
          have c3: "counted True e w3" using g3 c1 by (simp add: grows_def)
          from step Some inc z have "copy_each e n u fs t w3 = Some (r, w')" by simp
          from Cons.IH [OF c3 this] Cons.prems(3) g1 g3 show ?thesis by (auto intro: grows_trans)
        qed
      qed
    qed
  qed
qed

lemma CopyFiles_grows:
  "counted True e w \<Longrightarrow> CopyFiles e n u ks t w = Some (r, w') \<Longrightarrow> grows e u w w'"
proof (induction n arbitrary: ks t w r w')
  case (Suc n)
  obtain x w1 where ct: "check_target e u t w = (x, w1)" by fastforce
  have g1: "grows e u w w1" using check_target_same [OF ct] by (auto intro: grows_db)
  obtain y w2 where ff: "find_files e (\<lambda>r. uf_ID r \<in> set ks \<and> uf_UserID r = u \<and> \<not> uf_IsDeleted r) w1 = (y, w2)"
    by fastforce
  note same = find_files_same [OF ff]
  have g2: "grows e u w w2" using same g1 by (auto intro: grows_trans grows_db)
  have c2: "counted True e w2" using g2 Suc.prems(1) by (simp add: grows_def)
  from Suc.prems(2) ct ff consider "w' = w1" | "w' = w2"
    | fs where "y = Inr fs" "copy_each e n u fs t w2 = Some (r, w')"
    by (auto split: sum.splits if_splits)
  then show ?case
  proof cases
    case 3
    have "\<forall>f\<in>set fs. uf_IsDir f \<longrightarrow> uf_ObjectID f = None"
      using 3(1) same c2 by (auto simp: counted_def)
    from copy_each_grows [OF Suc.IH c2 3(2) this] g2 show ?thesis by (auto intro: grows_trans)
  qed (use g1 g2 in auto)
qed simp

text \<open>C37: without faults a copy that returns, even one that stops half-way at a name that is taken,
  leaves every object with exactly as many references as it has files, leaves the contents and all
  the files there were alone, and adds files of the user who asked for it only.\<close>
theorem CopyFiles_keeps_counts:
  assumes "counted True e w" and "CopyFiles e n u ks t w = Some (r, w')"
  shows "counted True e w' \<and> store w' = store w
    \<and> (\<exists>new. frows w' = frows w @ new \<and> list_all (\<lambda>f. uf_UserID f = u) new)"
  using CopyFiles_grows [OF assms] assms(1) by (simp add: grows_def)

section \<open>A folder copied into itself\<close>

lemma db_valid_insert_file:
  assumes "db_valid ck d" and "has_key u_ID (users d) (uf_UserID r)" and "opt_key uf_ID (files d) (uf_ParentID r)"
    and "opt_key fo_ID (objects d) (uf_ObjectID r)"
    and "\<forall>g\<in>set (rows (files d)). uf_ParentID g \<noteq> uf_ParentID r"
  shows "db_valid ck (d\<lparr>files := insert_row uf_set r (files d)\<rparr>)"
proof -
  let ?d = "d\<lparr>files := insert_row uf_set r (files d)\<rparr>"
  have mono: "has_key uf_ID (files d) k \<Longrightarrow> has_key uf_ID (files ?d) k" for k
    by (auto simp: has_key_def insert_row_def)
  have opt: "opt_key uf_ID (files d) p \<Longrightarrow> opt_key uf_ID (files ?d) p" for p
    using mono by (simp add: opt_key_def split: option.splits)
  have fk: "user_file_fk ?d" "file_share_fk ?d"
    using assms(1-4) mono opt unfolding db_valid_def user_file_fk_def file_share_fk_def list_all_iff
    by (auto simp: insert_row_def)
  have "user_file_unique ck (rows (files ?d))"
    using assms(1,5) by (auto simp: db_valid_def user_file_unique_def insert_row_def)
  with fk assms(1) show ?thesis by (simp add: db_valid_def file_object_fk_def upload_session_fk_def)
qed

lemma create_file_no_fault:
  assumes "fault e = (\<lambda>_. False)" and "db_wf (collate e) (db w)"
    and "f \<in> set (frows w)" and "\<forall>g\<in>set (frows w). uf_ParentID g \<noteq> Some (uf_ID f)"
  shows "\<exists>w'. create_file e (new_file (uf_UserID f) (Some (uf_ID f)) (uf_Name f) d (uf_ObjectID f) s) w
    = (Inr (next_key (files (db w))), w')"
proof -
  have v: "db_valid (collate e) (db w)" using assms(2) by (simp add: db_wf_def)
  have "has_key u_ID (users (db w)) (uf_UserID f)" "opt_key fo_ID (objects (db w)) (uf_ObjectID f)"
    using v assms(3) by (auto simp: db_valid_def user_file_fk_def list_all_iff)
  moreover have "opt_key uf_ID (files (db w)) (Some (uf_ID f))"
    using assms(3) by (auto simp: opt_key_def has_key_iff)
  ultimately have "db_valid (collate e) ((db w)\<lparr>files := insert_row uf_set ((new_file (uf_UserID f)
      (Some (uf_ID f)) (uf_Name f) d (uf_ObjectID f) s)\<lparr>uf_IsDeleted := False, uf_DeletedAt := None,
      uf_CreatedAt := clock e (reads w), uf_UpdatedAt := clock e (reads w)\<rparr>) (files (db w))\<rparr>)"
    by (intro db_valid_insert_file [OF v]) (use assms(4) in \<open>simp_all add: new_file_def\<close>)
  from execute_no_fault [OF assms(1) _ this, of "\<lambda>d'. (next_key (files d'), d'\<lparr>files := insert_row uf_set
      ((new_file (uf_UserID f) (Some (uf_ID f)) (uf_Name f) d (uf_ObjectID f) s)\<lparr>uf_IsDeleted := False,
       uf_DeletedAt := None, uf_CreatedAt := clock e (reads w), uf_UpdatedAt := clock e (reads w)\<rparr>) (files d')\<rparr>)"
      "w\<lparr>reads := Suc (reads w)\<rparr>"]
  show ?thesis by (auto simp: create_file_def timeNow_def)
qed

text \<open>The only row under a key.\<close>

lemma filter_this_file:
  assumes "db_wf ck (db w)" and "f \<in> set (frows w)" and "p f"
  shows "filter (\<lambda>r. uf_ID r = uf_ID f \<and> p r) (frows w) = [f]"
proof -
  have "distinct (map uf_ID (rows (files (db w))))"
    using assms(1) by (auto simp: db_wf_def keys_wf_def intro: uft.keys_ok_distinct)
  from filter_key_singleton [OF this assms(2), of p] assms(3) show ?thesis by simp
qed

text \<open>An empty folder: no row, recycled or not, is in it.\<close>

definition empty_folder :: "nat \<Rightarrow> user_file \<Rightarrow> world \<Rightarrow> bool" where
  "empty_folder u f w \<longleftrightarrow> f \<in> set (frows w) \<and> uf_live f \<and> isLiveDir (uf_ID f) u f \<and> uf_ID f \<noteq> 0
     \<and> (\<forall>g\<in>set (frows w). uf_ParentID g \<noteq> Some (uf_ID f))"

lemma empty_folder_copied:
  assumes "fault e = (\<lambda>_. False)" and "db_wf (collate e) (db w)" and "empty_folder u f w"
  shows "\<exists>g w'. db_wf (collate e) (db w') \<and> empty_folder u g w' \<and>
    (\<forall>n. CopyFiles e n u [uf_ID g] (Some (uf_ID g)) w' = None \<longrightarrow>
       CopyFiles e (Suc n) u [uf_ID f] (Some (uf_ID f)) w = None)"
proof -
  let ?k = "uf_ID f" and ?i = "next_key (files (db w))"
  have f: "f \<in> set (frows w)" "uf_live f" "uf_UserID f = u" "uf_IsDir f" "\<not> uf_IsDeleted f" "?k \<noteq> 0"
    and nc: "\<forall>g\<in>set (frows w). uf_ParentID g \<noteq> Some ?k"
    using assms(3) by (auto simp: empty_folder_def isLiveDir_def)
  let ?w1 = "w\<lparr>requests := Suc (requests w)\<rparr>"
  have ct: "check_target e u (Some ?k) w = (Inr (), ?w1)"
  proof -
    have "first_row uf_ID (\<lambda>r. uf_ID r = ?k \<and> (uf_live r \<and> uf_UserID r = u \<and> uf_IsDir r \<and> \<not> uf_IsDeleted r))
        (files (db w)) = Some f"
      by (rule first_row_unique) (use f assms(2) in \<open>auto simp: db_wf_def keys_wf_def intro: uft.keys_ok_distinct\<close>)
    moreover have "(\<lambda>r. uf_live r \<and> isLiveDir ?k u r)
        = (\<lambda>r. uf_ID r = ?k \<and> (uf_live r \<and> uf_UserID r = u \<and> uf_IsDir r \<and> \<not> uf_IsDeleted r))"
      by (auto simp: isLiveDir_def)
    ultimately show ?thesis
      using assms(1) f(6) by (simp add: check_target_def isRoot_def first_file_def query_row_no_fault)
  qed
  let ?w2 = "?w1\<lparr>requests := Suc (requests ?w1)\<rparr>"
  have ff: "find_files e (\<lambda>r. uf_ID r \<in> set [?k] \<and> uf_UserID r = u \<and> \<not> uf_IsDeleted r) ?w1 = (Inr [f], ?w2)"
  proof -
    have "(\<lambda>r. uf_live r \<and> uf_ID r \<in> set [?k] \<and> uf_UserID r = u \<and> \<not> uf_IsDeleted r)
        = (\<lambda>r. uf_ID r = ?k \<and> (uf_live r \<and> uf_UserID r = u \<and> \<not> uf_IsDeleted r))" by auto
    with filter_this_file [OF assms(2) f(1), of "\<lambda>r. uf_live r \<and> uf_UserID r = u \<and> \<not> uf_IsDeleted r"] f assms(1)
    show ?thesis by (simp add: find_files_def query_no_fault)
  qed
  let ?w3 = "?w2\<lparr>requests := Suc (requests ?w2)\<rparr>"
  have cn: "check_names e u (Some ?k) [f] ?w2 = (Inr (), ?w3)"
  proof -
    have "filter (\<lambda>r. uf_live r \<and> uf_UserID r = u \<and> collate e (uf_Name r) = collate e (uf_Name f)
        \<and> \<not> uf_IsDeleted r \<and> inFolder (Some ?k) r) (frows w) = []"
      using nc f(6) by (auto simp: filter_empty_conv inFolder_def isRoot_def)
    with assms(1) show ?thesis by (simp add: count_files_def query_no_fault)
  qed
  have "\<exists>w4. create_file e (new_file u (Some ?k) (uf_Name f) True (uf_ObjectID f) (uf_Size f)) ?w3 = (Inr ?i, w4)"
    using create_file_no_fault [of e ?w3 f True "uf_Size f"] assms f nc by simp
  then obtain w4 where cr: "create_file e (new_file u (Some ?k) (uf_Name f) True (uf_ObjectID f) (uf_Size f)) ?w3
      = (Inr ?i, w4)" by blast
  define g where "g = uf_set ?i ((new_file u (Some ?k) (uf_Name f) True (uf_ObjectID f) (uf_Size f))\<lparr>uf_IsDeleted := False,
      uf_DeletedAt := None, uf_CreatedAt := clock e (reads w), uf_UpdatedAt := clock e (reads w)\<rparr>)"
  have rows4: "frows w4 = frows w @ [g]" using create_file_InrD [OF cr] by (simp add: insert_row_def g_def)
  have wf4: "db_wf (collate e) (db w4)" using statement_wf(1) [OF cr] assms(2) by simp
  have g: "uf_ID g = ?i" "uf_ParentID g = Some ?k" "uf_IsDir g" "uf_UserID g = u" "\<not> uf_IsDeleted g" "uf_live g"
    by (simp_all add: g_def new_file_def)
  let ?w5 = "w4\<lparr>requests := Suc (requests w4)\<rparr>"
  have ch: "find_files e (\<lambda>r. uf_ParentID r = Some ?k \<and> \<not> uf_IsDeleted r) w4 = (Inr [g], ?w5)"
  proof -
    have "filter (\<lambda>r. uf_live r \<and> uf_ParentID r = Some ?k \<and> \<not> uf_IsDeleted r) (frows w) = []"
      using nc by (auto simp: filter_empty_conv)
    with assms(1) rows4 g show ?thesis by (simp add: find_files_def query_no_fault)
  qed
  have below: "uf_ID r < ?i" if "r \<in> set (frows w)" for r
    using assms(2) that by (auto simp: db_wf_def keys_wf_def uft.keys_ok_def)
  have "uf_ParentID r \<noteq> Some ?i" if "r \<in> set (frows w4)" for r
  proof
    assume p: "uf_ParentID r = Some ?i"
    with that rows4 g f(1) below have "r \<in> set (frows w)" by (auto dest: below)
    with p assms(2) obtain q where "q \<in> set (frows w)" "uf_ID q = ?i"
      unfolding db_wf_def db_valid_def user_file_fk_def list_all_iff by (fastforce simp: opt_key_def has_key_iff)
    with below show False by force
  qed
  then have "empty_folder u g ?w5" using rows4 g below [OF f(1)] by (simp add: empty_folder_def isLiveDir_def)
  moreover have "CopyFiles e (Suc n) u [?k] (Some ?k) w = None"
    if "CopyFiles e n u [uf_ID g] (Some (uf_ID g)) ?w5 = None" for n
    using ct ff cn cr ch f g that by simp
  ultimately show ?thesis using wf4 by (intro exI [of _ g] exI [of _ ?w5]) simp
qed

text \<open>Copying an empty folder into itself never returns: the new folder is read back as a child of
  the folder being copied, and is copied into itself in turn.\<close>
theorem CopyFiles_into_itself_diverges:
  assumes "fault e = (\<lambda>_. False)" and "db_wf (collate e) (db w)" and "empty_folder u f w"
  shows "CopyFiles e n u [uf_ID f] (Some (uf_ID f)) w = None"
  using assms(2,3)
proof (induction n arbitrary: f w)
  case (Suc n)
  with empty_folder_copied [OF assms(1) Suc.prems] show ?case by blast
qed simp

section \<open>Runs\<close>

definition world7 :: world where
  "world7 = world1\<lparr>db := (db world1)\<lparr>files :=
     \<lparr>rows = [folder1, file2, file3, live_dir 4 None ''e''], next_key = 5\<rparr>\<rparr>\<rparr>"

definition copied7 :: "env \<Rightarrow> world" where
  "copied7 e = snd (the (CopyFiles e 3 1 [3] (Some 4) world7))"

text \<open>The row of a copy is created before its object is counted, and stays when counting fails.\<close>

text \<open>When counting the object of a copied file fails, the copy is reported as failed and stays in the
  target folder, uncounted: the object has three files and a count of two.\<close>
theorem CopyFiles_leaves_uncounted:
  "let w = copied7 (env0\<lparr>fault := \<lambda>k. k = 4\<rparr>) in
     map uf_ObjectID (frows w) = [None, Some 1, Some 1, None, Some 1] \<and> map fo_RefCount (rows (objects (db w))) = [2]"
  by code_simp

lemma copy7_ok: "case CopyFiles env0 3 1 [3] (Some 4) world7 of Some (Inr _, w) \<Rightarrow> True | _ \<Rightarrow> False"
  by code_simp

theorem CopyFiles_keeps_counts_witness:
  "counted True env0 (copied7 env0) \<and> store (copied7 env0) = store world7"
proof -
  obtain x where c: "CopyFiles env0 3 1 [3] (Some 4) world7 = Some (x, copied7 env0)"
    using copy7_ok by (auto simp: copied7_def split: option.splits prod.splits sum.splits)
  have "counted True env0 world7"
    by (simp add: counted_def db_wf_def keys_wf_defs db_valid_defs ref_rel_def refs_def has_key_def world7_def
        live_dir_def world1_defs)
  from CopyFiles_keeps_counts [OF this c] show ?thesis by blast
qed

theorem CopyFiles_into_itself_diverges_witness:
  "CopyFiles env0 100 1 [4] (Some 4) world2 = None"
proof -
  have "empty_folder 1 (live_dir 4 None ''d'') world2"
    by (simp add: empty_folder_def isLiveDir_def world2_defs)
  from CopyFiles_into_itself_diverges [OF _ _ this, of env0 100] world2_wf show ?thesis
    by (simp add: live_dir_def new_file_def)
qed

end
