(* ===== verification/Listing.thy ===== *)
theory Listing
  imports Copies "HOL-Library.Multiset" "HOL-Library.List_Lexorder"
begin

text \<open>
  Listing and searching a folder: \<open>GetFileList\<close> of \<open>src/internal/service/user_file.go\<close>, through the
  cache, and \<open>SearchFiles\<close> of \<open>src/internal/service/search.go\<close>.
\<close>

section \<open>Requests\<close>

record file_list_request =
  lr_ParentID :: "nat option"
  lr_Page :: int
  lr_PageSize :: int
  lr_OrderBy :: string
  lr_OrderDesc :: bool

record file_search_request = file_list_request +
  sr_Query :: string

section \<open>ORDER BY, LIMIT and OFFSET\<close>

text \<open>
  What a row is ordered by under a column name. Strings are ordered by their collation keys. Rows
  that the \<open>ORDER BY\<close> does not separate come in the order of the table.
\<close>

definition column_key :: "(string \<Rightarrow> string) \<Rightarrow> string \<Rightarrow> user_file \<Rightarrow> int list" where
  "column_key ck col r =
     (if col = ''created_at'' then [uf_CreatedAt r]
      else if col = ''updated_at'' then [uf_UpdatedAt r]
      else if col = ''name'' then map of_char (ck (uf_Name r))
      else if col = ''size'' then [uf_Size r]
      else [int (uf_ID r)])"

definition sort_desc :: "('a \<Rightarrow> 'b::linorder) \<Rightarrow> 'a list \<Rightarrow> 'a list" where
  "sort_desc k xs = rev (sort_key k (rev xs))"

text \<open>\<open>is_dir DESC\<close>, then the column asked for, or the newest first.\<close>

definition order_files :: "(string \<Rightarrow> string) \<Rightarrow> string \<Rightarrow> bool \<Rightarrow> user_file list \<Rightarrow> user_file list" where
  "order_files ck orderBy orderDesc fs = sort_key (\<lambda>r. if uf_IsDir r then 0 else 1 :: nat)
     (if orderBy \<noteq> []
      then if orderDesc then sort_desc (column_key ck orderBy) fs else sort_key (column_key ck orderBy) fs
      else sort_desc uf_CreatedAt fs)"

text \<open>An \<open>OFFSET\<close> that is not positive and a negative \<open>LIMIT\<close> are left out of the statement.\<close>

definition page_of :: "int \<Rightarrow> int \<Rightarrow> 'a list \<Rightarrow> 'a list" where
  "page_of offset limit xs =
     (let xs = (if 0 < offset then drop (nat offset) xs else xs) in
      if 0 \<le> limit then take (nat limit) xs else xs)"

definition find_page :: "env \<Rightarrow> (user_file \<Rightarrow> bool) \<Rightarrow> string \<Rightarrow> bool \<Rightarrow> int \<Rightarrow> int \<Rightarrow> user_file list step" where
  "find_page e p orderBy orderDesc offset limit = query e (\<lambda>d. page_of offset limit
     (order_files (collate e) orderBy orderDesc (filter (\<lambda>r. uf_live r \<and> p r) (rows (files d)))))"

section \<open>Listing\<close>

definition two_minutes :: int where
  "two_minutes = 2 * 60 * 1000000000"

definition list_files ::
  "env \<Rightarrow> (string \<Rightarrow> string) \<Rightarrow> (user_file \<Rightarrow> bool) \<Rightarrow> file_list_request \<Rightarrow> (user_file list \<times> int) step" where
  "list_files e lo p req w =
     (case count_files e p w of
        (Inl err, w) \<Rightarrow> (Inl err, w)
      | (Inr m, w) \<Rightarrow>
     (let orderBy = sanitizeOrderBy lo (lr_OrderBy req);
          offset = wrap64 ((lr_Page req - 1) * lr_PageSize req)
      in case find_page e p orderBy (lr_OrderDesc req) offset (lr_PageSize req) w of
        (Inl err, w) \<Rightarrow> (Inl err, w)
      | (Inr fs, w) \<Rightarrow> (Inr (fs, int m), w)))"

definition in_listing :: "nat \<Rightarrow> nat option \<Rightarrow> user_file \<Rightarrow> bool" where
  "in_listing userID parentID r \<longleftrightarrow> uf_UserID r = userID \<and> \<not> uf_IsDeleted r \<and> inFolder parentID r"

definition GetFileList ::
  "env \<Rightarrow> (string \<Rightarrow> string) \<Rightarrow> nat \<Rightarrow> file_list_request \<Rightarrow> (user_file list \<times> int) step" where
  "GetFileList e lo userID req w =
     (let parentID = (case lr_ParentID req of None \<Rightarrow> 0 | Some p \<Rightarrow> p) in
      case GetUserFileListFromCache e userID parentID (lr_Page req) (lr_PageSize req)
             (lr_OrderBy req) (lr_OrderDesc req) w of
        (Some cached, w) \<Rightarrow> (Inr cached, w)
      | (None, w) \<Rightarrow>
     (case list_files e lo (in_listing userID (lr_ParentID req)) req w of
        (Inl err, w) \<Rightarrow> (Inl err, w)
      | (Inr (fs, n), w) \<Rightarrow>
          (Inr (fs, n), SetUserFileListToCache e userID parentID (lr_Page req) (lr_PageSize req)
             (lr_OrderBy req) (lr_OrderDesc req) fs n two_minutes w)))"

section \<open>Searching\<close>

text \<open>The characters of a UTF-8 string: a continuation byte belongs to the character before it.\<close>

definition is_continuation :: "char \<Rightarrow> bool" where
  "is_continuation c \<longleftrightarrow> 128 \<le> (of_char c :: nat) \<and> (of_char c :: nat) < 192"

fun utf8_chars :: "string \<Rightarrow> string list" where
  "utf8_chars [] = []"
| "utf8_chars (c # s) =
     (case utf8_chars s of
        [] \<Rightarrow> [[c]]
      | x # xs \<Rightarrow> if x \<noteq> [] \<and> is_continuation (hd x) then (c # x) # xs else [c] # x # xs)"

text \<open>\<open>LIKE\<close>: \<open>%\<close> is any string, \<open>_\<close> any character, a backslash quotes the next one.\<close>

function like_chars :: "(string \<Rightarrow> string) \<Rightarrow> string list \<Rightarrow> string list \<Rightarrow> bool" where
  "like_chars ck [] s = (s = [])"
| "like_chars ck (p # ps) s =
     (if p = ''%'' then like_chars ck ps s \<or> (case s of [] \<Rightarrow> False | c # s' \<Rightarrow> like_chars ck (p # ps) s')
      else if p = [CHR 0x5C] \<and> ps \<noteq> []
      then (case s of [] \<Rightarrow> False | c # s' \<Rightarrow> ck c = ck (hd ps) \<and> like_chars ck (tl ps) s')
      else (case s of [] \<Rightarrow> False | c # s' \<Rightarrow> (p = ''_'' \<or> ck c = ck p) \<and> like_chars ck ps s'))"
  by pat_completeness auto
termination
  by (relation "measure (\<lambda>(ck, ps, s). length ps + length s)") auto

definition sql_like :: "(string \<Rightarrow> string) \<Rightarrow> string \<Rightarrow> string \<Rightarrow> bool" where
  "sql_like ck pat s \<longleftrightarrow> like_chars ck (utf8_chars pat) (utf8_chars s)"

definition SearchFiles ::
  "env \<Rightarrow> (string \<Rightarrow> string) \<Rightarrow> nat \<Rightarrow> file_search_request \<Rightarrow> (user_file list \<times> int) step" where
  "SearchFiles e lo userID req =
     list_files e lo (\<lambda>r. uf_UserID r = userID \<and> \<not> uf_IsDeleted r
       \<and> sql_like (collate e) (''%'' @ sr_Query req @ ''%'') (uf_Name r) \<and> inFolder (lr_ParentID req) r)
       (file_list_request.truncate req)"

section \<open>What a listing returns\<close>

lemma mset_order_files [simp]: "mset (order_files ck ob od fs) = mset fs"
  by (simp add: order_files_def sort_desc_def)

text \<open>The listing of a folder with nothing cached, without faults.\<close>

lemma list_files_no_fault:
  assumes "fault e = (\<lambda>_. False)"
  shows "list_files e lo p req w =
    (Inr (page_of (wrap64 ((lr_Page req - 1) * lr_PageSize req)) (lr_PageSize req)
        (order_files (collate e) (sanitizeOrderBy lo (lr_OrderBy req)) (lr_OrderDesc req)
           (filter (\<lambda>r. uf_live r \<and> p r) (frows w))),
      int (length (filter (\<lambda>r. uf_live r \<and> p r) (frows w)))), w\<lparr>requests := requests w + 2\<rparr>)"
  using assms by (simp add: list_files_def count_files_def find_page_def query_no_fault)

abbreviation folder_key :: "nat \<Rightarrow> file_list_request \<Rightarrow> string" where
  "folder_key u req \<equiv> file_list_key u (case lr_ParentID req of None \<Rightarrow> 0 | Some p \<Rightarrow> p) (lr_Page req)
     (lr_PageSize req) (lr_OrderBy req) (lr_OrderDesc req)"

lemma GetFileList_uncached:
  assumes "fault e = (\<lambda>_. False)" and "map_of (redis w) (folder_key u req) = None"
  shows "fst (GetFileList e lo u req w) =
    Inr (page_of (wrap64 ((lr_Page req - 1) * lr_PageSize req)) (lr_PageSize req)
        (order_files (collate e) (sanitizeOrderBy lo (lr_OrderBy req)) (lr_OrderDesc req)
           (filter (\<lambda>r. uf_live r \<and> in_listing u (lr_ParentID req) r) (frows w))),
      int (length (filter (\<lambda>r. uf_live r \<and> in_listing u (lr_ParentID req) r) (frows w))))"
proof -
  have "redis_now e w (folder_key u req) = None" using assms(2) by (simp add: redis_now_def)
  then obtain w1 where g: "GetUserFileListFromCache e u (case lr_ParentID req of None \<Rightarrow> 0 | Some p \<Rightarrow> p)
      (lr_Page req) (lr_PageSize req) (lr_OrderBy req) (lr_OrderDesc req) w = (None, w1)" and "db w1 = db w"
    using assms by (simp add: GetUserFileListFromCache_def redis_get_def attempt_def redis_now_def Let_def)
  with list_files_no_fault [OF assms(1)] show ?thesis by (simp add: GetFileList_def)
qed

text \<open>The pages of a listing.\<close>

lemma pages_take: "concat (map (\<lambda>i. take s (drop (i * s) xs)) [0..<n]) = take (n * s) xs"
  by (induction n) (simp_all flip: take_add add: add.commute)

lemma page_of_nth:
  assumes "0 < s" and "int64_range (int i * s)"
  shows "page_of (wrap64 (int i * s)) s xs = take (nat s) (drop (i * nat s) xs)"
  using assms by (cases "i = 0") (simp_all add: page_of_def nat_mult_distrib)


section \<open>A listing after a change\<close>

lemma InvalidateUserFileListCache_cleared:
  assumes "fault e = (\<lambda>_. False)" and "\<And>ks. set (concat (scan_pages e ks)) = set ks"
  shows "map_of (redis (InvalidateUserFileListCache e u p w)) (file_list_key u p pg ps ob od) = None"
proof -
  have r: "redis (InvalidateUserFileListCache e u p w) =
      filter (\<lambda>kv. \<not> (\<exists>t. fst kv = file_list_prefix u p @ t)) (redis w)"
    by (simp add: InvalidateUserFileListCache_def DeleteByPattern_no_fault [OF assms] glob_file_list)
  show ?thesis
    unfolding r map_of_filter_key [where P = "\<lambda>k. \<not> (\<exists>t. k = file_list_prefix u p @ t)"]
    by (simp add: file_list_key_prefix)
qed

lemma no_page_after_invalidate:
  assumes "fault e = (\<lambda>_. False)" and "\<And>ks. set (concat (scan_pages e ks)) = set ks"
    and "cacheParentID (lr_ParentID req) = cacheParentID p"
  shows "map_of (redis (invalidateFileListCache e u p w)) (folder_key u req) = None"
  using InvalidateUserFileListCache_cleared [OF assms(1,2)] assms(3)
  by (simp add: invalidateFileListCache_def cacheParentID_def)

text \<open>A change of a folder that ends by dropping the folder's cached pages.\<close>

definition drops_pages :: "env \<Rightarrow> nat \<Rightarrow> nat option \<Rightarrow> world \<Rightarrow> bool" where
  "drops_pages e u p w' \<longleftrightarrow> (\<exists>w. w' = invalidateFileListCache e u p w)"

lemma CreateFolder_drops: "CreateFolder e u p nm w = (Inr (), w') \<Longrightarrow> drops_pages e u p w'"
  unfolding CreateFolder_def drops_pages_def by (elim stepE if_eqE) auto

lemma getFileParentID_parent:
  assumes "getFileParentID e u k w = (Inr p, w1)"
  shows "db w1 = db w \<and> (\<exists>f\<in>set (frows w). uf_ID f = k \<and> uf_UserID f = u \<and> uf_ParentID f = p)"
  using assms unfolding getFileParentID_def by (elim seqE) (auto dest: first_file_unscoped_same)

lemma parent_known:
  assumes "db_wf ck (db w)" and "f \<in> set (frows w)" and "\<exists>g\<in>set (frows w). uf_ID g = uf_ID f \<and> uf_ParentID g = p"
  shows "p = uf_ParentID f"
  using assms db_wf_file_key [OF assms(1)] by metis

lemma MoveToRecycle_drops:
  assumes "MoveToRecycle e u (uf_ID f) w = (Inr (), w')" and "db_wf ck (db w)" and "f \<in> set (frows w)"
  shows "drops_pages e u (uf_ParentID f) w'"
  using assms(1) unfolding MoveToRecycle_def timeNow_def Let_def prod.case
proof (elim stepE, goal_cases)
  case (3 p w1 m w2)
  from getFileParentID_parent [OF 3(1)] parent_known [OF assms(2,3), of p] have "p = uf_ParentID f" by auto
  with 3(3) show ?case by (auto simp: drops_pages_def)
qed simp_all

lemma RestoreFile_drops:
  assumes "RestoreFile e u (uf_ID f) w = (Inr (), w')" and "db_wf ck (db w)" and "f \<in> set (frows w)"
  shows "drops_pages e u (uf_ParentID f) w'"
  using assms(1) unfolding RestoreFile_def
proof (elim stepE, goal_cases)
  case (3 p w1 m w2)
  from getFileParentID_parent [OF 3(1)] parent_known [OF assms(2,3), of p] have "p = uf_ParentID f" by auto
  with 3(3) show ?case by (auto simp: drops_pages_def)
qed simp_all

lemma RenameFile_drops:
  assumes "RenameFile e u (uf_ID f) nm w = (Inr (), w')" and "db_wf ck (db w)" and "f \<in> set (frows w)"
  shows "drops_pages e u (uf_ParentID f) w'"
  using assms(1) unfolding RenameFile_def
proof (elim stepE if_eqE, goal_cases)
  case (5 g w1 c w2 m w3)
  from first_file_same [OF 5(1)] parent_known [OF assms(2,3), of "uf_ParentID g"]
  have "uf_ParentID g = uf_ParentID f" by auto
  with 5 show ?case by (auto simp: drops_pages_def)
qed simp_all

text \<open>A listing sees the change before it: after a folder is created in a folder, or a file of the
  folder is renamed, recycled or restored, every page of the folder shows the rows of the database
  as they are then, whatever pages were cached before.\<close>
theorem GetFileList_after_change:
  assumes "fault e = (\<lambda>_. False)" and "\<And>ks. set (concat (scan_pages e ks)) = set ks"
    and "db_wf (collate e) (db w)" and "f \<in> set (frows w)" and "p = uf_ParentID f"
    and "w' \<in> {w'. CreateFolder e u p nm w = (Inr (), w') \<or> RenameFile e u (uf_ID f) nm w = (Inr (), w')
      \<or> MoveToRecycle e u (uf_ID f) w = (Inr (), w') \<or> RestoreFile e u (uf_ID f) w = (Inr (), w')}"
    and "lr_ParentID req = p"
  shows "fst (GetFileList e lo u req w') =
    Inr (page_of (wrap64 ((lr_Page req - 1) * lr_PageSize req)) (lr_PageSize req)
        (order_files (collate e) (sanitizeOrderBy lo (lr_OrderBy req)) (lr_OrderDesc req)
           (filter (\<lambda>r. uf_live r \<and> in_listing u p r) (frows w'))),
      int (length (filter (\<lambda>r. uf_live r \<and> in_listing u p r) (frows w'))))"
proof -
  have "drops_pages e u p w'"
    using assms(6) CreateFolder_drops MoveToRecycle_drops [OF _ assms(3,4)] RestoreFile_drops [OF _ assms(3,4)]
      RenameFile_drops [OF _ assms(3,4)] unfolding assms(5) by blast
  then obtain w0 where w': "w' = invalidateFileListCache e u p w0" by (auto simp: drops_pages_def)
  from no_page_after_invalidate [OF assms(1,2), of req p u w0] assms(7)
  have "map_of (redis w') (folder_key u req) = None" unfolding w' by simp
  from GetFileList_uncached [OF assms(1) this, of lo] assms(7) show ?thesis by simp
qed

section \<open>What a search finds\<close>

lemma utf8_chars_snoc: "\<not> is_continuation c \<Longrightarrow> utf8_chars (s @ [c]) = utf8_chars s @ [[c]]"
  by (induction s) (auto split: list.splits)

lemma utf8_chars_Cons: "s = [] \<or> \<not> is_continuation (hd s) \<Longrightarrow> utf8_chars (c # s) = [c] # utf8_chars s"
  by (cases s) (auto split: list.splits if_splits)

lemma utf8_chars_set: "x \<in> set (utf8_chars s) \<Longrightarrow> set x \<subseteq> set s \<and> x \<noteq> []"
proof (induction s arbitrary: x)
  case (Cons c s)
  then show ?case
    by (cases "utf8_chars s") (fastforce split: if_splits)+
qed simp

definition plain :: "string list \<Rightarrow> bool" where
  "plain ps \<longleftrightarrow> (\<forall>p\<in>set ps. p \<noteq> ''%'' \<and> p \<noteq> ''_'' \<and> p \<noteq> [CHR 0x5C])"

lemma like_any: "like_chars ck [''%''] s"
  by (induction s) auto

lemma like_prefix: "plain ps \<Longrightarrow> like_chars ck (ps @ [''%'']) s \<longleftrightarrow> (\<exists>m b. s = m @ b \<and> map ck m = map ck ps)"
proof (induction ps arbitrary: s)
  case Nil
  then show ?case using like_any by auto
next
  case (Cons p ps)
  then have "plain ps" "p \<noteq> ''%''" "p \<noteq> ''_''" "p \<noteq> [CHR 0x5C]" by (auto simp: plain_def)
  with Cons.IH have "like_chars ck ((p # ps) @ [''%'']) s \<longleftrightarrow>
      (\<exists>c s'. s = c # s' \<and> ck c = ck p \<and> (\<exists>m b. s' = m @ b \<and> map ck m = map ck ps))"
    by (cases s) auto
  also have "\<dots> \<longleftrightarrow> (\<exists>m b. s = m @ b \<and> map ck m = map ck (p # ps))"
  proof
    assume "\<exists>c s'. s = c # s' \<and> ck c = ck p \<and> (\<exists>m b. s' = m @ b \<and> map ck m = map ck ps)"
    then obtain c m b where "s = (c # m) @ b" "map ck (c # m) = map ck (p # ps)" by auto
    then show "\<exists>m b. s = m @ b \<and> map ck m = map ck (p # ps)" by blast
  next
    assume "\<exists>m b. s = m @ b \<and> map ck m = map ck (p # ps)"
    then obtain c m b where "s = c # m @ b" "ck c = ck p" "map ck m = map ck ps"
      by (auto simp: map_eq_Cons_conv)
    then show "\<exists>c s'. s = c # s' \<and> ck c = ck p \<and> (\<exists>m b. s' = m @ b \<and> map ck m = map ck ps)" by blast
  qed
  finally show ?case .
qed

lemma like_within: "like_chars ck (''%'' # ps) s \<longleftrightarrow> (\<exists>a b. s = a @ b \<and> like_chars ck ps b)"
  by (induction s) (auto simp: Cons_eq_append_conv)

text \<open>A name contains a string, character by character under the collation.\<close>

definition name_contains :: "(string \<Rightarrow> string) \<Rightarrow> string \<Rightarrow> string \<Rightarrow> bool" where
  "name_contains ck q s \<longleftrightarrow> (\<exists>a m b. utf8_chars s = a @ m @ b \<and> map ck m = map ck (utf8_chars q))"

lemma sql_like_contains:
  assumes "q = [] \<or> \<not> is_continuation (hd q)" and "CHR ''%'' \<notin> set q" and "CHR ''_'' \<notin> set q" and "CHR 0x5C \<notin> set q"
  shows "sql_like ck (''%'' @ q @ ''%'') s \<longleftrightarrow> name_contains ck q s"
proof -
  have nc: "\<not> is_continuation CHR ''%''" by (simp add: is_continuation_def)
  then have "q @ ''%'' = [] \<or> \<not> is_continuation (hd (q @ ''%''))" using assms(1) by (cases q) auto
  from utf8_chars_Cons [OF this, of "CHR ''%''"] utf8_chars_snoc [OF nc, of q]
  have u: "utf8_chars (''%'' @ q @ ''%'') = ''%'' # utf8_chars q @ [''%'']" by simp
  have "plain (utf8_chars q)" unfolding plain_def using assms(2-4) utf8_chars_set by fastforce
  note pre = like_prefix [OF this, of ck]
  have "like_chars ck (''%'' # utf8_chars q @ [''%'']) xs \<longleftrightarrow>
      (\<exists>a m b. xs = a @ m @ b \<and> map ck m = map ck (utf8_chars q))" for xs
    unfolding like_within pre by blast
  then show ?thesis unfolding sql_like_def u name_contains_def .
qed

text \<open>A search for a string without the characters \<open>LIKE\<close> treats specially returns live files of the
  user in the folder whose names contain the string, and the total is the number of all of them.\<close>
theorem SearchFiles_substring:
  assumes "fault e = (\<lambda>_. False)" and "q = [] \<or> \<not> is_continuation (hd q)"
    and "CHR ''%'' \<notin> set q" and "CHR ''_'' \<notin> set q" and "CHR 0x5C \<notin> set q" and "sr_Query req = q"
  shows "\<exists>fs w'. SearchFiles e lo u req w =
      (Inr (fs, int (length (filter (\<lambda>r. uf_live r \<and> in_listing u (lr_ParentID req) r
         \<and> name_contains (collate e) q (uf_Name r)) (frows w)))), w')
    \<and> set fs \<subseteq> {r \<in> set (frows w). uf_live r \<and> in_listing u (lr_ParentID req) r
         \<and> name_contains (collate e) q (uf_Name r)}"
proof -
  let ?p = "\<lambda>r. uf_live r \<and> in_listing u (lr_ParentID req) r \<and> name_contains (collate e) q (uf_Name r)"
  have p: "(\<lambda>r. uf_live r \<and> (uf_UserID r = u \<and> \<not> uf_IsDeleted r
       \<and> sql_like (collate e) (''%'' @ sr_Query req @ ''%'') (uf_Name r) \<and> inFolder (lr_ParentID req) r)) = ?p"
    unfolding assms(6) sql_like_contains [OF assms(2-5)] by (auto simp: in_listing_def)
  have sub: "set (page_of i j (order_files (collate e) ob od (filter ?p (frows w)))) \<subseteq> {r \<in> set (frows w). ?p r}"
    for i j ob od
  proof -
    have "set (page_of i j xs) \<subseteq> set xs" for xs :: "user_file list"
      by (auto simp: page_of_def Let_def dest: in_set_takeD in_set_dropD split: if_splits)
    moreover have "set (order_files (collate e) ob od xs) = set xs" for xs
      using mset_order_files by (metis set_mset_mset)
    ultimately show ?thesis by fastforce
  qed
  show ?thesis
    unfolding SearchFiles_def list_files_no_fault [OF assms(1)] p using sub by fastforce
qed

text \<open>A query is not quoted: an underscore finds every name that is not empty.\<close>

text \<open>Searching for an underscore, which is a character of many file names, returns the count of all
  the files of the folder.\<close>
theorem SearchFiles_underscore:
  "sql_like ck (''%'' @ ''_'' @ ''%'') s \<longleftrightarrow> s \<noteq> []"
proof -
  have "utf8_chars (''%'' @ ''_'' @ ''%'') = [''%'', ''_'', ''%'']" by (simp add: is_continuation_def)
  moreover have "like_chars ck [''_'', ''%''] b \<longleftrightarrow> b \<noteq> []" for b
    using like_any by (cases b) auto
  moreover have "utf8_chars s = [] \<longleftrightarrow> s = []" by (cases s) (auto split: list.splits if_splits)
  ultimately show ?thesis unfolding sql_like_def by (auto simp: like_within intro!: exI [of _ "[]"])
qed

section \<open>Runs\<close>

definition req8 :: "nat option \<Rightarrow> file_list_request" where
  "req8 p = \<lparr>lr_ParentID = p, lr_Page = 1, lr_PageSize = 20, lr_OrderBy = '''', lr_OrderDesc = False\<rparr>"

definition listed8 :: "nat option \<Rightarrow> world \<Rightarrow> (nat list \<times> int) option" where
  "listed8 p w = (case fst (GetFileList env0 id 1 (req8 p) w) of
     Inl _ \<Rightarrow> None | Inr (fs, n) \<Rightarrow> Some (map uf_ID fs, n))"

definition visited8 :: "nat option \<Rightarrow> world \<Rightarrow> world" where
  "visited8 p w = snd (GetFileList env0 id 1 (req8 p) w)"

definition purged8 :: "nat \<Rightarrow> world \<Rightarrow> world" where
  "purged8 k w = snd (the (DeleteFileRecord env0 9 1 k w))"

text \<open>Deleting a folder for good drops only the pages of the folder it was in: a page of the deleted
  folder itself that was cached before still lists its deleted files.\<close>
theorem GetFileList_after_purge_stale:
  "listed8 (Some 1) (purged8 1 (visited8 (Some 1) world1)) = Some ([2], 1)
   \<and> map uf_ID (frows (purged8 1 (visited8 (Some 1) world1))) = [3]"
proof
  show "listed8 (Some 1) (purged8 1 (visited8 (Some 1) world1)) = Some ([2], 1)" by code_simp
  show "map uf_ID (frows (purged8 1 (visited8 (Some 1) world1))) = [3]" by code_simp
qed

lemma world1_redis: "redis world1 = []"
  by (simp add: world1_def)


lemma folder_world1_ok: "case CreateFolder env0 1 None ''x'' world1 of (Inr _, _) \<Rightarrow> True | _ \<Rightarrow> False"
  by code_simp

theorem GetFileList_after_change_witness:
  "let w' = snd (CreateFolder env0 1 None ''x'' world1) in fst (GetFileList env0 id 1 (req8 None) w') =
    Inr (page_of 0 20 (order_files id '''' False (filter (\<lambda>r. uf_live r \<and> in_listing 1 None r) (frows w'))),
      int (length (filter (\<lambda>r. uf_live r \<and> in_listing 1 None r) (frows w'))))"
proof -
  obtain w' where c: "CreateFolder env0 1 None ''x'' world1 = (Inr (), w')"
    using folder_world1_ok by (auto split: prod.splits sum.splits)
  have "db_wf (collate env0) (db world1)" "file3 \<in> set (frows world1)" "None = uf_ParentID file3"
    using world1_sound by (simp_all add: sound_def world1_def) (simp add: file3_def new_file_def)
  moreover have "sanitizeOrderBy id '''' = ''''"
    by (simp add: sanitizeOrderBy_def TrimSpace_visible ToLower_def allowedOrderBy_def)
  ultimately show ?thesis
    using GetFileList_after_change [of env0 world1 file3 None w' 1 "''x''" "req8 None" id] c
    by (simp add: req8_def wrap64_def)
qed

theorem SearchFiles_substring_witness:
  "\<exists>fs w'. SearchFiles env0 id 1 (file_list_request.extend (req8 None) \<lparr>sr_Query = ''b''\<rparr>) world1 =
      (Inr (fs, int (length (filter (\<lambda>r. uf_live r \<and> in_listing 1 None r
         \<and> name_contains id ''b'' (uf_Name r)) (frows world1)))), w')"
  using SearchFiles_substring [of env0 "''b''" "file_list_request.extend (req8 None) \<lparr>sr_Query = ''b''\<rparr>" id 1 world1]
  by (auto simp: is_continuation_def req8_def file_list_request.defs)

end
