(* ===== verification/Archive.thy ===== *)
theory Archive
  imports FileOps GoStrings
begin

text \<open>
  Archives: \<open>src/internal/service/archive.go\<close> collects the files and folders a user asks for, with the
  paths they get in the zip file, and \<open>DownloadArchive\<close> of \<open>src/internal/handler/file.go\<close> writes them.
  Listing the rows below a folder is a recursion over the tree, here with fuel.
\<close>

section \<open>Collecting the entries\<close>

record archive_entry =
  ae_ZipPath :: string
  ae_FileObj :: "file_object option"
  ae_IsDir :: bool

definition dir_entry :: "string \<Rightarrow> archive_entry" where
  "dir_entry zp = \<lparr>ae_ZipPath = zp @ ''/'', ae_FileObj = None, ae_IsDir = True\<rparr>"

text \<open>A file is appended with its object.\<close>

definition append_file :: "env \<Rightarrow> user_file \<Rightarrow> string \<Rightarrow> archive_entry list \<Rightarrow> archive_entry list step" where
  "append_file e f zp entries w =
     (case uf_ObjectID f of
        None \<Rightarrow> (Inl (Errorf (''file '' @ show_nat (uf_ID f) @ '' has no object'')), w)
      | Some k \<Rightarrow>
          (case GetFileObjectById e k w of
             (Inl err, w) \<Rightarrow> (Inl err, w)
           | (Inr obj, w) \<Rightarrow>
               (Inr (entries @ [\<lparr>ae_ZipPath = zp, ae_FileObj = Some obj, ae_IsDir = False\<rparr>]), w)))"

fun collectArchiveChildren ::
  "env \<Rightarrow> nat \<Rightarrow> nat \<Rightarrow> nat \<Rightarrow> string \<Rightarrow> archive_entry list \<Rightarrow> world \<Rightarrow> (archive_entry list result \<times> world) option"
  and collect_each ::
    "env \<Rightarrow> nat \<Rightarrow> nat \<Rightarrow> string \<Rightarrow> user_file list \<Rightarrow> archive_entry list \<Rightarrow> world
      \<Rightarrow> (archive_entry list result \<times> world) option" where
  "collectArchiveChildren e 0 userID parentID zp entries w = None"
| "collectArchiveChildren e (Suc n) userID parentID zp entries w =
     (case find_files e (\<lambda>r. uf_ParentID r = Some parentID \<and> uf_UserID r = userID \<and> \<not> uf_IsDeleted r) w of
        (Inl err, w) \<Rightarrow> Some (Inl err, w)
      | (Inr children, w) \<Rightarrow> collect_each e n userID zp children entries w)"
| "collect_each e n userID zp [] entries w = Some (Inr entries, w)"
| "collect_each e n userID zp (child # children) entries w =
     (let childPath = path_Join zp (sanitizeArchiveName (uf_Name child)) in
      if uf_IsDir child then
        (case collectArchiveChildren e n userID (uf_ID child) childPath (entries @ [dir_entry childPath]) w of
           None \<Rightarrow> None
         | Some (Inl err, w) \<Rightarrow> Some (Inl err, w)
         | Some (Inr entries, w) \<Rightarrow> collect_each e n userID zp children entries w)
      else
        (case append_file e child childPath entries w of
           (Inl err, w) \<Rightarrow> Some (Inl err, w)
         | (Inr entries, w) \<Rightarrow> collect_each e n userID zp children entries w))"

fun build_entries ::
  "env \<Rightarrow> nat \<Rightarrow> nat \<Rightarrow> nat list \<Rightarrow> archive_entry list \<Rightarrow> world \<Rightarrow> (archive_entry list result \<times> world) option" where
  "build_entries e fuel userID [] entries w = Some (Inr entries, w)"
| "build_entries e fuel userID (fileID # fileIDs) entries w =
     (case first_file e (\<lambda>r. uf_ID r = fileID \<and> uf_UserID r = userID \<and> \<not> uf_IsDeleted r) w of
        (Inl err, w) \<Rightarrow> Some (Inl err, w)
      | (Inr f, w) \<Rightarrow>
          if uf_IsDir f then
            let dirPath = sanitizeArchiveName (uf_Name f) in
            (case collectArchiveChildren e fuel userID (uf_ID f) dirPath (entries @ [dir_entry dirPath]) w of
               None \<Rightarrow> None
             | Some (Inl err, w) \<Rightarrow> Some (Inl err, w)
             | Some (Inr entries, w) \<Rightarrow> build_entries e fuel userID fileIDs entries w)
          else
            (case append_file e f (sanitizeArchiveName (uf_Name f)) entries w of
               (Inl err, w) \<Rightarrow> Some (Inl err, w)
             | (Inr entries, w) \<Rightarrow> build_entries e fuel userID fileIDs entries w))"

definition BuildArchiveEntries ::
  "env \<Rightarrow> nat \<Rightarrow> nat \<Rightarrow> nat list \<Rightarrow> world \<Rightarrow> (archive_entry list result \<times> world) option" where
  "BuildArchiveEntries e fuel userID fileIDs w = build_entries e fuel userID fileIDs [] w"

section \<open>Writing the archive\<close>

text \<open>
  The members of the zip file, written one after the other; the archive breaks off where the
  content of a member cannot be read. The second component tells whether it is complete.
\<close>

fun write_archive :: "env \<Rightarrow> archive_entry list \<Rightarrow> world \<Rightarrow> ((string \<times> string) list \<times> bool) \<times> world" where
  "write_archive e [] w = (([], True), w)"
| "write_archive e (entry # entries) w =
     (if ae_IsDir entry then
        (case write_archive e entries w of ((ms, ok), w) \<Rightarrow> (((ae_ZipPath entry, '''') # ms, ok), w))
      else (case ae_FileObj entry of
              None \<Rightarrow> (([], False), w)
            | Some obj \<Rightarrow>
                (case GetObject e (fo_BucketName obj) (fo_ObjectName obj) w of
                   (Inl _, w) \<Rightarrow> (([], False), w)
                 | (Inr content, w) \<Rightarrow>
                     (case write_archive e entries w of
                        ((ms, ok), w) \<Rightarrow> (((ae_ZipPath entry, content) # ms, ok), w)))))"

text \<open>A status and message, or the name in the header and the members.\<close>

definition DownloadArchive ::
  "env \<Rightarrow> nat \<Rightarrow> nat \<Rightarrow> nat list \<Rightarrow> string \<Rightarrow> world
    \<Rightarrow> ((nat \<times> err option + string \<times> (string \<times> string) list \<times> bool) \<times> world) option" where
  "DownloadArchive e fuel userID fileIDs name w =
     (if fileIDs = [] then Some (Inl (400, None), w) else
      case BuildArchiveEntries e fuel userID fileIDs w of
        None \<Rightarrow> None
      | Some (Inl err, w) \<Rightarrow> Some (Inl (400, Some err), w)
      | Some (Inr entries, w) \<Rightarrow>
          let name = (if name = '''' then ''archive.zip'' else name) in
          (case write_archive e entries w of
             ((ms, ok), w) \<Rightarrow> Some (Inr (SanitizeHeaderFilename name, ms, ok), w)))"

section \<open>Paths\<close>

text \<open>A name that is one element of a path, and stays one.\<close>

definition element :: "string \<Rightarrow> bool" where
  "element x \<longleftrightarrow> x \<noteq> [] \<and> x \<noteq> ''.'' \<and> x \<noteq> ''..'' \<and> CHR ''/'' \<notin> set x"

lemma sanitized_element [simp]: "element (sanitizeArchiveName x)"
  using sanitizeArchiveName_element [of x] by (auto simp: element_def Let_def)

lemma split_slash_last: "CHR ''/'' \<notin> set x \<Longrightarrow> split_slash acc x = [rev acc @ x]"
  by (induction x arbitrary: acc) auto

lemma split_slash_app: "CHR ''/'' \<notin> set x \<Longrightarrow> split_slash acc (x @ CHR ''/'' # s) = (rev acc @ x) # split_slash [] s"
  by (induction x arbitrary: acc) auto

lemma split_join: "xs \<noteq> [] \<Longrightarrow> list_all element xs \<Longrightarrow> split_slash [] (join_slash xs) = xs"
  by (induction xs rule: join_slash.induct)
     (auto simp: element_def split_slash_last split_slash_app)

lemma clean_elements: "list_all element xs \<Longrightarrow> clean_elems r out xs = rev out @ xs"
  by (induction xs arbitrary: out) (auto simp: element_def)

lemma join_slash_head: "list_all element (x # xs) \<Longrightarrow> \<exists>c s. join_slash (x # xs) = c # s \<and> c \<noteq> CHR ''/''"
  by (cases xs; cases x) (auto simp: element_def)

lemma clean_join:
  assumes "xs \<noteq> []" and "list_all element xs"
  shows "path_Clean (join_slash xs) = join_slash xs"
proof -
  from assms obtain c s where j: "join_slash xs = c # s" "c \<noteq> CHR ''/''"
    by (cases xs) (use join_slash_head in blast)+
  then have "\<not> HasPrefix (join_slash xs) ''/''" by (simp add: HasPrefix_def)
  with j split_join [OF assms] clean_elements [OF assms(2)] show ?thesis by (simp add: path_Clean_def Let_def)
qed

lemma join_snoc: "xs \<noteq> [] \<Longrightarrow> join_slash (xs @ [y]) = join_slash xs @ ''/'' @ y"
  by (induction xs rule: join_slash.induct) auto

lemma Join_element:
  assumes "xs \<noteq> []" and "list_all element xs" and "element y"
  shows "path_Join (join_slash xs) y = join_slash (xs @ [y])"
proof -
  from assms obtain c s where j: "join_slash xs = c # s"
    by (cases xs) (use join_slash_head in blast)+
  have "path_Join (join_slash xs) y = path_Clean (join_slash xs @ ''/'' @ y)"
    using j assms(3) by (simp add: path_Join_def element_def)
  also have "\<dots> = join_slash (xs @ [y])"
    using clean_join [of "xs @ [y]"] join_snoc [OF assms(1)] assms by simp
  finally show ?thesis .
qed

section \<open>What an archive holds\<close>

definition visible_children :: "nat \<Rightarrow> user_file list \<Rightarrow> nat \<Rightarrow> user_file list" where
  "visible_children u fs k =
     filter (\<lambda>r. uf_live r \<and> uf_ParentID r = Some k \<and> uf_UserID r = u \<and> \<not> uf_IsDeleted r) fs"

text \<open>
  The paths of a file or folder below the elements \<open>xs\<close>, straight from the rows: a folder is listed
  before what is in it, to the depth \<open>n\<close>, and a file with the object it refers to.
\<close>

fun archive_spec :: "nat \<Rightarrow> nat \<Rightarrow> user_file list \<Rightarrow> string list \<Rightarrow> user_file \<Rightarrow> (string \<times> nat option) list" where
  "archive_spec n u fs xs f =
     (let ys = xs @ [sanitizeArchiveName (uf_Name f)] in
      if uf_IsDir f then (join_slash ys @ ''/'', None) #
        (case n of 0 \<Rightarrow> [] | Suc m \<Rightarrow> concat (map (archive_spec m u fs ys) (visible_children u fs (uf_ID f))))
      else [(join_slash ys, uf_ObjectID f)])"

declare archive_spec.simps [simp del]

definition entry_of :: "env \<Rightarrow> database \<Rightarrow> archive_entry \<Rightarrow> string \<times> nat option \<Rightarrow> bool" where
  "entry_of e d en s \<longleftrightarrow> ae_ZipPath en = fst s \<and> (case snd s of
       None \<Rightarrow> ae_IsDir en \<and> ae_FileObj en = None
     | Some k \<Rightarrow> \<not> ae_IsDir en \<and> (\<exists>obj w1 w2. ae_FileObj en = Some obj \<and> db w1 = d
         \<and> GetFileObjectById e k w1 = (Inr obj, w2)))"

lemma append_file_entry:
  assumes "append_file e f p es w = (Inr es', w')"
  shows "db w' = db w \<and> (\<exists>en. es' = es @ [en] \<and> entry_of e (db w) en (p, uf_ObjectID f))"
proof -
  from assms obtain k obj where "uf_ObjectID f = Some k" "GetFileObjectById e k w = (Inr obj, w')"
    "es' = es @ [\<lparr>ae_ZipPath = p, ae_FileObj = Some obj, ae_IsDir = False\<rparr>]"
    by (auto simp: append_file_def split: option.splits prod.splits sum.splits)
  moreover from this GetFileObjectById_core have "db w' = db w" by fastforce
  ultimately show ?thesis by (auto simp: entry_of_def)
qed

lemma append_file_db: "append_file e f p es w = (r, w') \<Longrightarrow> db w' = db w"
  by (auto simp: append_file_def split: option.splits prod.splits sum.splits dest!: GetFileObjectById_core)

text \<open>The entries a step adds are those of the rows it was given.\<close>

definition adds :: "env \<Rightarrow> database \<Rightarrow> archive_entry list \<Rightarrow> archive_entry list \<Rightarrow> (string \<times> nat option) list \<Rightarrow> bool" where
  "adds e d es es' s \<longleftrightarrow> (\<exists>new. es' = es @ new \<and> list_all2 (entry_of e d) new s)"

lemma adds_nil: "adds e d es es []"
  by (simp add: adds_def)

lemma adds_trans: "adds e d es es1 s \<Longrightarrow> adds e d es1 es2 t \<Longrightarrow> adds e d es es2 (s @ t)"
  by (auto simp: adds_def intro: list_all2_appendI)

lemma adds_dir: "adds e d (es @ [dir_entry p]) es' s \<Longrightarrow> adds e d es es' ((p @ ''/'', None) # s)"
  by (auto simp: adds_def dir_entry_def entry_of_def)

lemma adds_file: "append_file e f p es w = (Inr es', w') \<Longrightarrow> adds e (db w) es es' [(p, uf_ObjectID f)]"
  using append_file_entry by (fastforce simp: adds_def)

lemma collect_adds:
  "collectArchiveChildren e n u k zp es w = Some (Inr es', w') \<Longrightarrow> xs \<noteq> [] \<Longrightarrow> list_all element xs
    \<Longrightarrow> zp = join_slash xs \<Longrightarrow> db w' = db w \<and> (\<exists>m. n = Suc m \<and>
      adds e (db w) es es' (concat (map (archive_spec m u (frows w) xs) (visible_children u (frows w) k))))"
  "collect_each e n u zp cs es w = Some (Inr es', w') \<Longrightarrow> xs \<noteq> [] \<Longrightarrow> list_all element xs
    \<Longrightarrow> zp = join_slash xs \<Longrightarrow> db w' = db w \<and>
      adds e (db w) es es' (concat (map (archive_spec n u (frows w) xs) cs))"
proof (induction e n u k zp es w and e n u zp cs es w arbitrary: xs es' w' and xs es' w'
    rule: collectArchiveChildren_collect_each.induct)
  case (2 e n u k zp es w)
  obtain y w1 where f: "find_files e (\<lambda>r. uf_ParentID r = Some k \<and> uf_UserID r = u \<and> \<not> uf_IsDeleted r) w = (y, w1)"
    by fastforce
  with 2(2) obtain cs where y: "y = Inr cs" by (cases y) auto
  note same = find_files_same [OF f]
  have c: "collect_each e n u zp cs es w1 = Some (Inr es', w')" using 2(2) f y by simp
  from 2(1) [OF f [symmetric] y c 2(3-5)] same y show ?case by (auto simp: visible_children_def)
next
  case (4 e n u zp c cs es w)
  let ?p = "path_Join zp (sanitizeArchiveName (uf_Name c))" and ?ys = "xs @ [sanitizeArchiveName (uf_Name c)]"
  have p: "?p = join_slash ?ys" using Join_element [OF 4(5,6)] 4(7) by simp
  have ys: "?ys \<noteq> []" "list_all element ?ys" using 4(6) by simp_all
  show ?case
  proof (cases "uf_IsDir c")
    case True
    with 4(4) obtain es1 w1 where d: "collectArchiveChildren e n u (uf_ID c) ?p (es @ [dir_entry ?p]) w = Some (Inr es1, w1)"
      and r: "collect_each e n u zp cs es1 w1 = Some (Inr es', w')"
      by (auto simp: Let_def split: option.splits prod.splits sum.splits)
    from 4(1) [OF refl True d ys p] obtain m where d1: "db w1 = db w" and m: "n = Suc m"
      and a1: "adds e (db w) (es @ [dir_entry ?p]) es1
        (concat (map (archive_spec m u (frows w) ?ys) (visible_children u (frows w) (uf_ID c))))" by blast
    from 4(2) [OF refl True d refl refl r 4(5-7)] d1 have "db w' = db w"
      and a2: "adds e (db w) es1 es' (concat (map (archive_spec n u (frows w) xs) cs))" by simp_all
    moreover have "archive_spec n u (frows w) xs c = (?p @ ''/'', None) #
        concat (map (archive_spec m u (frows w) ?ys) (visible_children u (frows w) (uf_ID c)))"
      using True p m by (subst archive_spec.simps) (simp add: Let_def)
    ultimately show ?thesis using adds_trans [OF adds_dir [OF a1] a2] by simp
  next
    case False
    with 4(4) obtain es1 w1 where d: "append_file e c ?p es w = (Inr es1, w1)"
      and r: "collect_each e n u zp cs es1 w1 = Some (Inr es', w')"
      by (auto simp: Let_def split: prod.splits sum.splits)
    have d1: "db w1 = db w" by (rule append_file_db [OF d])
    from 4(3) [OF refl False d [symmetric] refl r 4(5-7)] d1 have "db w' = db w"
      and a2: "adds e (db w) es1 es' (concat (map (archive_spec n u (frows w) xs) cs))" by simp_all
    moreover have "archive_spec n u (frows w) xs c = [(?p, uf_ObjectID c)]"
      using False p by (subst archive_spec.simps) (simp add: Let_def)
    ultimately show ?thesis using adds_trans [OF adds_file [OF d] a2] by simp
  qed
qed (simp_all add: adds_nil)

text \<open>The rows a user asks for, each a live one of theirs.\<close>

definition requested :: "nat \<Rightarrow> world \<Rightarrow> nat list \<Rightarrow> user_file list \<Rightarrow> bool" where
  "requested u w ids fs \<longleftrightarrow> map uf_ID fs = ids \<and>
     list_all (\<lambda>f. f \<in> set (frows w) \<and> uf_live f \<and> uf_UserID f = u \<and> \<not> uf_IsDeleted f) fs"

lemma Join_first: "sanitizeArchiveName x = join_slash ([] @ [sanitizeArchiveName x])"
  by simp

lemma build_adds:
  "build_entries e n u ids es w = Some (Inr es', w') \<Longrightarrow> \<exists>fs. requested u w ids fs \<and>
    adds e (db w) es es' (concat (map (archive_spec n u (frows w) []) fs))"
proof (induction ids arbitrary: es w)
  case Nil
  then show ?case by (auto simp: requested_def adds_nil)
next
  case (Cons k ids)
  obtain y w1 where ff: "first_file e (\<lambda>r. uf_ID r = k \<and> uf_UserID r = u \<and> \<not> uf_IsDeleted r) w = (y, w1)"
    by fastforce
  with Cons.prems obtain f where y: "y = Inr f" by (cases y) auto
  from first_file_same [OF ff] y have d1: "db w1 = db w"
    and f: "f \<in> set (frows w)" "uf_live f" "uf_ID f = k" "uf_UserID f = u" "\<not> uf_IsDeleted f" by auto
  let ?p = "sanitizeArchiveName (uf_Name f)"
  obtain es1 w2 where r: "build_entries e n u ids es1 w2 = Some (Inr es', w')" and d2: "db w2 = db w"
    and a: "adds e (db w) es es1 (archive_spec n u (frows w) [] f)"
  proof (cases "uf_IsDir f")
    case True
    with Cons.prems ff y obtain es1 w2
      where c: "collectArchiveChildren e n u (uf_ID f) ?p (es @ [dir_entry ?p]) w1 = Some (Inr es1, w2)"
      and r: "build_entries e n u ids es1 w2 = Some (Inr es', w')"
      by (auto simp: Let_def split: option.splits prod.splits sum.splits)
    from collect_adds(1) [OF c, of "[?p]"] d1 obtain m where "db w2 = db w" "n = Suc m"
      "adds e (db w) (es @ [dir_entry ?p]) es1
        (concat (map (archive_spec m u (frows w) [?p]) (visible_children u (frows w) (uf_ID f))))" by auto
    moreover from this(2) True have "archive_spec n u (frows w) [] f = (?p @ ''/'', None) #
        concat (map (archive_spec m u (frows w) [?p]) (visible_children u (frows w) (uf_ID f)))"
      by (subst archive_spec.simps) (simp add: Let_def)
    ultimately show ?thesis using that [OF r] adds_dir by simp
  next
    case False
    with Cons.prems ff y obtain es1 w2 where c: "append_file e f ?p es w1 = (Inr es1, w2)"
      and r: "build_entries e n u ids es1 w2 = Some (Inr es', w')"
      by (auto simp: Let_def split: prod.splits sum.splits)
    moreover have "archive_spec n u (frows w) [] f = [(?p, uf_ObjectID f)]"
      using False by (subst archive_spec.simps) (simp add: Let_def)
    ultimately show ?thesis using that [OF r] adds_file [OF c] append_file_db [OF c] d1 by simp
  qed
  from Cons.IH [OF r] d2 obtain fs where "requested u w ids fs"
    "adds e (db w) es1 es' (concat (map (archive_spec n u (frows w) []) fs))" by (auto simp: requested_def)
  with f adds_trans [OF a] have "requested u w (k # ids) (f # fs) \<and>
      adds e (db w) es es' (concat (map (archive_spec n u (frows w) []) (f # fs)))"
    by (simp add: requested_def)
  then show ?case by blast
qed


text \<open>What the paths look like.\<close>

lemma list_all2_set1: "list_all2 P xs ys \<Longrightarrow> x \<in> set xs \<Longrightarrow> \<exists>y\<in>set ys. P x y"
  by (induction rule: list_all2_induct) auto

lemma spec_paths: "list_all element xs \<Longrightarrow> s \<in> set (archive_spec n u fs xs f) \<Longrightarrow>
    \<exists>ys. ys \<noteq> [] \<and> list_all element ys \<and> fst s \<in> {join_slash ys, join_slash ys @ ''/''}"
proof (induction n u fs xs f rule: archive_spec.induct)
  case (1 n u fs xs f)
  let ?ys = "xs @ [sanitizeArchiveName (uf_Name f)]"
  have ys: "?ys \<noteq> []" "list_all element ?ys" using 1(2) by simp_all
  from 1(3) consider "fst s \<in> {join_slash ?ys, join_slash ?ys @ ''/''}"
    | m c where "uf_IsDir f" "n = Suc m" "c \<in> set (visible_children u fs (uf_ID f))" "s \<in> set (archive_spec m u fs ?ys c)"
    by (subst (asm) archive_spec.simps) (auto simp: Let_def split: if_splits nat.splits)
  then show ?case
  proof cases
    case 1
    with ys show ?thesis by blast
  next
    case 2
    from 1(1) [OF refl 2(1,2,3) ys(2) 2(4)] show ?thesis .
  qed
qed

text \<open>C13: no entry of an archive leads out of the directory it is unpacked in, whatever names the files
  have: every path is relative, and none of its elements is empty, a dot, two dots, or has a
  slash in it.\<close>
theorem archive_paths_stay_inside:
  assumes "BuildArchiveEntries e n u ids w = Some (Inr es, w')" and "en \<in> set es"
  shows "\<exists>ys. ys \<noteq> [] \<and> list_all element ys \<and> split_slash [] (join_slash ys) = ys
    \<and> ae_ZipPath en \<in> {join_slash ys, join_slash ys @ ''/''}"
proof -
  from build_adds [OF assms(1) [unfolded BuildArchiveEntries_def]] obtain fs
    where "list_all2 (entry_of e (db w)) es (concat (map (archive_spec n u (frows w) []) fs))"
    by (auto simp: adds_def)
  from list_all2_set1 [OF this assms(2)] obtain s
    where s0: "s \<in> set (concat (map (archive_spec n u (frows w) []) fs))" "entry_of e (db w) en s" by blast
  then have s: "ae_ZipPath en = fst s" by (simp add: entry_of_def)
  from s0 obtain f where "s \<in> set (archive_spec n u (frows w) [] f)" by auto
  from spec_paths [OF _ this] obtain ys where "ys \<noteq> []" "list_all element ys"
    "fst s \<in> {join_slash ys, join_slash ys @ ''/''}" by auto
  with split_join [of ys] s show ?thesis by auto
qed

section \<open>Archives end\<close>

lemma collect_db:
  "collectArchiveChildren e n u k zp es w = Some (r, w') \<Longrightarrow> db w' = db w"
  "collect_each e n u zp cs es w = Some (r, w') \<Longrightarrow> db w' = db w"
proof (induction e n u k zp es w and e n u zp cs es w arbitrary: r w' and r w'
    rule: collectArchiveChildren_collect_each.induct)
  case (4 e n u zp c cs es w)
  let ?p = "path_Join zp (sanitizeArchiveName (uf_Name c))"
  show ?case
  proof (cases "uf_IsDir c")
    case True
    with 4(4) obtain y w1 where d: "collectArchiveChildren e n u (uf_ID c) ?p (es @ [dir_entry ?p]) w = Some (y, w1)"
      by (auto simp: Let_def split: option.splits)
    note d1 = 4(1) [OF refl True d]
    show ?thesis
    proof (cases y)
      case (Inl err)
      with 4(4) True d d1 show ?thesis by (simp add: Let_def)
    next
      case (Inr es1)
      with 4(4) True d have "collect_each e n u zp cs es1 w1 = Some (r, w')" by (simp add: Let_def)
      from 4(2) [OF refl True d refl Inr this] d1 show ?thesis by simp
    qed
  next
    case False
    obtain y w1 where d: "append_file e c ?p es w = (y, w1)" by fastforce
    note d1 = append_file_db [OF d]
    show ?thesis
    proof (cases y)
      case (Inl err)
      with 4(4) False d d1 show ?thesis by (simp add: Let_def)
    next
      case (Inr es1)
      with 4(4) False d have "collect_each e n u zp cs es1 w1 = Some (r, w')" by (simp add: Let_def)
      from 4(3) [OF refl False d [symmetric] Inr this] d1 show ?thesis by simp
    qed
  qed
next
  case (2 e n u k zp es w)
  obtain y w1 where f: "find_files e (\<lambda>r. uf_ParentID r = Some k \<and> uf_UserID r = u \<and> \<not> uf_IsDeleted r) w = (y, w1)"
    by fastforce
  note same = find_files_same [OF f]
  show ?case
  proof (cases y)
    case (Inl err)
    with 2(2) f same show ?thesis by simp
  next
    case (Inr cs)
    with 2(2) f have "collect_each e n u zp cs es w1 = Some (r, w')" by simp
    from 2(1) [OF f [symmetric] Inr this] same show ?thesis by simp
  qed
qed simp_all


lemma collect_ends:
  "height (frows w) k < n \<Longrightarrow> tree_shaped (frows w) \<Longrightarrow> collectArchiveChildren e n u k zp es w \<noteq> None"
  "\<forall>c\<in>set cs. uf_IsDir c \<longrightarrow> height (frows w) (uf_ID c) < n \<Longrightarrow> tree_shaped (frows w)
    \<Longrightarrow> collect_each e n u zp cs es w \<noteq> None"
proof (induction e n u k zp es w and e n u zp cs es w rule: collectArchiveChildren_collect_each.induct)
  case (2 e n u k zp es w)
  obtain y w1 where f: "find_files e (\<lambda>r. uf_ParentID r = Some k \<and> uf_UserID r = u \<and> \<not> uf_IsDeleted r) w = (y, w1)"
    by fastforce
  note same = find_files_same [OF f]
  show ?case
  proof (cases y)
    case (Inr cs)
    have "height (frows w) (uf_ID c) < n" if "c \<in> set cs" for c
    proof -
      from that Inr same have "(uf_ID c, k) \<in> up (frows w)" by (auto intro: upI)
      from height_child [OF 2(3) this] 2(2) show ?thesis by simp
    qed
    with 2(1) [OF f [symmetric] Inr] 2(3) same f Inr show ?thesis by simp
  qed (use f in simp)
next
  case (4 e n u zp c cs es w)
  let ?p = "path_Join zp (sanitizeArchiveName (uf_Name c))"
  show ?case
  proof (cases "uf_IsDir c")
    case True
    from 4(1) [OF refl True] 4(4,5) True obtain y w1
      where d: "collectArchiveChildren e n u (uf_ID c) ?p (es @ [dir_entry ?p]) w = Some (y, w1)" by auto
    show ?thesis
    proof (cases y)
      case (Inr es1)
      have "db w1 = db w" by (rule collect_db(1) [OF d])
      with 4(2) [OF refl True d refl Inr] 4(4,5) d Inr True show ?thesis by (simp add: Let_def)
    qed (use True d in \<open>simp add: Let_def\<close>)
  next
    case False
    obtain y w1 where d: "append_file e c ?p es w = (y, w1)" by fastforce
    show ?thesis
    proof (cases y)
      case (Inr es1)
      with 4(3) [OF refl False d [symmetric] Inr] append_file_db [OF d] 4(4,5) d False show ?thesis
        by (simp add: Let_def)
    qed (use False d in \<open>simp add: Let_def\<close>)
  qed
qed simp_all

lemma build_ends:
  "tree_shaped (frows w) \<Longrightarrow> length (frows w) < n \<Longrightarrow> build_entries e n u ids es w \<noteq> None"
proof (induction ids arbitrary: es w)
  case (Cons k ids)
  obtain y w1 where ff: "first_file e (\<lambda>r. uf_ID r = k \<and> uf_UserID r = u \<and> \<not> uf_IsDeleted r) w = (y, w1)"
    by fastforce
  note same = first_file_same [OF ff]
  show ?case
  proof (cases y)
    case (Inr f)
    let ?p = "sanitizeArchiveName (uf_Name f)"
    have "height (frows w1) (uf_ID f) < n"
      using height_le_length [of "frows w1" "uf_ID f"] Cons.prems(2) same by simp
    then have "collectArchiveChildren e n u (uf_ID f) ?p (es @ [dir_entry ?p]) w1 \<noteq> None"
      using collect_ends(1) Cons.prems(1) same by simp
    then obtain z w2 where c: "collectArchiveChildren e n u (uf_ID f) ?p (es @ [dir_entry ?p]) w1 = Some (z, w2)"
      by auto
    obtain z' w2' where a: "append_file e f ?p es w1 = (z', w2')" by fastforce
    have d: "db w2 = db w" "db w2' = db w" using collect_db(1) [OF c] append_file_db [OF a] same by simp_all
    have "build_entries e n u ids es2 w2 \<noteq> None" "build_entries e n u ids es2 w2' \<noteq> None" for es2
      using Cons.IH Cons.prems d by simp_all
    with ff Inr c a show ?thesis by (cases z; cases z') (simp_all add: Let_def)
  qed (use ff in simp)
qed simp

text \<open>Collecting an archive ends: on a tree of files a fuel of one more than the number of rows is
  enough for the recursion over the folders, whatever requests fail.\<close>
theorem BuildArchiveEntries_ends:
  assumes "tree_shaped (frows w)" and "length (frows w) < n"
  shows "\<exists>r w'. BuildArchiveEntries e n u ids w = Some (r, w')"
  using build_ends [OF assms] by (auto simp: BuildArchiveEntries_def)

section \<open>Runs\<close>

definition world9 :: world where
  "world9 = world1\<lparr>db := (db world1)\<lparr>files :=
     \<lparr>rows = [live_dir 1 None ''..'', file2, file3], next_key = 4\<rparr>\<rparr>\<rparr>"

definition entries9 :: "archive_entry list" where
  "entries9 = (case BuildArchiveEntries env0 3 1 [1] world9 of Some (Inr es, _) \<Rightarrow> es | _ \<Rightarrow> [])"

lemma entries9_ok: "case BuildArchiveEntries env0 3 1 [1] world9 of Some (Inr es, _) \<Rightarrow> es \<noteq> [] | _ \<Rightarrow> False"
  by (simp add: BuildArchiveEntries_def first_file_def find_files_def first_object_def query_row_no_fault
    query_no_fault append_file_def GetFileObjectById_def GetFileObjectFromCache_def redis_get_def
    attempt_no_fault redis_now_def Let_def numeral_3_eq_3 first_row_def world9_def live_dir_def world1_defs)

lemma entries9: "\<exists>w'. BuildArchiveEntries env0 3 1 [1] world9 = Some (Inr entries9, w')" "entries9 \<noteq> []"
  using entries9_ok by (auto simp: entries9_def split: option.splits prod.splits sum.splits)


theorem archive_paths_stay_inside_witness:
  "\<exists>ys. ys \<noteq> [] \<and> list_all element ys \<and> ae_ZipPath (hd entries9) \<in> {join_slash ys, join_slash ys @ ''/''}"
  using entries9(1) archive_paths_stay_inside [OF _ hd_in_set [OF entries9(2)]] by blast

theorem BuildArchiveEntries_ends_witness:
  "\<exists>r w'. BuildArchiveEntries env0 4 1 [1, 3] world9 = Some (r, w')"
proof -
  have "acyclic (up (frows world9))"
    by (rule acyclic_by_key) (auto simp: world9_def live_dir_def world1_defs)
  then have "tree_shaped (frows world9)"
    by (simp add: tree_shaped_def world9_def live_dir_def world1_defs)
  from BuildArchiveEntries_ends [OF this] show ?thesis by (simp add: world9_def)
qed

end
