(* ===== verification/Shares.thy ===== *)
theory Shares
  imports Remote
begin

text \<open>
  Share links: creating and checking them (\<open>src/internal/service/share_file.go\<close>), their expiry in Redis
  (\<open>handleShareExpired\<close> of \<open>src/internal/repo/redis.go\<close>), the download through a link
  (\<open>src/internal/handler/share_file.go\<close>), and the log of accesses with its statistics
  (\<open>src/internal/service/share_access.go\<close>). A link with an expiry lives in MySQL and in Redis.
\<close>

section \<open>The file_share table\<close>

abbreviation srows :: "world \<Rightarrow> file_share list" where
  "srows w \<equiv> rows (shares (db w))"

abbreviation fs_live :: "file_share \<Rightarrow> bool" where
  "fs_live r \<equiv> fs_DeletedAt r = None"

definition first_share :: "env \<Rightarrow> (file_share \<Rightarrow> bool) \<Rightarrow> file_share step" where
  "first_share e p = query_row e (\<lambda>d. first_row fs_ID (\<lambda>r. fs_live r \<and> p r) (shares d))"

text \<open>\<open>Order("created_at DESC").First\<close>: of the newest rows the one with the least key.\<close>

definition newest_share :: "env \<Rightarrow> (file_share \<Rightarrow> bool) \<Rightarrow> file_share step" where
  "newest_share e p = query_row e (\<lambda>d.
     case sort_key (\<lambda>r. - fs_CreatedAt r) (sort_key fs_ID (filter (\<lambda>r. fs_live r \<and> p r) (rows (shares d)))) of
       [] \<Rightarrow> None | r # _ \<Rightarrow> Some r)"

definition update_shares :: "env \<Rightarrow> (file_share \<Rightarrow> bool) \<Rightarrow> (file_share \<Rightarrow> file_share) \<Rightarrow> unit step" where
  "update_shares e p f =
     execute e (\<lambda>d. ((), d\<lparr>shares := update_rows (\<lambda>r. fs_live r \<and> p r) f (shares d)\<rparr>))"

text \<open>The row comes back with its key and its time.\<close>

definition create_share :: "env \<Rightarrow> file_share \<Rightarrow> file_share step" where
  "create_share e r = execute_at e (\<lambda>t d. (fs_set (next_key (shares d)) (r\<lparr>fs_CreatedAt := t\<rparr>),
     d\<lparr>shares := insert_row fs_set (r\<lparr>fs_CreatedAt := t\<rparr>) (shares d)\<rparr>))"

section \<open>Creating and checking a link\<close>

text \<open>The four draws of a code; a draw that fails gives the first character.\<close>

definition code_chars :: string where
  "code_chars = ''ABCDEFGHJKLMNPQRSTUVWXYZ23456789''"

definition code_char :: "nat option \<Rightarrow> char" where
  "code_char n = (case n of None \<Rightarrow> code_chars ! 0 | Some n \<Rightarrow> code_chars ! (n mod length code_chars))"

definition GenExtractCode :: "(nat \<Rightarrow> nat option) \<Rightarrow> world \<Rightarrow> string \<times> world" where
  "GenExtractCode rnd w =
     (map (\<lambda>i. code_char (rnd (drawn w + i))) [0..<4], w\<lparr>drawn := drawn w + 4\<rparr>)"

abbreviation share_key :: "string \<Rightarrow> string" where
  "share_key shareID \<equiv> ''share:'' @ shareID"

text \<open>An error of the update of an expired link is not looked at.\<close>

definition retire_existing :: "env \<Rightarrow> nat \<Rightarrow> nat \<Rightarrow> unit step" where
  "retire_existing e userID fileID w =
     (case newest_share e (\<lambda>r. fs_FileID r = fileID \<and> fs_UserID r = userID \<and> fs_Status r = 0) w of
        (Inr existing, w) \<Rightarrow>
          (let (valid, w) = (case fs_ExpireAt existing of None \<Rightarrow> (True, w)
                             | Some x \<Rightarrow> let (now, w) = timeNow e w in (now < x, w)) in
           if valid then (Inl (Errorf ''share already exists''), w)
           else (Inr (), snd (update_shares e (\<lambda>r. fs_ID r = fs_ID existing) (\<lambda>r. r\<lparr>fs_Status := 1\<rparr>) w)))
      | (Inl err, w) \<Rightarrow> if err = RecordNotFound then (Inr (), w) else (Inl err, w))"

text \<open>\<open>time.Duration(expireDays) * 24 * time.Hour\<close> wraps around at 64 bits.\<close>

definition expiry_of :: "int \<Rightarrow> int" where
  "expiry_of expireDays = wrap64 (expireDays * (24 * 60 * 60 * 1000000000))"

definition new_share :: "env \<Rightarrow> (nat \<Rightarrow> nat option) \<Rightarrow> nat \<Rightarrow> nat \<Rightarrow> int \<Rightarrow> bool \<Rightarrow> world \<Rightarrow> file_share \<times> world" where
  "new_share e rnd userID fileID expireDays needCode w =
     (let (tok, w) = GetToken e w;
          (code, w) = (if needCode then GenExtractCode rnd w else ('''', w));
          (expireAt, w) = (if 0 < expireDays
             then let (now, w) = timeNow e w in (Some (now + expiry_of expireDays), w) else (None, w))
      in (\<lparr>fs_ID = 0, fs_ShareID = tok, fs_FileID = fileID, fs_UserID = userID, fs_NeedCode = needCode,
           fs_ExtractCode = code, fs_ExpireAt = expireAt, fs_Status = 0, fs_CreatedAt = 0, fs_DeletedAt = None\<rparr>, w))"

definition cache_share :: "env \<Rightarrow> file_share \<Rightarrow> world \<Rightarrow> world" where
  "cache_share e share w =
     (case fs_ExpireAt share of
        None \<Rightarrow> w
      | Some x \<Rightarrow> (let (now, w) = timeNow e w
                   in snd (redis_set e (share_key (fs_ShareID share)) (RShare share) (x - now) w)))"

definition CreateShare ::
  "env \<Rightarrow> (nat \<Rightarrow> nat option) \<Rightarrow> nat \<Rightarrow> nat \<Rightarrow> int \<Rightarrow> bool \<Rightarrow> file_share step" where
  "CreateShare e rnd userID fileID expireDays needCode w =
     (case CheckFileOwner e userID fileID w of
        (owner, w) \<Rightarrow> if \<not> owner then (Inl (Errorf ''permission denied''), w) else
     (case retire_existing e userID fileID w of
        (Inl err, w) \<Rightarrow> (Inl err, w)
      | (Inr _, w) \<Rightarrow>
     (case new_share e rnd userID fileID expireDays needCode w of
        (share, w) \<Rightarrow>
     (case create_share e share w of
        (Inl err, w) \<Rightarrow> (Inl err, w)
      | (Inr share, w) \<Rightarrow>
          (Inr share, snd (Emit e userID ActionShare fileID 0 (cache_share e share w)))))))"

definition check_code :: "file_share \<Rightarrow> string \<Rightarrow> file_share step" where
  "check_code share extractCode w =
     (if fs_NeedCode share \<and> fs_ExtractCode share \<noteq> extractCode
      then (Inl (Errorf ''extract code mismatch''), w) else (Inr share, w))"

definition check_stored_share :: "env \<Rightarrow> string \<Rightarrow> string \<Rightarrow> file_share step" where
  "check_stored_share e shareID extractCode w =
     (case first_share e (\<lambda>r. collate e (fs_ShareID r) = collate e shareID \<and> fs_Status r = 0) w of
        (Inl err, w) \<Rightarrow> (Inl (if err = RecordNotFound then Errorf ''share not found or expired'' else err), w)
      | (Inr share, w) \<Rightarrow>
          (let (expired, w) = (case fs_ExpireAt share of None \<Rightarrow> (False, w)
                               | Some x \<Rightarrow> let (now, w) = timeNow e w in (x < now, w)) in
           if expired then (Inl (Errorf ''share expired''),
             snd (update_shares e (\<lambda>r. fs_ID r = fs_ID share) (\<lambda>r. r\<lparr>fs_Status := 1\<rparr>) w))
           else check_code share extractCode w))"

definition CheckShare :: "env \<Rightarrow> string \<Rightarrow> string \<Rightarrow> file_share step" where
  "CheckShare e shareID extractCode w =
     (case redis_get e (share_key shareID) w of
        (Inl err, w) \<Rightarrow> if err = RedisNil then check_stored_share e shareID extractCode w else (Inl err, w)
      | (Inr v, w) \<Rightarrow> (case v of RShare share \<Rightarrow> check_code share extractCode w | _ \<Rightarrow> (Inl DecodeErr, w)))"

section \<open>Expiry\<close>

definition handleShareExpired :: "env \<Rightarrow> string \<Rightarrow> world \<Rightarrow> world" where
  "handleShareExpired e key w =
     (let shareID = TrimPrefix key ''share:'' in
      snd (update_shares e (\<lambda>r. collate e (fs_ShareID r) = collate e shareID) (\<lambda>r. r\<lparr>fs_Status := 1\<rparr>) w))"

definition handleExpiredKey :: "env \<Rightarrow> string \<Rightarrow> world \<Rightarrow> world" where
  "handleExpiredKey e key w = (if HasPrefix key ''share:'' then handleShareExpired e key w else w)"

section \<open>Checks\<close>

lemma check_code_InrD: "check_code s c w = (Inr s', w') \<Longrightarrow> s' = s \<and> w' = w \<and> (fs_NeedCode s \<longrightarrow> fs_ExtractCode s = c)"
  by (auto simp: check_code_def split: if_splits)

lemma check_stored_share_sound:
  assumes "check_stored_share e sid code w = (Inr s, w')"
  shows "s \<in> set (srows w) \<and> fs_live s \<and> collate e (fs_ShareID s) = collate e sid \<and> fs_Status s = 0
    \<and> (\<forall>x. fs_ExpireAt s = Some x \<longrightarrow> clock e (reads w) \<le> x) \<and> (fs_NeedCode s \<longrightarrow> fs_ExtractCode s = code)
    \<and> db w' = db w"
proof -
  let ?p = "\<lambda>r. collate e (fs_ShareID r) = collate e sid \<and> fs_Status r = 0"
  obtain y w1 where f: "first_share e ?p w = (y, w1)" by fastforce
  with assms obtain s1 where y: "y = Inr s1" by (cases y) (auto simp: check_stored_share_def split: if_splits)
  note q = query_rowD [OF f [unfolded first_share_def y]]
  have s1: "s1 \<in> set (srows w)" "fs_live s1" "?p s1" using q by (auto dest: first_row_SomeD)
  have r1: "reads w1 = reads w" "db w1 = db w"
    using f y by (auto simp: first_share_def query_row_def attempt_def Let_def split: if_splits)
  from assms f y have "\<exists>w2. check_code s1 code w2 = (Inr s, w') \<and> db w2 = db w
      \<and> (\<forall>x. fs_ExpireAt s1 = Some x \<longrightarrow> clock e (reads w) \<le> x)"
    using r1 by (auto simp: check_stored_share_def timeNow_def Let_def not_less split: option.splits if_splits)
  then obtain w2 where c: "check_code s1 code w2 = (Inr s, w')" and d: "db w2 = db w"
    and t: "\<forall>x. fs_ExpireAt s1 = Some x \<longrightarrow> clock e (reads w) \<le> x" by blast
  from check_code_InrD [OF c] have "s = s1" "w' = w2" "fs_NeedCode s1 \<longrightarrow> fs_ExtractCode s1 = code" by auto
  with s1 d t show ?thesis by simp
qed

lemma CheckShare_db:
  assumes "CheckShare e sid code w = (Inr s, w')" shows "db w' = db w"
proof -
  obtain y w1 where g: "redis_get e (share_key sid) w = (y, w1)" by fastforce
  have d1: "db w1 = db w" using redis_frameD(1) [OF g] by simp
  show ?thesis
  proof (cases y)
    case (Inl err)
    with assms g have "check_stored_share e sid code w1 = (Inr s, w')" by (auto simp: CheckShare_def split: if_splits)
    from check_stored_share_sound [OF this] d1 show ?thesis by simp
  next
    case (Inr v)
    with assms g obtain s1 where "check_code s1 code w1 = (Inr s, w')" by (auto simp: CheckShare_def split: rval.splits)
    from check_code_InrD [OF this] d1 show ?thesis by simp
  qed
qed

text \<open>C4: whoever gets a share from its link has given its extract code when it has one, and the share is
  either the copy in Redis, not yet expired there, or a row of the link that is neither retired nor
  past its expiry.\<close>
theorem CheckShare_sound:
  assumes "CheckShare e sid code w = (Inr s, w')"
  shows "(fs_NeedCode s \<longrightarrow> fs_ExtractCode s = code) \<and> db w' = db w \<and>
    (redis_now e w (share_key sid) = Some (RShare s) \<or>
     s \<in> set (srows w) \<and> fs_live s \<and> collate e (fs_ShareID s) = collate e sid \<and> fs_Status s = 0
       \<and> (\<forall>x. fs_ExpireAt s = Some x \<longrightarrow> clock e (Suc (reads w)) \<le> x))"
proof -
  obtain y w1 where g: "redis_get e (share_key sid) w = (y, w1)" by fastforce
  have d1: "db w1 = db w" using redis_frameD(1) [OF g] by simp
  show ?thesis
  proof (cases y)
    case (Inl err)
    with assms g have "err = RedisNil" and c: "check_stored_share e sid code w1 = (Inr s, w')"
      by (auto simp: CheckShare_def split: if_splits)
    with g Inl have "reads w1 = Suc (reads w)"
      by (auto simp: redis_get_def attempt_def Let_def split: if_splits)
    with check_stored_share_sound [OF c] d1 show ?thesis by simp
  next
    case (Inr v)
    with assms g obtain s1 where "v = RShare s1" "check_code s1 code w1 = (Inr s, w')"
      by (auto simp: CheckShare_def split: rval.splits)
    moreover have "redis_now e w (share_key sid) = Some v"
      using g Inr by (auto simp: redis_get_def attempt_def Let_def split: if_splits option.splits)
    ultimately show ?thesis using check_code_InrD d1 by fastforce
  qed
qed

section \<open>Expired links\<close>

lemma update_shares_no_fault:
  assumes "fault e = (\<lambda>_. False)" and "db_wf (collate e) (db w)"
    and "\<And>r. fs_ID (f r) = fs_ID r \<and> fs_ShareID (f r) = fs_ShareID r \<and> fs_FileID (f r) = fs_FileID r \<and> fs_UserID (f r) = fs_UserID r"
  shows "update_shares e p f w = (Inr (), w\<lparr>requests := Suc (requests w),
     db := (db w)\<lparr>shares := update_rows (\<lambda>r. fs_live r \<and> p r) f (shares (db w))\<rparr>\<rparr>)"
proof -
  let ?t = "update_rows (\<lambda>r. fs_live r \<and> p r) f (shares (db w))"
  have "map fs_ShareID (rows ?t) = map fs_ShareID (srows w)" using assms(3) by (simp add: update_rows_def)
  then have "map (collate e \<circ> fs_ShareID) (rows ?t) = map (collate e \<circ> fs_ShareID) (srows w)" by (metis map_map)
  moreover have "list_all (\<lambda>s. has_key uf_ID (files (db w)) (fs_FileID s) \<and> has_key u_ID (users (db w)) (fs_UserID s)) (rows ?t)
      = list_all (\<lambda>s. has_key uf_ID (files (db w)) (fs_FileID s) \<and> has_key u_ID (users (db w)) (fs_UserID s)) (srows w)"
    by (simp add: update_rows_def list.pred_map comp_def assms(3) if_distrib [of fs_FileID] if_distrib [of fs_UserID]
        cong: if_cong)
  ultimately have "db_valid (collate e) ((db w)\<lparr>shares := ?t\<rparr>)"
    using assms(2) by (simp add: db_wf_def db_valid_def file_share_unique_def file_share_fk_def file_object_fk_def
        user_file_fk_def upload_session_fk_def)
  with assms(1) show ?thesis by (simp add: update_shares_def execute_no_fault)
qed

text \<open>C27: once the copy of a link in Redis has expired and the listener has handled the event, the link is
  refused, whatever code is given.\<close>
theorem expired_share_refused:
  assumes "fault e = (\<lambda>_. False)" and "db_wf (collate e) (db w)" and "map_of (redis w) (share_key sid) = None"
  shows "fst (CheckShare e sid code (handleExpiredKey e (share_key sid) w)) = Inl (Errorf ''share not found or expired'')"
proof -
  have k: "HasPrefix (share_key sid) ''share:''" "TrimPrefix (share_key sid) ''share:'' = sid"
    by (simp_all add: HasPrefix_def TrimPrefix_def)
  let ?w1 = "handleExpiredKey e (share_key sid) w"
  have w1: "?w1 = w\<lparr>requests := Suc (requests w), db := (db w)\<lparr>shares := update_rows
      (\<lambda>r. fs_live r \<and> collate e (fs_ShareID r) = collate e sid) (\<lambda>r. r\<lparr>fs_Status := 1\<rparr>) (shares (db w))\<rparr>\<rparr>"
    using k update_shares_no_fault [OF assms(1,2)] by (simp add: handleExpiredKey_def handleShareExpired_def)
  have "first_row fs_ID (\<lambda>r. fs_live r \<and> collate e (fs_ShareID r) = collate e sid \<and> fs_Status r = 0) (shares (db ?w1)) = None"
    unfolding w1 first_row_None by (auto simp: update_rows_def)
  moreover have r: "redis ?w1 = redis w" unfolding w1 by simp
  have "redis_now e ?w1 (share_key sid) = None" unfolding redis_now_def r using assms(3) by simp
  ultimately show ?thesis
    using assms(1) unfolding CheckShare_def
    by (simp add: redis_get_def attempt_no_fault check_stored_share_def first_share_def query_row_no_fault)
qed

section \<open>One active link per file\<close>

definition active_for :: "nat \<Rightarrow> nat \<Rightarrow> file_share \<Rightarrow> bool" where
  "active_for u k s \<longleftrightarrow> fs_live s \<and> fs_FileID s = k \<and> fs_UserID s = u \<and> fs_Status s = 0"

definition one_active :: "database \<Rightarrow> bool" where
  "one_active d \<longleftrightarrow> (\<forall>u k. length (filter (active_for u k) (rows (shares d))) \<le> 1)"

lemma newest_share_same:
  assumes "newest_share e p w = (y, w1)"
  shows "db w1 = db w \<and> redis w1 = redis w \<and> (\<forall>s. y = Inr s \<longrightarrow> s \<in> set (srows w) \<and> fs_live s \<and> p s)
    \<and> (y = Inl RecordNotFound \<longrightarrow> filter (\<lambda>r. fs_live r \<and> p r) (srows w) = [])"
proof -
  let ?xs = "sort_key (\<lambda>r. - fs_CreatedAt r) (sort_key fs_ID (filter (\<lambda>r. fs_live r \<and> p r) (srows w)))"
  have set: "set ?xs = {r \<in> set (srows w). fs_live r \<and> p r}" by simp
  have w1: "db w1 = db w" "redis w1 = redis w"
    and y: "y = Inl ServiceErr \<or> y = (case ?xs of [] \<Rightarrow> Inl RecordNotFound | r # _ \<Rightarrow> Inr r)"
    using assms by (auto simp: newest_share_def query_row_def attempt_def Let_def split: if_splits list.splits)
  show ?thesis
  proof (cases ?xs)
    case Nil
    with set have "{r \<in> set (srows w). fs_live r \<and> p r} = {}" by simp
    then have "filter (\<lambda>r. fs_live r \<and> p r) (srows w) = []" by (simp add: filter_empty_conv)
    with w1 y Nil show ?thesis by auto
  next
    case (Cons r rs)
    with set have "r \<in> {r \<in> set (srows w). fs_live r \<and> p r}" by (metis list.set_intros(1))
    with w1 y Cons show ?thesis by auto
  qed
qed

lemma update_shares_wf:
  assumes "update_shares e p (\<lambda>r. r\<lparr>fs_Status := n\<rparr>) w = (y, w')" and "db_wf (collate e) (db w)"
  shows "db_wf (collate e) (db w')"
proof -
  have "db_wf (collate e) (db (snd (update_shares e p (\<lambda>r. r\<lparr>fs_Status := n\<rparr>) w)))"
    unfolding update_shares_def
    by (rule execute_db_wf [OF assms(2)]) (auto simp: keys_wf_def intro!: fst_t.keys_ok_upd)
  with assms(1) show ?thesis by simp
qed

lemma one_active_retired:
  assumes "one_active d" and "d' = d\<lparr>shares := update_rows p (\<lambda>r. r\<lparr>fs_Status := 1\<rparr>) (shares d)\<rparr>"
  shows "one_active d'"
proof -
  have "length (filter (active_for u k) (map (\<lambda>r. if p r then r\<lparr>fs_Status := 1\<rparr> else r) rs))
      \<le> length (filter (active_for u k) rs)" for u k rs
    by (induction rs) (auto simp: active_for_def)
  with assms show ?thesis unfolding one_active_def by (fastforce simp: update_rows_def intro: order_trans)
qed

lemma filter_one: "length (filter p xs) \<le> 1 \<Longrightarrow> x \<in> set xs \<Longrightarrow> p x \<Longrightarrow> y \<in> set xs \<Longrightarrow> p y \<Longrightarrow> y = x"
proof -
  assume a: "length (filter p xs) \<le> 1" "x \<in> set xs" "p x" "y \<in> set xs" "p y"
  then have "x \<in> set (filter p xs)" "y \<in> set (filter p xs)" by auto
  with a(1) show ?thesis by (cases "filter p xs") auto
qed

lemma retire_existing_retires:
  assumes "fault e = (\<lambda>_. False)" and "db_wf (collate e) (db w)" and "one_active (db w)"
    and "retire_existing e u k w = (r, w')"
  shows "db_wf (collate e) (db w') \<and> one_active (db w') \<and> redis w' = redis w
    \<and> files (db w') = files (db w) \<and> users (db w') = users (db w)
    \<and> (r = Inr () \<longrightarrow> filter (active_for u k) (srows w') = [])"
proof -
  let ?p = "\<lambda>r. fs_FileID r = k \<and> fs_UserID r = u \<and> fs_Status r = 0"
  have p: "(\<lambda>r. fs_live r \<and> ?p r) = active_for u k" by (auto simp: active_for_def)
  obtain y w1 where n: "newest_share e ?p w = (y, w1)" by fastforce
  note same = newest_share_same [OF n, unfolded p]
  show ?thesis
  proof (cases y)
    case (Inl err)
    with assms n same show ?thesis by (auto simp: retire_existing_def split: if_splits)
  next
    case (Inr s)
    define w2 where "w2 = (case fs_ExpireAt s of None \<Rightarrow> w1 | Some x \<Rightarrow> w1\<lparr>reads := Suc (reads w1)\<rparr>)"
    have w2: "db w2 = db w" "redis w2 = redis w" using same by (auto simp: w2_def split: option.splits)
    show ?thesis
    proof (cases "r = Inr ()")
      case False
      with assms(4) n Inr have "w' = w2"
        by (auto simp: retire_existing_def timeNow_def w2_def Let_def split: option.splits if_splits)
      with False assms(2,3) w2 show ?thesis by simp
    next
      case True
      with assms(4) n Inr have w': "w' = snd (update_shares e (\<lambda>r. fs_ID r = fs_ID s) (\<lambda>r. r\<lparr>fs_Status := 1\<rparr>) w2)"
        by (auto simp: retire_existing_def timeNow_def w2_def Let_def split: option.splits if_splits)
      have wf2: "db_wf (collate e) (db w2)" using assms(2) w2 by simp
      note up = update_shares_no_fault [OF assms(1) wf2, of "\<lambda>r. r\<lparr>fs_Status := 1\<rparr>" "\<lambda>r. fs_ID r = fs_ID s"]
      have d: "db w' = (db w)\<lparr>shares := update_rows (\<lambda>r. fs_live r \<and> fs_ID r = fs_ID s) (\<lambda>r. r\<lparr>fs_Status := 1\<rparr>) (shares (db w))\<rparr>"
        and r': "redis w' = redis w" using up w' w2 by simp_all
      have s: "s \<in> set (srows w)" "active_for u k s" using same Inr p by (auto simp: active_for_def)
      have "\<not> active_for u k t'" if "t' \<in> set (srows w')" for t'
      proof
        assume a: "active_for u k t'"
        from that d obtain t where t: "t \<in> set (srows w)"
          "t' = (if fs_live t \<and> fs_ID t = fs_ID s then t\<lparr>fs_Status := 1\<rparr> else t)" by (auto simp: update_rows_def)
        with a have "t' = t" "active_for u k t" by (auto simp: active_for_def split: if_splits)
        with filter_one [of "active_for u k" "srows w" s t] s t(1) assms(3) have "t = s" by (simp add: one_active_def)
        with t(2) s(2) have "t' = s\<lparr>fs_Status := 1\<rparr>" by (simp add: active_for_def)
        with a show False by (simp add: active_for_def)
      qed
      with one_active_retired [OF assms(3) d] d r' update_shares_wf [OF up wf2] w' up show ?thesis
        by (auto simp: filter_empty_conv)
    qed
  qed
qed

lemma new_share_same:
  assumes "new_share e rnd u k days code w = (s, w')"
  shows "db w' = db w \<and> redis w' = redis w \<and> fs_FileID s = k \<and> fs_UserID s = u \<and> fs_Status s = 0
    \<and> fs_DeletedAt s = None \<and> fs_NeedCode s = code
    \<and> fs_ExpireAt s = (if 0 < days then Some (clock e (reads w) + expiry_of days) else None)"
  using assms by (auto simp: new_share_def GetToken_def GenExtractCode_def timeNow_def Let_def split: if_splits prod.splits)

lemma create_share_InrD:
  assumes "create_share e s w = (Inr s', w')"
  shows "\<exists>t. s' = fs_set (next_key (shares (db w))) (s\<lparr>fs_CreatedAt := t\<rparr>)
    \<and> db w' = (db w)\<lparr>shares := insert_row fs_set (s\<lparr>fs_CreatedAt := t\<rparr>) (shares (db w))\<rparr>
    \<and> db_valid (collate e) (db w')"
  using execute_at_okD [OF assms [unfolded create_share_def]] by auto

lemma create_share_frame: "create_share e s w = (y, w') \<Longrightarrow> redis w' = redis w"
  unfolding create_share_def by (auto dest!: execute_at_frame)

lemma create_share_wf:
  assumes "create_share e s w = (y, w')" and "db_wf (collate e) (db w)"
  shows "db_wf (collate e) (db w')"
proof -
  have "db_wf (collate e) (db (snd (create_share e s w)))"
    unfolding create_share_def
    by (rule execute_at_db_wf [OF assms(2)]) (auto simp: keys_wf_def intro!: fst_t.keys_ok_ins)
  with assms(1) show ?thesis by simp
qed

lemma CheckFileOwner_same:
  "CheckFileOwner e u k w = (b, w') \<Longrightarrow> db w' = db w \<and> redis w' = redis w \<and> reads w' = reads w"
  by (auto simp: CheckFileOwner_def count_files_def query_def attempt_def Let_def
      split: prod.splits sum.splits if_splits)

lemma cache_share_db [simp]: "db (cache_share e s w) = db w"
proof -
  have "db (snd (redis_set e k v ttl w1)) = db w1" for k v ttl w1
    by (simp add: redis_set_def attempt_def Let_def)
  then show ?thesis by (simp add: cache_share_def timeNow_def Let_def split: option.splits)
qed

lemma Emit_shares: "Emit e u a k n w = (r, w') \<Longrightarrow> shares (db w') = shares (db w)"
  using Emit_only [of e u a k n w r w'] unfolding only_daily_def
  by (metis database.select_convs(6) database.surjective database.update_convs(8))

text \<open>Every way a link is created or refused, in one walk.\<close>

lemma CreateShare_cases:
  assumes "CreateShare e rnd u k days code w = (r, w')"
  obtains (unchanged) err where "r = Inl err" "db w' = db w"
  | (retired) err w1 w2 where "r = Inl err" "db w1 = db w" "redis w1 = redis w" "retire_existing e u k w1 = (Inl err, w2)" "db w' = db w2"
  | (refused) err w1 w2 s w3 where "r = Inl err" "db w1 = db w" "redis w1 = redis w"
      "retire_existing e u k w1 = (Inr (), w2)" "db w3 = db w2" "create_share e s w3 = (Inl err, w')"
  | (created) w1 w2 s w3 s' w4 where "r = Inr s'" "reads w1 = reads w" "db w1 = db w" "redis w1 = redis w"
      "retire_existing e u k w1 = (Inr (), w2)" "new_share e rnd u k days code w2 = (s, w3)"
      "create_share e s w3 = (Inr s', w4)" "w' = snd (Emit e u ActionShare k 0 (cache_share e s' w4))"
proof -
  obtain b w1 where o1: "CheckFileOwner e u k w = (b, w1)" by fastforce
  note d1 = CheckFileOwner_same [OF o1]
  obtain y w2 where o2: "retire_existing e u k w1 = (y, w2)" by fastforce
  obtain s w3 where o3: "new_share e rnd u k days code w2 = (s, w3)" by fastforce
  obtain z w4 where o4: "create_share e s w3 = (z, w4)" by fastforce
  note all = assms [unfolded CreateShare_def] o1 o2 o3 o4
  show ?thesis
  proof (cases b)
    case False
    with all d1 show ?thesis by (intro unchanged) auto
  next
    case True
    show ?thesis
    proof (cases y)
      case (Inl err)
      with all True d1 show ?thesis by (intro retired [of err w1 w2]) auto
    next
      case (Inr v)
      show ?thesis
      proof (cases z)
        case (Inl err)
        with all True d1 \<open>y = Inr v\<close> new_share_same [OF o3] show ?thesis
          by (intro refused [of err w1 w2 w3 s]) auto
      next
        case (Inr s')
        with all True d1 \<open>y = Inr v\<close> show ?thesis by (intro created [of s' w1 w2 s w3 w4]) auto
      qed
    qed
  qed
qed


section \<open>A new link opens its file\<close>

lemma Emit_no_fault:
  assumes "fault e = (\<lambda>_. False)" and "u \<noteq> 0" and "a \<in> set validActions" and "Emit e u a k n w = (r, w')"
  shows "redis w' = redis w"
proof -
  have "\<exists>w2. GetPublisher e w1 = (Inr (), w2) \<and> redis w2 = redis w1" for w1
    using assms(1) by (auto simp: GetPublisher_def dial_publisher_def attempt_no_fault)
  then obtain gp where gp: "GetPublisher e w1 = (Inr (), gp w1)" "redis (gp w1) = redis w1" for w1 by metis
  have "\<exists>w2. PublishActivity e b w1 = (Inr (), w2) \<and> redis w2 = redis w1" for b w1
    using assms(1) by (simp add: PublishActivity_def publish_def attempt_no_fault)
  then obtain pa where pa: "PublishActivity e b w1 = (Inr (), pa b w1)" "redis (pa b w1) = redis w1" for b w1 by metis
  from assms(2-4) show ?thesis
    by (auto simp: Emit_def Publish_def GetToken_def timeNow_def Let_def gp pa split: if_splits)
qed

lemma retire_reads: "retire_existing e u k w = (r, w') \<Longrightarrow> reads w \<le> reads w'"
  by (auto simp: retire_existing_def newest_share_def query_row_def update_shares_def execute_def attempt_def
      timeNow_def Let_def split: prod.splits sum.splits if_splits option.splits)

lemma first_share_created:
  assumes "fault e = (\<lambda>_. False)" and "file_share_unique (collate e) (srows w)" and "s \<in> set (srows w)"
    and "fs_live s" and "fs_Status s = 0"
  shows "\<exists>w'. first_share e (\<lambda>r. collate e (fs_ShareID r) = collate e (fs_ShareID s) \<and> fs_Status r = 0) w = (Inr s, w')
    \<and> db w' = db w \<and> reads w' = reads w"
proof -
  let ?p = "\<lambda>r. fs_live r \<and> collate e (fs_ShareID r) = collate e (fs_ShareID s) \<and> fs_Status r = 0"
  have "inj_on (collate e \<circ> fs_ShareID) (set (srows w))"
    using assms(2) by (simp add: file_share_unique_def distinct_map)
  then have u: "r = s" if "r \<in> set (srows w)" "?p r" for r
    using that assms(3) unfolding inj_on_def comp_def by blast
  have "first_row fs_ID ?p (shares (db w)) \<noteq> None" using assms(3-5) by (auto simp: first_row_None)
  then obtain r where "first_row fs_ID ?p (shares (db w)) = Some r" by auto
  with u first_row_SomeD [OF this] have "first_row fs_ID ?p (shares (db w)) = Some s" by auto
  with assms(1) show ?thesis by (simp add: first_share_def query_row_no_fault)
qed

lemma new_share_reads: "new_share e rnd u k days code w = (s, w') \<Longrightarrow> reads w \<le> reads w'"
  by (auto simp: new_share_def GetToken_def GenExtractCode_def timeNow_def Let_def split: if_splits)

lemma create_share_reads: "create_share e s w = (y, w') \<Longrightarrow> reads w' = Suc (reads w)"
  by (auto simp: create_share_def execute_at_def timeNow_def execute_def attempt_def Let_def
      split: prod.splits if_splits)

text \<open>What is known of a link that has just been created.\<close>

lemma created_share:
  assumes "fault e = (\<lambda>_. False)" and "db_wf (collate e) (db w)" and "one_active (db w)" and "u \<noteq> 0"
    and "CreateShare e rnd u k days code w = (Inr s, w')"
  obtains i j where "reads w \<le> i" "i \<le> j" "s \<in> set (srows w')" "file_share_unique (collate e) (srows w')"
    "fs_live s" "fs_Status s = 0" "fs_ExpireAt s = (if 0 < days then Some (clock e i + expiry_of days) else None)"
    "\<not> 0 < days \<longrightarrow> redis w' = redis w"
    "0 < days \<longrightarrow> map_of (redis w') (share_key (fs_ShareID s)) =
       Some (RShare s, expiry (clock e (Suc j)) (clock e i + expiry_of days - clock e j))"
  using assms(5)
proof (cases rule: CreateShare_cases)
  case (created w1 w2 s0 w3 s' w4)
  then have s': "s' = s" by simp
  note n = new_share_same [OF created(6)]
  have r2: "redis w2 = redis w" "db_wf (collate e) (db w2)"
    using retire_existing_retires [OF assms(1) _ _ created(5)] created(3,4) assms(2,3) by simp_all
  from create_share_InrD [OF created(7) [unfolded s']] obtain t where
    s: "s = fs_set (next_key (shares (db w3))) (s0\<lparr>fs_CreatedAt := t\<rparr>)"
    and d4: "srows w4 = srows w3 @ [s]" and v4: "db_valid (collate e) (db w4)" by (auto simp: insert_row_def)
  have e4: "redis w4 = redis w" using create_share_frame [OF created(7)] n r2 by simp
  obtain y where em: "Emit e u ActionShare k 0 (cache_share e s w4) = (y, w')"
    using created(8) s' by (metis prod.collapse)
  have red: "redis w' = redis (cache_share e s w4)"
    by (rule Emit_no_fault [OF assms(1,4) _ em]) (simp add: validActions_def)
  have sh: "shares (db w') = shares (db w4)" using Emit_shares [OF em] by simp
  have rd: "reads w \<le> reads w2" "reads w2 \<le> reads w4"
    using retire_reads [OF created(5)] created(2) new_share_reads [OF created(6)] create_share_reads [OF created(7)]
    by simp_all
  have x: "fs_ExpireAt s = (if 0 < days then Some (clock e (reads w2) + expiry_of days) else None)"
    using n s by simp
  have "redis (cache_share e s w4) = AList.update (share_key (fs_ShareID s)) (RShare s, expiry (clock e (Suc (reads w4)))
      (clock e (reads w2) + expiry_of days - clock e (reads w4))) (redis w4)" if "0 < days"
    using x that assms(1) by (simp add: cache_share_def timeNow_def redis_set_def attempt_no_fault Let_def)
  then have m: "0 < days \<longrightarrow> map_of (redis w') (share_key (fs_ShareID s)) = Some (RShare s,
      expiry (clock e (Suc (reads w4))) (clock e (reads w2) + expiry_of days - clock e (reads w4)))"
    using red by (simp add: map_of_update)
  have "\<not> 0 < days \<longrightarrow> redis w' = redis w" using red e4 x by (simp add: cache_share_def)
  moreover have "s \<in> set (srows w')" "file_share_unique (collate e) (srows w')"
    using v4 sh d4 by (simp_all add: db_valid_def)
  moreover have "fs_live s" "fs_Status s = 0" using n s by simp_all
  ultimately show ?thesis using that [OF rd _ _ _ _ x _ m] by blast
qed simp_all


text \<open>For a number of days whose duration wraps around to a negative one the link never expires: its
  expiry lies in the past, so Redis keeps the copy without an expiry, and the copy is not checked
  against the time.\<close>
theorem CreateShare_overflow_never_expires:
  assumes "fault e = (\<lambda>_. False)" and "db_wf (collate e) (db w)" and "one_active (db w)" and "u \<noteq> 0"
    and "CreateShare e rnd u k days code w = (Inr s, w')" and "0 < days" and "expiry_of days < 0" and "mono (clock e)"
  shows "\<exists>i. fs_ExpireAt s = Some (clock e i + expiry_of days)
    \<and> (\<forall>w2. redis w2 = redis w' \<longrightarrow> fst (CheckShare e (fs_ShareID s) (fs_ExtractCode s) w2) = Inr s)"
  using assms(1-5)
proof (cases rule: created_share)
  case (1 i j)
  have "clock e i \<le> clock e j" by (rule monoD [OF assms(8)]) (rule 1(2))
  with 1(9) assms(6,7) have m: "map_of (redis w') (share_key (fs_ShareID s)) = Some (RShare s, None)"
    by (simp add: expiry_def)
  have "fst (CheckShare e (fs_ShareID s) (fs_ExtractCode s) w2) = Inr s" if "redis w2 = redis w'" for w2
  proof -
    have "redis_now e w2 (share_key (fs_ShareID s)) = Some (RShare s)" using m that by (simp add: redis_now_def)
    with assms(1) show ?thesis by (simp add: CheckShare_def redis_get_def attempt_no_fault check_code_def)
  qed
  with 1(7) assms(6) show ?thesis by auto
qed

text \<open>The first number of days for which the duration is not what was asked for.\<close>

lemma expiry_of_exact: "0 \<le> days \<Longrightarrow> days \<le> 106751 \<Longrightarrow> expiry_of days = days * (24 * 60 * 60 * 1000000000)"
  by (simp add: expiry_of_def wrap64_def)

lemma expiry_of_wraps: "expiry_of 106752 < 0"
  by (simp add: expiry_of_def wrap64_def)

section \<open>Runs\<close>

text \<open>A clock that stands still, and a link for file 3 with a code, for a week or for 300 years.\<close>

definition env6 :: env where
  "env6 = env0\<lparr>clock := \<lambda>_. 0\<rparr>"

definition shared6 :: "int \<Rightarrow> file_share result \<times> world" where
  "shared6 days = CreateShare env6 (\<lambda>n. Some n) 1 3 days True world1"

lemma env6: "fault env6 = (\<lambda>_. False)" "mono (clock env6)" "db_wf (collate env6) (db world1)" "one_active (db world1)"
  "redis world1 = []" "clock env6 n = 0"
  using world1_sound by (simp_all add: env6_def env0_def mono_def sound_def one_active_def world1_defs)

lemma shared6_ok: "case shared6 7 of (Inr s, _) \<Rightarrow> True | _ \<Rightarrow> False" "case shared6 106752 of (Inr s, _) \<Rightarrow> True | _ \<Rightarrow> False"
  by code_simp+



theorem CreateShare_overflow_never_expires_witness:
  "\<exists>s w'. shared6 106752 = (Inr s, w') \<and> fst (CheckShare env6 (fs_ShareID s) (fs_ExtractCode s) w') = Inr s"
proof -
  obtain s w' where c: "CreateShare env6 (\<lambda>n. Some n) 1 3 106752 True world1 = (Inr s, w')"
    using shared6_ok(2) by (auto simp: shared6_def split: prod.splits sum.splits)
  from CreateShare_overflow_never_expires [OF env6(1,3,4) _ c _ expiry_of_wraps env6(2)] c show ?thesis
    by (auto simp: shared6_def)
qed

theorem CheckShare_sound_witness:
  "\<exists>s w' w2. shared6 7 = (Inr s, w') \<and> CheckShare env6 (fs_ShareID s) (fs_ExtractCode s) w' = (Inr s, w2)
    \<and> db w2 = db w'"
proof -
  have "case shared6 7 of (Inr s, w') \<Rightarrow> fst (CheckShare env6 (fs_ShareID s) (fs_ExtractCode s) w') = Inr s
    | _ \<Rightarrow> False" by code_simp
  then obtain s w' where "shared6 7 = (Inr s, w')" "fst (CheckShare env6 (fs_ShareID s) (fs_ExtractCode s) w') = Inr s"
    by (auto split: prod.splits sum.splits)
  moreover from this(2) obtain w2 where c: "CheckShare env6 (fs_ShareID s) (fs_ExtractCode s) w' = (Inr s, w2)"
    by (metis prod.collapse)
  ultimately show ?thesis using CheckShare_sound [OF c] by blast
qed

theorem expired_share_refused_witness:
  "fst (CheckShare env6 ''x'' ''y'' (handleExpiredKey env6 (share_key ''x'') world1)) =
    Inl (Errorf ''share not found or expired'')"
  using expired_share_refused [OF env6(1,3), of "''x''"] env6(5) by simp

end
