(* ===== verification/ShareAccess.thy ===== *)
theory ShareAccess
  imports Shares "HOL-Library.Multiset"
begin

text \<open>
  Downloads through a share link (\<open>src/internal/handler/share_file.go\<close>), the log of accesses and its
  statistics (\<open>src/internal/service/share_access.go\<close>, \<open>src/internal/handler/share_analytics.go\<close>).
\<close>

section \<open>The log\<close>

record share_access_meta =
  sm_VisitorIP :: string
  sm_UserAgent :: string
  sm_Referer :: string
  sm_Source :: string
  sm_AccessedAt :: "int option"   \<comment> \<open>the zero time is \<open>None\<close>\<close>

definition detectAccessSource :: "net \<Rightarrow> string \<Rightarrow> string" where
  "detectAccessSource nt referer =
     (let ref = TrimSpace referer in
      if ref = [] then ''direct''
      else (case parseURL nt ref of
              None \<Rightarrow> ''unknown''
            | Some parsed \<Rightarrow>
                let host = ToLower (unicodeLower nt) (TrimSpace (url_Hostname parsed)) in
                if host = [] then ''unknown'' else TrimPrefix host ''www.''))"

definition create_log :: "env \<Rightarrow> share_access_log \<Rightarrow> unit step" where
  "create_log e r = execute_at e (\<lambda>t d. ((), d\<lparr>accessLogs := insert_row sl_set (r\<lparr>sl_CreatedAt := t\<rparr>) (accessLogs d)\<rparr>))"

text \<open>Without a share there is nothing to log.\<close>

definition LogShareAccess :: "net \<Rightarrow> env \<Rightarrow> file_share option \<Rightarrow> share_access_meta \<Rightarrow> unit step" where
  "LogShareAccess nt e share meta' w =
     (case share of
        None \<Rightarrow> (Inr (), w)
      | Some share \<Rightarrow>
          (let source = TrimSpace (sm_Source meta');
               source = (if source = [] then detectAccessSource nt (sm_Referer meta') else source);
               (accessedAt, w) = (case sm_AccessedAt meta' of None \<Rightarrow> timeNow e w | Some t \<Rightarrow> (t, w))
           in create_log e \<lparr>sl_ID = 0, sl_OwnerUserID = fs_UserID share, sl_FileID = fs_FileID share,
                sl_ShareID = fs_ShareID share, sl_VisitorIP = TrimSpace (sm_VisitorIP meta'), sl_Source = source,
                sl_Referer = TrimSpace (sm_Referer meta'), sl_UserAgent = TrimSpace (sm_UserAgent meta'),
                sl_AccessedAt = accessedAt, sl_CreatedAt = 0\<rparr> w))"

record share_access_log_item =
  li_ID :: nat
  li_ShareID :: string
  li_FileID :: nat
  li_FileName :: string
  li_VisitorIP :: string
  li_Source :: string
  li_Referer :: string
  li_AccessedAt :: int

text \<open>\<open>LEFT JOIN user_file\<close> with \<open>COALESCE(f.name, '[deleted]')\<close>: rows in the recycle bin still count.\<close>

definition joined_name :: "database \<Rightarrow> nat \<Rightarrow> string option" where
  "joined_name d k = map_option uf_Name (find (\<lambda>f. uf_ID f = k) (rows (files d)))"

definition shown_name :: "string option \<Rightarrow> string" where
  "shown_name n = (case n of None \<Rightarrow> ''[deleted]'' | Some s \<Rightarrow> s)"

definition log_item :: "database \<Rightarrow> share_access_log \<Rightarrow> share_access_log_item" where
  "log_item d l = \<lparr>li_ID = sl_ID l, li_ShareID = sl_ShareID l, li_FileID = sl_FileID l,
     li_FileName = shown_name (joined_name d (sl_FileID l)), li_VisitorIP = sl_VisitorIP l,
     li_Source = sl_Source l, li_Referer = sl_Referer l, li_AccessedAt = sl_AccessedAt l\<rparr>"

definition clamp :: "int \<Rightarrow> int \<Rightarrow> int \<Rightarrow> int" where
  "clamp default' most n = (let n = (if n \<le> 0 then default' else n) in if most < n then most else n)"

definition ListShareAccessLogs :: "env \<Rightarrow> nat \<Rightarrow> string \<Rightarrow> int \<Rightarrow> share_access_log_item list step" where
  "ListShareAccessLogs e ownerUserID shareID limit = query e (\<lambda>d.
     let limit = clamp 50 300 limit; shareID = TrimSpace shareID in
     map (log_item d) (take (nat limit) (sort_key (\<lambda>l. - sl_AccessedAt l)
       (filter (\<lambda>l. sl_OwnerUserID l = ownerUserID
            \<and> (shareID = [] \<or> collate e (sl_ShareID l) = collate e shareID)) (rows (accessLogs d))))))"

section \<open>Statistics\<close>

text \<open>\<open>GROUP BY\<close>: a row of every group with the number of its rows, in the order of the groups' first rows.\<close>

function group_rows :: "('a \<Rightarrow> 'k) \<Rightarrow> 'a list \<Rightarrow> ('a \<times> int) list" where
  "group_rows k [] = []"
| "group_rows k (x # xs) =
     (x, int (length (filter (\<lambda>y. k y = k x) (x # xs)))) # group_rows k (filter (\<lambda>y. k y \<noteq> k x) xs)"
  by pat_completeness auto
termination
  by (relation "measure (length \<circ> snd)") (auto simp: le_imp_less_Suc)

record share_access_stats =
  st_Days :: int
  st_TotalVisits :: int
  st_UniqueIPs :: int
  st_BySource :: "(string \<times> int) list"
  st_Daily :: "(string \<times> int) list"
  st_TopShares :: "(string \<times> nat \<times> string \<times> int) list"

definition count_down :: "('a \<times> int) list \<Rightarrow> ('a \<times> int) list" where
  "count_down = sort_key (\<lambda>(_, n). - n)"

definition visits :: "env \<Rightarrow> nat \<Rightarrow> int \<Rightarrow> database \<Rightarrow> share_access_log list" where
  "visits e ownerUserID start d =
     filter (\<lambda>l. sl_OwnerUserID l = ownerUserID \<and> start \<le> dayOf e (sl_AccessedAt l)) (rows (accessLogs d))"

definition by_source :: "env \<Rightarrow> share_access_log list \<Rightarrow> (string \<times> int) list" where
  "by_source e ls = map (\<lambda>(l, n). (sl_Source l, n)) (count_down (group_rows (\<lambda>l. collate e (sl_Source l)) ls))"

definition by_day :: "env \<Rightarrow> share_access_log list \<Rightarrow> (string \<times> int) list" where
  "by_day e ls = map (\<lambda>(l, n). (dateColumn e (dayOf e (sl_AccessedAt l)), n))
     (sort_key (\<lambda>(l, _). dayOf e (sl_AccessedAt l)) (group_rows (\<lambda>l. dayOf e (sl_AccessedAt l)) ls))"

definition top_shares :: "env \<Rightarrow> database \<Rightarrow> share_access_log list \<Rightarrow> (string \<times> nat \<times> string \<times> int) list" where
  "top_shares e d ls = map (\<lambda>(l, n). (sl_ShareID l, sl_FileID l, shown_name (joined_name d (sl_FileID l)), n))
     (take 10 (count_down (group_rows (\<lambda>l. (collate e (sl_ShareID l), sl_FileID l,
        map_option (collate e) (joined_name d (sl_FileID l)))) ls)))"

text \<open>A day is shown from midnight on; the five statements are issued one after the other.\<close>

definition GetShareAccessStats :: "env \<Rightarrow> nat \<Rightarrow> int \<Rightarrow> share_access_stats step" where
  "GetShareAccessStats e ownerUserID days w =
     (let days = clamp 7 180 days; (now, w) = timeNow e w; start = dayOf e now - (days - 1);
          vs = visits e ownerUserID start
      in case query e (\<lambda>d. int (length (vs d))) w of (Inl err, w) \<Rightarrow> (Inl err, w) | (Inr visited, w) \<Rightarrow>
     (case query e (\<lambda>d. int (length (group_rows (\<lambda>l. collate e (sl_VisitorIP l)) (vs d)))) w of
        (Inl err, w) \<Rightarrow> (Inl err, w) | (Inr ips, w) \<Rightarrow>
     (case query e (\<lambda>d. by_source e (vs d)) w of (Inl err, w) \<Rightarrow> (Inl err, w) | (Inr sources, w) \<Rightarrow>
     (case query e (\<lambda>d. by_day e (vs d)) w of (Inl err, w) \<Rightarrow> (Inl err, w) | (Inr daily', w) \<Rightarrow>
     (case query e (\<lambda>d. top_shares e d (vs d)) w of (Inl err, w) \<Rightarrow> (Inl err, w) | (Inr top', w) \<Rightarrow>
        (Inr \<lparr>st_Days = days, st_TotalVisits = visited, st_UniqueIPs = ips, st_BySource = sources,
           st_Daily = daily', st_TopShares = top'\<rparr>, w))))))"

section \<open>Downloading through a link\<close>

text \<open>The code comes with the query or with the form; the visitor is an address, an agent and a referer.\<close>

definition ShareDownload ::
  "net \<Rightarrow> env \<Rightarrow> string \<Rightarrow> string \<Rightarrow> string \<Rightarrow> string \<times> string \<times> string \<Rightarrow> world
    \<Rightarrow> (nat + string \<times> string \<times> string) \<times> world" where
  "ShareDownload nt e shareID queryCode formCode visitor w =
     (let extractCode = TrimSpace queryCode;
          extractCode = (if extractCode = [] then TrimSpace formCode else extractCode)
      in case CheckShare e shareID extractCode w of
        (Inl _, w) \<Rightarrow> (Inl 403, w)
      | (Inr share, w) \<Rightarrow>
     (case GetUserFileById e (fs_FileID share) w of
        (Inl _, w) \<Rightarrow> (Inl 404, w)
      | (Inr userFile, w) \<Rightarrow>
     (case uf_ObjectID userFile of
        None \<Rightarrow> (Inl 404, w)
      | Some k \<Rightarrow>
     (case GetFileObjectById e k w of
        (Inl _, w) \<Rightarrow> (Inl 404, w)
      | (Inr fileObject, w) \<Rightarrow>
     (case MinioDownloadObject e (fo_ObjectName fileObject) w of
        (Inl _, w) \<Rightarrow> (Inl 500, w)
      | (Inr content, w) \<Rightarrow>
          (let safeName = SanitizeHeaderFilename (uf_Name userFile);
               contentType = GetContentBook (unicodeLower nt) (uf_Name userFile);
               contentType = (if contentType = [] then ''application/octet-stream'' else contentType);
               (ip, agent, referer) = visitor;
               w = snd (LogShareAccess nt e (Some share) \<lparr>sm_VisitorIP = ip, sm_UserAgent = agent,
                 sm_Referer = referer, sm_Source = '''', sm_AccessedAt = None\<rparr> w);
               w = snd (Emit e (fs_UserID share) ActionDownload (fs_FileID share) (int (length content)) w)
           in (Inr (safeName, contentType, content), w)))))))"

section \<open>What a visitor gets\<close>


section \<open>Logs and statistics\<close>

text \<open>An owner sees the accesses to their own links only, at most 300 of them, the newest first.\<close>
theorem ListShareAccessLogs_own:
  assumes "ListShareAccessLogs e u shareID limit w = (Inr items, w')"
  shows "length items \<le> 300 \<and> sorted (map (\<lambda>i. - li_AccessedAt i) items)
    \<and> (\<forall>i\<in>set items. \<exists>l\<in>set (rows (accessLogs (db w))). i = log_item (db w) l \<and> sl_OwnerUserID l = u)"
proof -
  let ?ls = "filter (\<lambda>l. sl_OwnerUserID l = u \<and> (TrimSpace shareID = [] \<or> collate e (sl_ShareID l) = collate e (TrimSpace shareID)))
      (rows (accessLogs (db w)))"
  have items: "items = map (log_item (db w)) (take (nat (clamp 50 300 limit)) (sort_key (\<lambda>l. - sl_AccessedAt l) ?ls))"
    using queryD [OF assms [unfolded ListShareAccessLogs_def]] by (auto simp: Let_def)
  have "nat (clamp 50 300 limit) \<le> 300" by (simp add: clamp_def Let_def nat_le_iff)
  then have "length items \<le> 300" by (simp add: items)
  moreover have "map (\<lambda>i. - li_AccessedAt i) items
      = take (nat (clamp 50 300 limit)) (map (\<lambda>l. - sl_AccessedAt l) (sort_key (\<lambda>l. - sl_AccessedAt l) ?ls))"
    by (simp add: items log_item_def take_map)
  then have "sorted (map (\<lambda>i. - li_AccessedAt i) items)" by (simp add: sorted_wrt_take)
  moreover have "\<exists>l\<in>set (rows (accessLogs (db w))). i = log_item (db w) l \<and> sl_OwnerUserID l = u"
    if "i \<in> set items" for i
    using that unfolding items by (auto dest!: in_set_takeD)
  ultimately show ?thesis by blast
qed

lemma group_rows_sum: "sum_list (map snd (group_rows k xs)) = int (length xs)"
proof (induction k xs rule: group_rows.induct)
  case (2 k x xs)
  have "length (filter (\<lambda>y. k y = k x) xs) + length (filter (\<lambda>y. k y \<noteq> k x) xs) = length xs"
    using sum_length_filter_compl [of "\<lambda>y. k y = k x" xs] by simp
  with 2 show ?case by simp
qed simp

lemma group_rows_length: "length (group_rows k xs) = card (k ` set xs)"
proof (induction k xs rule: group_rows.induct)
  case (2 k x xs)
  have "k ` set (x # xs) = insert (k x) (k ` set (filter (\<lambda>y. k y \<noteq> k x) xs))" by auto
  moreover have "k x \<notin> k ` set (filter (\<lambda>y. k y \<noteq> k x) xs)" by auto
  ultimately have "card (k ` set (x # xs)) = Suc (card (k ` set (filter (\<lambda>y. k y \<noteq> k x) xs)))" by simp
  with 2 show ?case by (simp only: group_rows.simps list.size)
qed simp

lemma sum_list_cong_mset: "mset xs = mset ys \<Longrightarrow> sum_list xs = (sum_list ys :: int)"
  by (metis sum_mset_sum_list)

lemma count_down_sum: "sum_list (map snd (count_down xs)) = sum_list (map snd xs)"
  by (rule sum_list_cong_mset) (simp add: count_down_def)

text \<open>A query of a walk that succeeds saw the database as it still is.\<close>

lemma query_stepE:
  assumes "(case query e q w of (Inl err, w) \<Rightarrow> (Inl err, w) | (Inr x, w) \<Rightarrow> g x w) = (Inr r, w')"
  obtains w1 where "db w1 = db w" "g (q (db w)) w1 = (Inr r, w')"
proof -
  from assms have "g (q (db w)) (w\<lparr>requests := Suc (requests w)\<rparr>) = (Inr r, w')"
    by (auto simp: query_def attempt_def Let_def split: if_splits)
  with that [of "w\<lparr>requests := Suc (requests w)\<rparr>"] show thesis by simp
qed

text \<open>The statistics of an owner agree with each other: the visits per source and the visits per day add
  up to the total, the number of addresses is the number of different ones among the visits, and
  at most ten links are listed, by falling number of visits.\<close>
theorem GetShareAccessStats_consistent:
  assumes "GetShareAccessStats e u days w = (Inr st, w')"
  shows "sum_list (map snd (st_BySource st)) = st_TotalVisits st \<and> sum_list (map snd (st_Daily st)) = st_TotalVisits st
    \<and> st_UniqueIPs st = int (card ((\<lambda>l. collate e (sl_VisitorIP l)) ` set (visits e u (dayOf e (clock e (reads w)) - (st_Days st - 1)) (db w))))
    \<and> length (st_TopShares st) \<le> 10 \<and> sorted (map (\<lambda>(_, _, _, n). - n) (st_TopShares st)) \<and> 1 \<le> st_Days st \<and> st_Days st \<le> 180"
proof -
  let ?days = "clamp 7 180 days" and ?d = "db w"
  let ?vs = "visits e u (dayOf e (clock e (reads w)) - (?days - 1)) ?d"
  have st: "st = \<lparr>st_Days = ?days, st_TotalVisits = int (length ?vs),
      st_UniqueIPs = int (length (group_rows (\<lambda>l. collate e (sl_VisitorIP l)) ?vs)), st_BySource = by_source e ?vs,
      st_Daily = by_day e ?vs, st_TopShares = top_shares e ?d ?vs\<rparr>"
    using assms unfolding GetShareAccessStats_def Let_def timeNow_def prod.case
    by (elim query_stepE) simp
  have "map snd (by_source e ?vs) = map snd (count_down (group_rows (\<lambda>l. collate e (sl_Source l)) ?vs))"
    by (simp add: by_source_def case_prod_beta)
  then have a: "sum_list (map snd (by_source e ?vs)) = int (length ?vs)"
    by (simp add: count_down_sum group_rows_sum)
  let ?g = "group_rows (\<lambda>l. dayOf e (sl_AccessedAt l)) ?vs"
  have "mset (map snd (by_day e ?vs)) = mset (map snd ?g)"
    by (simp add: by_day_def case_prod_beta comp_def)
  then have b: "sum_list (map snd (by_day e ?vs)) = int (length ?vs)"
    by (simp add: sum_list_cong_mset [of _ "map snd ?g"] group_rows_sum)
  let ?t = "group_rows (\<lambda>l. (collate e (sl_ShareID l), sl_FileID l, map_option (collate e) (joined_name ?d (sl_FileID l)))) ?vs"
  have "map (\<lambda>(_, _, _, n). - n) (top_shares e ?d ?vs) = take 10 (map (\<lambda>(_, n). - n) (count_down ?t))"
    by (simp add: top_shares_def case_prod_beta take_map comp_def)
  then have c: "sorted (map (\<lambda>(_, _, _, n). - n) (top_shares e ?d ?vs))"
    by (simp add: count_down_def sorted_wrt_take)
  have d: "length (top_shares e ?d ?vs) \<le> 10" by (simp add: top_shares_def)
  show ?thesis unfolding st using a b c d by (simp add: group_rows_length clamp_def Let_def)
qed


section \<open>Runs\<close>

text \<open>A link without a code for file 3, and two visits.\<close>

definition world8 :: world where
  "world8 = world1\<lparr>db := (db world1)\<lparr>
     shares := \<lparr>rows = [\<lparr>fs_ID = 1, fs_ShareID = ''s'', fs_FileID = 3, fs_UserID = 1, fs_NeedCode = False,
       fs_ExtractCode = '''', fs_ExpireAt = None, fs_Status = 0, fs_CreatedAt = 0, fs_DeletedAt = None\<rparr>], next_key = 2\<rparr>,
     accessLogs := \<lparr>rows = [\<lparr>sl_ID = 1, sl_OwnerUserID = 1, sl_FileID = 3, sl_ShareID = ''s'', sl_VisitorIP = ''i'',
       sl_Source = ''direct'', sl_Referer = '''', sl_UserAgent = '''', sl_AccessedAt = 0, sl_CreatedAt = 0\<rparr>,
       \<lparr>sl_ID = 2, sl_OwnerUserID = 1, sl_FileID = 3, sl_ShareID = ''s'', sl_VisitorIP = ''i'',
       sl_Source = ''h'', sl_Referer = '''', sl_UserAgent = '''', sl_AccessedAt = 1, sl_CreatedAt = 1\<rparr>], next_key = 3\<rparr>\<rparr>\<rparr>"

lemma download8: "\<exists>n c w'. ShareDownload net0 env6 ''s'' '''' '''' (''i'', ''a'', '''') world8 = (Inr (n, c, ''abc''), w')"
proof -
  have f: "fault env6 = (\<lambda>_. False)" "collate env6 = id" "AppConfig env6 = config0" by (simp_all add: env6_def)
  have "\<exists>s w1. CheckShare env6 ''s'' '''' world8 = (Inr s, w1) \<and> fs_FileID s = 3
      \<and> db w1 = db world8 \<and> store w1 = store world8 \<and> redis w1 = []"
    by (simp add: CheckShare_def redis_get_def redis_now_def check_stored_share_def first_share_def query_row_no_fault
        attempt_no_fault f first_row_def check_code_def world8_def world1_defs)
  then obtain s w1 where c: "CheckShare env6 ''s'' '''' world8 = (Inr s, w1)" "fs_FileID s = 3" "db w1 = db world8"
    "store w1 = store world8" "redis w1 = []" by blast
  have "\<exists>w2. GetUserFileById env6 3 w1 = (Inr file3, w2) \<and> db w2 = db world8 \<and> store w2 = store world8 \<and> redis w2 = []"
    using c by (simp add: GetUserFileById_def first_file_def query_row_no_fault f first_row_def world8_def world1_defs)
  then obtain w2 where g: "GetUserFileById env6 3 w1 = (Inr file3, w2)" "db w2 = db world8" "store w2 = store world8"
    "redis w2 = []" by blast
  have "\<exists>w3. GetFileObjectById env6 1 w2 = (Inr object1, w3) \<and> store w3 = store world8"
    using g by (simp add: GetFileObjectById_def GetFileObjectFromCache_def redis_get_def redis_now_def attempt_no_fault f
        first_object_def query_row_no_fault first_row_def world8_def world1_defs)
  then obtain w3 where o: "GetFileObjectById env6 1 w2 = (Inr object1, w3)" "store w3 = store world8" by blast
  have "\<exists>w4. MinioDownloadObject env6 (fo_ObjectName object1) w3 = (Inr ''abc'', w4)"
    using o by (simp add: MinioDownloadObject_def GetObject_def attempt_no_fault f obj_get_def world8_def world1_defs config0_def)
  then obtain w4 where m: "MinioDownloadObject env6 (fo_ObjectName object1) w3 = (Inr ''abc'', w4)" by blast
  have k: "uf_ObjectID file3 = Some 1" by (simp add: file3_def new_file_def)
  have t: "TrimSpace '''' = ''''" by (rule TrimSpace_visible) simp
  show ?thesis by (simp add: ShareDownload_def Let_def t c g o [simplified] m k)
qed


theorem ListShareAccessLogs_own_witness:
  "\<exists>items w'. ListShareAccessLogs env6 1 '''' 0 world8 = (Inr items, w') \<and> length items = 2
    \<and> sorted (map (\<lambda>i. - li_AccessedAt i) items)"
proof -
  have "case ListShareAccessLogs env6 1 '''' 0 world8 of (Inr items, _) \<Rightarrow> length items = 2 | _ \<Rightarrow> False"
    by code_simp
  then obtain items w' where l: "ListShareAccessLogs env6 1 '''' 0 world8 = (Inr items, w')" "length items = 2"
    by (auto split: prod.splits sum.splits)
  with ListShareAccessLogs_own [OF l(1)] show ?thesis by blast
qed

theorem GetShareAccessStats_consistent_witness:
  "\<exists>st w'. GetShareAccessStats env6 1 0 world8 = (Inr st, w') \<and> st_TotalVisits st = 2
    \<and> sum_list (map snd (st_BySource st)) = 2"
proof -
  have "case GetShareAccessStats env6 1 0 world8 of (Inr st, _) \<Rightarrow> st_TotalVisits st = 2 | _ \<Rightarrow> False"
    by code_simp
  then obtain st w' where l: "GetShareAccessStats env6 1 0 world8 = (Inr st, w')" "st_TotalVisits st = 2"
    by (auto split: prod.splits sum.splits)
  with GetShareAccessStats_consistent [OF l(1)] show ?thesis by auto
qed

end
