(* ===== verification/Library.thy ===== *)
theory Library
  imports ShareAccess
begin

text \<open>
  Favorites, recent accesses and common folders (\<open>src/internal/service/user_library.go\<close>). Both tables have
  one row for a user and a file, and are written by an insert that falls back on an update:
  the interface \<open>upsert_table\<close> says what the clients rely on.
\<close>

section \<open>Tables written by an upsert\<close>

locale upsert_table =
  fixes uk :: "'r \<Rightarrow> 'k"
    and rws :: "'t \<Rightarrow> 'r list"
    and put :: "'r \<Rightarrow> 't \<Rightarrow> 't"
    and merge :: "'r \<Rightarrow> 'r \<Rightarrow> 'r"
    and fresh_row :: "'r \<Rightarrow> 't \<Rightarrow> 'r"
  assumes uk_merge: "uk (merge new old) = uk old"
    and uk_fresh: "uk (fresh_row r t) = uk r"
    and put_new: "(\<forall>x\<in>set (rws t). uk x \<noteq> uk r) \<Longrightarrow> rws (put r t) = rws t @ [fresh_row r t]"
    and put_old: "x \<in> set (rws t) \<Longrightarrow> uk x = uk r \<Longrightarrow> rws (put r t) = update_where (\<lambda>x. uk x = uk r) (merge r) (rws t)"
begin

lemma put_distinct: "distinct (map uk (rws t)) \<Longrightarrow> distinct (map uk (rws (put r t)))"
proof (cases "\<forall>x\<in>set (rws t). uk x \<noteq> uk r")
  case True
  assume "distinct (map uk (rws t))"
  with True show ?thesis by (auto simp: put_new uk_fresh)
next
  case False
  assume d: "distinct (map uk (rws t))"
  from False obtain x where x: "x \<in> set (rws t)" "uk x = uk r" by blast
  have "map uk (rws (put r t)) = map uk (rws t)" by (simp add: put_old [OF x] uk_merge)
  with d show ?thesis by simp
qed

text \<open>Afterwards the key has a row, and the rows of the other keys are the ones before.\<close>

lemma put_present: "\<exists>x\<in>set (rws (put r t)). uk x = uk r"
proof (cases "\<forall>x\<in>set (rws t). uk x \<noteq> uk r")
  case True
  then show ?thesis by (simp add: put_new uk_fresh)
next
  case False
  then obtain x where x: "x \<in> set (rws t)" "uk x = uk r" by blast
  then have "merge r x \<in> set (rws (put r t))" by (auto simp: put_old [OF x])
  moreover have "uk (merge r x) = uk r" using x by (simp add: uk_merge)
  ultimately show ?thesis by blast
qed

lemma put_others: "filter (\<lambda>x. uk x \<noteq> uk r) (rws (put r t)) = filter (\<lambda>x. uk x \<noteq> uk r) (rws t)"
proof (cases "\<forall>x\<in>set (rws t). uk x \<noteq> uk r")
  case True
  then show ?thesis by (simp add: put_new uk_fresh)
next
  case False
  then obtain x where x: "x \<in> set (rws t)" "uk x = uk r" by blast
  have "filter (\<lambda>x. uk x \<noteq> uk r) (update_where (\<lambda>x. uk x = uk r) (merge r) xs) = filter (\<lambda>x. uk x \<noteq> uk r) xs" for xs
    by (induction xs) (auto simp: uk_merge)
  then show ?thesis by (simp only: put_old [OF x])
qed

lemma put_keys: "uk ` set (rws (put r t)) = insert (uk r) (uk ` set (rws t))"
proof (cases "\<forall>x\<in>set (rws t). uk x \<noteq> uk r")
  case True
  then show ?thesis by (simp add: put_new uk_fresh)
next
  case False
  then obtain x where x: "x \<in> set (rws t)" "uk x = uk r" by blast
  then have "uk r \<in> uk ` set (rws t)" by (metis imageI)
  moreover have "map uk (update_where (\<lambda>x. uk x = uk r) (merge r) (rws t)) = map uk (rws t)" by (simp add: uk_merge)
  then have "uk ` set (update_where (\<lambda>x. uk x = uk r) (merge r) (rws t)) = uk ` set (rws t)" by (metis set_map)
  ultimately show ?thesis by (simp only: put_old [OF x] insert_absorb)
qed

end

section \<open>The tables\<close>

definition fv_key :: "user_favorite \<Rightarrow> nat \<times> nat" where
  "fv_key r = (fv_UserID r, fv_FileID r)"

definition ur_key :: "user_recent \<Rightarrow> nat \<times> nat" where
  "ur_key r = (ur_UserID r, ur_FileID r)"

text \<open>\<open>OnConflict{DoNothing: true}\<close>.\<close>

definition put_favorite :: "user_favorite \<Rightarrow> user_favorite table \<Rightarrow> user_favorite table" where
  "put_favorite r t = (if list_ex (\<lambda>x. fv_key x = fv_key r) (rows t) then t else insert_row fv_set r t)"

text \<open>\<open>ON DUPLICATE KEY UPDATE source, last_access_at, access_count = access_count + 1\<close>.\<close>

definition access_again :: "user_recent \<Rightarrow> user_recent \<Rightarrow> user_recent" where
  "access_again new old = old\<lparr>ur_Source := ur_Source new, ur_LastAccessAt := ur_LastAccessAt new,
     ur_AccessCount := ur_AccessCount old + 1\<rparr>"

definition put_recent :: "user_recent \<Rightarrow> user_recent table \<Rightarrow> user_recent table" where
  "put_recent r t = (if list_ex (\<lambda>x. ur_key x = ur_key r) (rows t)
     then update_rows (\<lambda>x. ur_key x = ur_key r) (access_again r) t else insert_row ur_set r t)"

interpretation fv: upsert_table fv_key rows put_favorite "\<lambda>_ x. x" "\<lambda>r t. fv_set (next_key t) r"
  by unfold_locales (auto simp: put_favorite_def list_ex_iff table_ops fv_key_def)

interpretation ur: upsert_table ur_key rows put_recent access_again "\<lambda>r t. ur_set (next_key t) r"
  by unfold_locales (auto simp: put_recent_def list_ex_iff table_ops ur_key_def access_again_def)

interpretation fc: upsert_table "\<lambda>c. (ck (fc_UploadID c), fc_ChunkIndex c)" rows "\<lambda>c. upsert_chunk_row ck c t"
  "\<lambda>c r. r\<lparr>fc_ChunkSize := fc_ChunkSize c, fc_ChunkPath := fc_ChunkPath c, fc_Status := fc_Status c, fc_UpdatedAt := t\<rparr>"
  "\<lambda>c tbl. fc_set (next_key tbl) (c\<lparr>fc_CreatedAt := t, fc_UpdatedAt := t\<rparr>)"
  for ck t
  by unfold_locales (auto simp: upsert_chunk_row_def list_ex_iff table_ops Let_def)

section \<open>Favorites\<close>

definition AddFavorite :: "env \<Rightarrow> nat \<Rightarrow> nat \<Rightarrow> unit step" where
  "AddFavorite e userID fileID w =
     (case CheckFileOwner e userID fileID w of
        (owner, w) \<Rightarrow> if \<not> owner then (Inl RecordNotFound, w)
          else execute_at e (\<lambda>t d. ((), d\<lparr>favorites := put_favorite
            \<lparr>fv_ID = 0, fv_UserID = userID, fv_FileID = fileID, fv_CreatedAt = t\<rparr> (favorites d)\<rparr>)) w)"

definition RemoveFavorite :: "env \<Rightarrow> nat \<Rightarrow> nat \<Rightarrow> unit step" where
  "RemoveFavorite e userID fileID = execute e (\<lambda>d. ((), d\<lparr>favorites :=
     delete_rows (\<lambda>r. fv_UserID r = userID \<and> fv_FileID r = fileID) (favorites d)\<rparr>))"

record favorite_item =
  fi_FileID :: nat
  fi_Name :: string
  fi_IsDir :: bool
  fi_Size :: int
  fi_ParentID :: "nat option"
  fi_CreatedAt :: int
  fi_UpdatedAt :: int

text \<open>\<open>JOIN user_file f ON f.id = ...\<close> with \<open>f.is_deleted = 0\<close>.\<close>

definition joined :: "('r \<Rightarrow> nat) \<Rightarrow> 'r list \<Rightarrow> database \<Rightarrow> ('r \<times> user_file) list" where
  "joined k rs d = concat (map (\<lambda>r. map (Pair r) (filter (\<lambda>f. uf_ID f = k r \<and> \<not> uf_IsDeleted f) (rows (files d)))) rs)"

definition favorite_of :: "user_favorite \<times> user_file \<Rightarrow> favorite_item" where
  "favorite_of = (\<lambda>(r, f). \<lparr>fi_FileID = fv_FileID r, fi_Name = uf_Name f, fi_IsDir = uf_IsDir f, fi_Size = uf_Size f,
     fi_ParentID = uf_ParentID f, fi_CreatedAt = fv_CreatedAt r, fi_UpdatedAt = uf_UpdatedAt f\<rparr>)"

definition ListFavorites :: "env \<Rightarrow> nat \<Rightarrow> int \<Rightarrow> favorite_item list step" where
  "ListFavorites e userID limit = query e (\<lambda>d. map favorite_of (take (nat (clamp 50 200 limit))
     (sort_key (\<lambda>(r, _). - fv_CreatedAt r) (joined fv_FileID (filter (\<lambda>r. fv_UserID r = userID) (rows (favorites d))) d))))"

section \<open>Recent accesses\<close>

text \<open>Without a user, a file or the right to it nothing is recorded, and that is no error.\<close>

definition RecordRecentAccess :: "net \<Rightarrow> env \<Rightarrow> nat \<Rightarrow> nat \<Rightarrow> string \<Rightarrow> unit step" where
  "RecordRecentAccess nt e userID fileID source w =
     (if userID = 0 \<or> fileID = 0 then (Inr (), w) else
      case CheckFileOwner e userID fileID w of
        (owner, w) \<Rightarrow> if \<not> owner then (Inr (), w) else
          (let (now, w) = timeNow e w; src = normalizeRecentSource (unicodeLower nt) source
           in execute_at e (\<lambda>t d. ((), d\<lparr>recents := put_recent
             \<lparr>ur_ID = 0, ur_UserID = userID, ur_FileID = fileID, ur_Source = src, ur_AccessCount = 1,
              ur_LastAccessAt = now, ur_CreatedAt = t, ur_UpdatedAt = t\<rparr> (recents d)\<rparr>)) w))"

record recent_item =
  ri_FileID :: nat
  ri_Name :: string
  ri_IsDir :: bool
  ri_Size :: int
  ri_ParentID :: "nat option"
  ri_Source :: string
  ri_AccessCount :: int
  ri_LastAccessAt :: int

record common_dir_item =
  ci_FileID :: nat
  ci_Name :: string
  ci_ParentID :: "nat option"
  ci_AccessCount :: int
  ci_LastAccessAt :: int

definition recent_of :: "user_recent \<times> user_file \<Rightarrow> recent_item" where
  "recent_of = (\<lambda>(r, f). \<lparr>ri_FileID = ur_FileID r, ri_Name = uf_Name f, ri_IsDir = uf_IsDir f, ri_Size = uf_Size f,
     ri_ParentID = uf_ParentID f, ri_Source = ur_Source r, ri_AccessCount = ur_AccessCount r,
     ri_LastAccessAt = ur_LastAccessAt r\<rparr>)"

definition common_dir_of :: "user_recent \<times> user_file \<Rightarrow> common_dir_item" where
  "common_dir_of = (\<lambda>(r, f). \<lparr>ci_FileID = ur_FileID r, ci_Name = uf_Name f, ci_ParentID = uf_ParentID f,
     ci_AccessCount = ur_AccessCount r, ci_LastAccessAt = ur_LastAccessAt r\<rparr>)"

definition recents_of :: "nat \<Rightarrow> database \<Rightarrow> (user_recent \<times> user_file) list" where
  "recents_of userID d = joined ur_FileID (filter (\<lambda>r. ur_UserID r = userID) (rows (recents d))) d"

definition ListRecent :: "env \<Rightarrow> nat \<Rightarrow> int \<Rightarrow> recent_item list step" where
  "ListRecent e userID limit = query e (\<lambda>d. map recent_of (take (nat (clamp 50 200 limit))
     (sort_key (\<lambda>(r, _). - ur_LastAccessAt r) (recents_of userID d))))"

definition ListCommonDirs :: "env \<Rightarrow> nat \<Rightarrow> int \<Rightarrow> common_dir_item list step" where
  "ListCommonDirs e userID limit = query e (\<lambda>d. map common_dir_of (take (nat (clamp 20 100 limit))
     (sort_key (\<lambda>(r, _). - ur_AccessCount r) (sort_key (\<lambda>(r, _). - ur_LastAccessAt r)
       (filter (\<lambda>(_, f). uf_IsDir f) (recents_of userID d))))))"

section \<open>Only a user's own files are in their library\<close>

text \<open>The file of a row belongs to the user of the row, as long as there is one; keys are not used again.\<close>

definition entry_owned :: "database \<Rightarrow> nat \<times> nat \<Rightarrow> bool" where
  "entry_owned d = (\<lambda>(u, k). k < next_key (files d) \<and> (\<forall>f\<in>set (rows (files d)). uf_ID f = k \<longrightarrow> uf_UserID f = u))"

definition library_owned :: "database \<Rightarrow> bool" where
  "library_owned d \<longleftrightarrow> (\<forall>x\<in>fv_key ` set (rows (favorites d)). entry_owned d x)
     \<and> (\<forall>x\<in>ur_key ` set (rows (recents d)). entry_owned d x)"

lemma CheckFileOwner_owned:
  assumes "CheckFileOwner e u k w = (True, w')" and "db_wf (collate e) (db w)"
  shows "entry_owned (db w) (u, k)" "db w' = db w"
proof -
  obtain y w1 where c: "count_files e (\<lambda>r. uf_ID r = k \<and> uf_UserID r = u \<and> \<not> uf_IsDeleted r) w = (y, w1)" by fastforce
  with assms(1) obtain n where y: "y = Inr n" "0 < n" "w1 = w'" by (cases y) (auto simp: CheckFileOwner_def)
  with count_files_same [OF c] have d: "db w' = db w"
    and n: "filter (\<lambda>f. uf_live f \<and> uf_ID f = k \<and> uf_UserID f = u \<and> \<not> uf_IsDeleted f) (frows w) \<noteq> []" by simp_all
  from n obtain f where f: "f \<in> set (frows w)" "uf_ID f = k" "uf_UserID f = u" unfolding filter_empty_conv by blast
  with assms(2) have "k < next_key (files (db w))" by (auto simp: db_wf_def keys_wf_def uft.keys_ok_def)
  moreover have "uf_UserID g = u" if "g \<in> set (frows w)" "uf_ID g = k" for g
    using db_wf_file_key [OF assms(2) that(1) f(1)] f that by simp
  ultimately show "entry_owned (db w) (u, k)" by (simp add: entry_owned_def)
  show "db w' = db w" by (rule d)
qed

lemma entry_owned_cong: "files d' = files d \<Longrightarrow> entry_owned d' x = entry_owned d x"
  by (auto simp: entry_owned_def)

lemma library_owned_put:
  assumes "library_owned d"
  shows "entry_owned d (fv_key x) \<Longrightarrow> library_owned (d\<lparr>favorites := put_favorite x (favorites d)\<rparr>)"
    and "entry_owned d (ur_key y) \<Longrightarrow> library_owned (d\<lparr>recents := put_recent y (recents d)\<rparr>)"
  using assms fv.put_keys [of x "favorites d"] ur.put_keys [of y "recents d"]
  by (simp_all add: library_owned_def entry_owned_def split_beta del: ball_simps(9))

lemma AddFavorite_owned:
  assumes "db_wf (collate e) (db w)" and "library_owned (db w)" and "AddFavorite e u k w = (r, w')"
  shows "library_owned (db w')"
proof -
  obtain b w1 where c: "CheckFileOwner e u k w = (b, w1)" by fastforce
  show ?thesis
  proof (cases b)
    case False
    with c assms CheckFileOwner_same [OF c] show ?thesis by (auto simp: AddFavorite_def)
  next
    case True
    with c have "CheckFileOwner e u k w = (True, w1)" by simp
    note o = CheckFileOwner_owned [OF this assms(1)]
    show ?thesis
    proof (cases r)
      case Inl
      with True c o assms show ?thesis by (auto simp: AddFavorite_def dest!: execute_at_InlD)
    next
      case (Inr a)
      with True c assms(3) obtain t where "db w' = (db w1)\<lparr>favorites := put_favorite
          \<lparr>fv_ID = 0, fv_UserID = u, fv_FileID = k, fv_CreatedAt = t\<rparr> (favorites (db w1))\<rparr>"
        by (auto simp: AddFavorite_def dest!: execute_at_okD)
      with o assms(2) show ?thesis by (simp add: library_owned_put fv_key_def)
    qed
  qed
qed

lemma RecordRecentAccess_owned:
  assumes "db_wf (collate e) (db w)" and "library_owned (db w)" and "RecordRecentAccess nt e u k src w = (r, w')"
  shows "library_owned (db w')"
proof (cases "u = 0 \<or> k = 0")
  case True
  with assms show ?thesis by (auto simp: RecordRecentAccess_def)
next
  case nz: False
  obtain b w1 where c: "CheckFileOwner e u k w = (b, w1)" by fastforce
  show ?thesis
  proof (cases b)
    case False
    with nz c assms CheckFileOwner_same [OF c] show ?thesis by (auto simp: RecordRecentAccess_def)
  next
    case True
    with c have "CheckFileOwner e u k w = (True, w1)" by simp
    note o = CheckFileOwner_owned [OF this assms(1)]
    show ?thesis
    proof (cases r)
      case Inl
      with nz True c o assms show ?thesis
        by (auto simp: RecordRecentAccess_def timeNow_def Let_def dest!: execute_at_InlD)
    next
      case (Inr a)
      with nz True c assms(3) obtain s n t where "db w' = (db w1)\<lparr>recents := put_recent
          \<lparr>ur_ID = 0, ur_UserID = u, ur_FileID = k, ur_Source = s, ur_AccessCount = 1, ur_LastAccessAt = n,
            ur_CreatedAt = t, ur_UpdatedAt = t\<rparr> (recents (db w1))\<rparr>"
        by (auto simp: RecordRecentAccess_def timeNow_def Let_def dest!: execute_at_okD)
      with o assms(2) show ?thesis by (simp add: library_owned_put ur_key_def)
    qed
  qed
qed

lemma RemoveFavorite_owned:
  assumes "library_owned (db w)" and "RemoveFavorite e u k w = (r, w')"
  shows "library_owned (db w')"
proof (cases r)
  case Inl
  with assms show ?thesis by (auto simp: RemoveFavorite_def dest!: execute_InlD)
next
  case Inr
  with assms show ?thesis
    by (auto simp: RemoveFavorite_def library_owned_def table_ops entry_owned_cong [of "_\<lparr>favorites := _\<rparr>"]
        dest!: execute_okD)
qed

text \<open>C35: the operations of the library keep it to the user's own files: a favorite or a recent access is only
  ever recorded for a file of the user.\<close>
theorem library_stays_owned:
  assumes "db_wf (collate e) (db w)" and "library_owned (db w)"
    and "w' \<in> {snd (AddFavorite e u k w), snd (RemoveFavorite e u k w), snd (RecordRecentAccess nt e u k src w)}"
  shows "library_owned (db w')"
  using assms(3) AddFavorite_owned [OF assms(1,2)] RemoveFavorite_owned [OF assms(2)]
    RecordRecentAccess_owned [OF assms(1,2)]
  by (metis insertE prod.collapse singletonD)

lemma joinedD: "x \<in> set (joined k rs d) \<Longrightarrow>
    fst x \<in> set rs \<and> snd x \<in> set (rows (files d)) \<and> uf_ID (snd x) = k (fst x) \<and> \<not> uf_IsDeleted (snd x)"
  by (auto simp: joined_def)

lemma sorted_page: "(\<And>x. g (h x) = k x) \<Longrightarrow> sorted (map g (map h (take n (sort_key k xs))))"
proof -
  assume "\<And>x. g (h x) = k x"
  then have "map g (map h (take n (sort_key k xs))) = take n (map k (sort_key k xs))" by (simp add: take_map)
  then show ?thesis by (simp add: sorted_wrt_take)
qed

text \<open>A listing of the library shows files of the user only, none of them in the recycle bin; favorites come
  newest first and recent accesses latest first, at most 200 of them, and the common folders are
  folders, at most 100, by falling number of accesses.\<close>
theorem library_lists_own:
  assumes "library_owned (db w)" and "ListFavorites e u l1 w = (Inr fis, w1)" and "ListRecent e u l2 w = (Inr ris, w2)"
    and "ListCommonDirs e u l3 w = (Inr cis, w3)"
  shows "(\<forall>k\<in>fi_FileID ` set fis \<union> ri_FileID ` set ris \<union> ci_FileID ` set cis.
      \<exists>f\<in>set (frows w). uf_ID f = k \<and> uf_UserID f = u \<and> \<not> uf_IsDeleted f)
    \<and> length fis \<le> 200 \<and> length ris \<le> 200 \<and> length cis \<le> 100
    \<and> sorted (map (\<lambda>i. - fi_CreatedAt i) fis) \<and> sorted (map (\<lambda>i. - ri_LastAccessAt i) ris)
    \<and> sorted (map (\<lambda>i. - ci_AccessCount i) cis)"
proof -
  let ?fj = "joined fv_FileID (filter (\<lambda>r. fv_UserID r = u) (rows (favorites (db w)))) (db w)"
  let ?f = "take (nat (clamp 50 200 l1)) (sort_key (\<lambda>(r, _). - fv_CreatedAt r) ?fj)"
  let ?r = "take (nat (clamp 50 200 l2)) (sort_key (\<lambda>(r, _). - ur_LastAccessAt r) (recents_of u (db w)))"
  let ?c = "take (nat (clamp 20 100 l3)) (sort_key (\<lambda>(r, _). - ur_AccessCount r)
     (sort_key (\<lambda>(r, _). - ur_LastAccessAt r) (filter (\<lambda>(_, f). uf_IsDir f) (recents_of u (db w)))))"
  have fis: "fis = map favorite_of ?f" and ris: "ris = map recent_of ?r" and cis: "cis = map common_dir_of ?c"
    using queryD [OF assms(2) [unfolded ListFavorites_def]] queryD [OF assms(3) [unfolded ListRecent_def]]
      queryD [OF assms(4) [unfolded ListCommonDirs_def]] by simp_all
  let ?own = "\<lambda>k. \<exists>f\<in>set (frows w). uf_ID f = k \<and> uf_UserID f = u \<and> \<not> uf_IsDeleted f"
  have f: "?own (fv_FileID (fst x))" if "x \<in> set ?fj" for x
    using joinedD [OF that] assms(1) by (fastforce simp: library_owned_def entry_owned_def fv_key_def)
  have r: "?own (ur_FileID (fst x))" if "x \<in> set (recents_of u (db w))" for x
    using joinedD [OF that [unfolded recents_of_def]] assms(1)
    by (fastforce simp: library_owned_def entry_owned_def ur_key_def)
  have "?own (fi_FileID i)" if "i \<in> set fis" for i
    using that f unfolding fis by (auto simp del: bex_simps simp: favorite_of_def dest!: in_set_takeD)
  moreover have "?own (ri_FileID i)" if "i \<in> set ris" for i
    using that r unfolding ris by (auto simp: recent_of_def dest!: in_set_takeD)
  moreover have "?own (ci_FileID i)" if "i \<in> set cis" for i
    using that r unfolding cis by (auto simp: common_dir_of_def dest!: in_set_takeD)
  ultimately have "\<forall>k\<in>fi_FileID ` set fis \<union> ri_FileID ` set ris \<union> ci_FileID ` set cis. ?own k" by blast
  moreover have "length fis \<le> 200" "length ris \<le> 200" "length cis \<le> 100"
    by (simp_all add: fis ris cis clamp_def Let_def min.coboundedI2)
  moreover have "sorted (map (\<lambda>i. - fi_CreatedAt i) fis)" "sorted (map (\<lambda>i. - ri_LastAccessAt i) ris)"
    "sorted (map (\<lambda>i. - ci_AccessCount i) cis)"
    unfolding fis ris cis
    by (rule sorted_page, simp add: favorite_of_def recent_of_def common_dir_of_def split_beta)+
  ultimately show ?thesis by blast
qed

text \<open>Without faults a user's own file is recorded.\<close>

lemma CheckFileOwner_yes:
  assumes "fault e = (\<lambda>_. False)" and "f \<in> set (frows w)" and "uf_live f" and "\<not> uf_IsDeleted f"
  shows "\<exists>w1. CheckFileOwner e (uf_UserID f) (uf_ID f) w = (True, w1) \<and> db w1 = db w \<and> reads w1 = reads w"
proof -
  have "0 < length (filter (\<lambda>r. uf_live r \<and> uf_ID r = uf_ID f \<and> uf_UserID r = uf_UserID f \<and> \<not> uf_IsDeleted r) (frows w))"
    by (rule length_filter_pos [OF assms(2)]) (use assms(3,4) in simp)
  with assms(1) show ?thesis by (simp add: CheckFileOwner_def count_files_def query_no_fault)
qed

lemma put_library_valid:
  assumes "db_valid ck d"
  shows "db_valid ck (d\<lparr>favorites := put_favorite x (favorites d)\<rparr>)"
    and "db_valid ck (d\<lparr>recents := put_recent y (recents d)\<rparr>)"
  using assms fv.put_distinct [of "favorites d" x] ur.put_distinct [of "recents d" y]
  by (simp_all add: db_valid_def user_favorite_unique_def user_recent_unique_def fv_key_def [abs_def] ur_key_def [abs_def]
      file_object_fk_def user_file_fk_def upload_session_fk_def file_share_fk_def)

text \<open>Every access to a file of the user counts: the one row of the user and the file has the count of
  before plus one, the time and the source of the access, and no other row changes.\<close>
theorem RecordRecentAccess_counts:
  assumes "fault e = (\<lambda>_. False)" and "db_wf (collate e) (db w)" and "u \<noteq> 0" and "k \<noteq> 0"
    and "f \<in> set (frows w)" and "uf_ID f = k" and "uf_UserID f = u" and "uf_live f" and "\<not> uf_IsDeleted f"
    and "RecordRecentAccess nt e u k src w = (r, w')"
  shows "r = Inr () \<and> distinct (map ur_key (rows (recents (db w'))))
    \<and> (\<exists>x\<in>set (rows (recents (db w'))). ur_key x = (u, k) \<and> ur_LastAccessAt x = clock e (reads w)
      \<and> ur_Source x = normalizeRecentSource (unicodeLower nt) src \<and> ur_AccessCount x =
          (case find (\<lambda>y. ur_key y = (u, k)) (rows (recents (db w))) of None \<Rightarrow> 1 | Some y \<Rightarrow> ur_AccessCount y + 1))
    \<and> filter (\<lambda>x. ur_key x \<noteq> (u, k)) (rows (recents (db w'))) = filter (\<lambda>x. ur_key x \<noteq> (u, k)) (rows (recents (db w)))"
proof -
  from CheckFileOwner_yes [OF assms(1,5,8,9)] obtain w1
    where c: "CheckFileOwner e u k w = (True, w1)" "db w1 = db w" "reads w1 = reads w" using assms(6,7) by blast
  define x where "x = \<lparr>ur_ID = 0, ur_UserID = u, ur_FileID = k, ur_Source = normalizeRecentSource (unicodeLower nt) src,
    ur_AccessCount = 1, ur_LastAccessAt = clock e (reads w), ur_CreatedAt = clock e (Suc (reads w)),
    ur_UpdatedAt = clock e (Suc (reads w))\<rparr>"
  have k: "ur_key x = (u, k)" by (simp add: x_def ur_key_def)
  have "db_valid (collate e) (db w)" using assms(2) by (simp add: db_wf_def)
  from put_library_valid(2) [OF this] assms(1,3,4,10) c
  have r: "r = Inr ()" and d: "db w' = (db w)\<lparr>recents := put_recent x (recents (db w))\<rparr>"
    by (auto simp: RecordRecentAccess_def timeNow_def Let_def execute_at_def execute_no_fault x_def)
  let ?t = "recents (db w)"
  have u: "distinct (map ur_key (rows ?t))"
    using assms(2) by (simp add: db_wf_def db_valid_def user_recent_unique_def ur_key_def [abs_def])
  have "\<exists>z\<in>set (rows (put_recent x ?t)). ur_key z = (u, k) \<and> ur_LastAccessAt z = clock e (reads w)
      \<and> ur_Source z = normalizeRecentSource (unicodeLower nt) src \<and> ur_AccessCount z =
          (case find (\<lambda>y. ur_key y = (u, k)) (rows ?t) of None \<Rightarrow> 1 | Some y \<Rightarrow> ur_AccessCount y + 1)"
  proof (cases "find (\<lambda>y. ur_key y = (u, k)) (rows ?t)")
    case None
    then have "\<forall>y\<in>set (rows ?t). ur_key y \<noteq> ur_key x" by (simp add: find_None_iff k)
    from ur.put_new [OF this] None show ?thesis by (simp add: x_def ur_key_def)
  next
    case (Some y)
    then have y: "y \<in> set (rows ?t)" "ur_key y = ur_key x" by (auto simp: find_Some_iff k)
    then have "access_again x y \<in> set (rows (put_recent x ?t))" by (auto simp: ur.put_old [OF y])
    with Some y show ?thesis by (intro bexI [of _ "access_again x y"]) (simp_all add: access_again_def x_def ur_key_def)
  qed
  with r d u ur.put_distinct [of ?t x] ur.put_others [of x ?t] show ?thesis by (simp add: k)
qed

text \<open>Adding a favorite twice is adding it once, and removing it takes back exactly what adding it did.\<close>
theorem favorite_roundtrip:
  assumes "AddFavorite e u k w = (Inr (), w1)" and "AddFavorite e u k w1 = (Inr (), w2)"
    and "RemoveFavorite e u k w2 = (Inr (), w3)"
  shows "rows (favorites (db w2)) = rows (favorites (db w1)) \<and> (u, k) \<in> fv_key ` set (rows (favorites (db w2)))
    \<and> rows (favorites (db w3)) = filter (\<lambda>r. fv_key r \<noteq> (u, k)) (rows (favorites (db w)))"
proof -
  have add: "\<exists>t. favorites (db w') = put_favorite \<lparr>fv_ID = 0, fv_UserID = u, fv_FileID = k, fv_CreatedAt = t\<rparr> (favorites (db w))"
    if "AddFavorite e u k w = (Inr (), w')" for w w'
  proof -
    obtain b w1 where "CheckFileOwner e u k w = (b, w1)" by fastforce
    with that CheckFileOwner_same [OF this] show ?thesis
      by (auto simp: AddFavorite_def dest!: execute_at_okD split: if_splits)
  qed
  obtain t1 t2 where t1: "favorites (db w1) = put_favorite \<lparr>fv_ID = 0, fv_UserID = u, fv_FileID = k, fv_CreatedAt = t1\<rparr> (favorites (db w))"
    and t2: "favorites (db w2) = put_favorite \<lparr>fv_ID = 0, fv_UserID = u, fv_FileID = k, fv_CreatedAt = t2\<rparr> (favorites (db w1))"
    using add assms(1,2) by blast
  let ?r1 = "\<lparr>fv_ID = 0, fv_UserID = u, fv_FileID = k, fv_CreatedAt = t1\<rparr>"
  have k: "fv_key \<lparr>fv_ID = 0, fv_UserID = u, fv_FileID = k, fv_CreatedAt = t\<rparr> = (u, k)" for t by (simp add: fv_key_def)
  have p: "(u, k) \<in> fv_key ` set (rows (favorites (db w1)))"
    using fv.put_keys [of ?r1 "favorites (db w)"] by (simp add: t1 k)
  then have "favorites (db w2) = favorites (db w1)" by (auto simp: t2 put_favorite_def list_ex_iff k)
  moreover have "rows (favorites (db w3)) = filter (\<lambda>r. fv_key r \<noteq> (u, k)) (rows (favorites (db w2)))"
    using assms(3) by (auto simp: RemoveFavorite_def table_ops fv_key_def dest!: execute_okD intro!: filter_cong)
  ultimately show ?thesis using p fv.put_others [of ?r1 "favorites (db w)"] by (simp add: t1 k)
qed

section \<open>Runs\<close>

lemma library_owned1: "library_owned (db world1)"
  by (simp add: library_owned_def world1_defs)

theorem RecordRecentAccess_counts_witness:
  "fst (RecordRecentAccess net0 env6 1 3 ''preview'' world1) = Inr ()"
proof -
  obtain r w' where r: "RecordRecentAccess net0 env6 1 3 ''preview'' world1 = (r, w')" by fastforce
  have "file3 \<in> set (frows world1)" "uf_ID file3 = 3" "uf_UserID file3 = 1" "uf_live file3" "\<not> uf_IsDeleted file3"
    by (simp_all add: world1_defs)
  from RecordRecentAccess_counts [OF env6(1,3) _ _ this r] r show ?thesis by simp
qed

theorem library_stays_owned_witness: "library_owned (db (snd (AddFavorite env6 1 3 world1)))"
  by (rule library_stays_owned [OF env6(3) library_owned1, where u = 1 and k = 3]) simp

lemma favorite_run: "case AddFavorite env6 1 3 world1 of (Inr _, w1) \<Rightarrow> (case AddFavorite env6 1 3 w1 of (Inr _, w2) \<Rightarrow>
    (case RemoveFavorite env6 1 3 w2 of (Inr _, _) \<Rightarrow> True | _ \<Rightarrow> False) | _ \<Rightarrow> False) | _ \<Rightarrow> False"
  by code_simp

theorem favorite_roundtrip_witness:
  "\<exists>w1 w2 w3. AddFavorite env6 1 3 world1 = (Inr (), w1) \<and> AddFavorite env6 1 3 w1 = (Inr (), w2)
    \<and> RemoveFavorite env6 1 3 w2 = (Inr (), w3) \<and> rows (favorites (db w3)) = []"
proof -
  obtain w1 w2 w3 where r: "AddFavorite env6 1 3 world1 = (Inr (), w1)" "AddFavorite env6 1 3 w1 = (Inr (), w2)"
    "RemoveFavorite env6 1 3 w2 = (Inr (), w3)"
    using favorite_run by (fastforce split: prod.splits sum.splits)
  from favorite_roundtrip [OF r] have "rows (favorites (db w3)) = []" by (simp add: world1_defs)
  with r show ?thesis by blast
qed

theorem library_lists_own_witness:
  "\<exists>fis w1. ListFavorites env6 1 0 world1 = (Inr fis, w1) \<and> length fis \<le> 200"
proof -
  have "fault env6 = (\<lambda>_. False)" by (rule env6)
  then obtain fis w1 ris w2 cis w3 where r: "ListFavorites env6 1 0 world1 = (Inr fis, w1)"
    "ListRecent env6 1 0 world1 = (Inr ris, w2)" "ListCommonDirs env6 1 0 world1 = (Inr cis, w3)"
    by (simp add: ListFavorites_def ListRecent_def ListCommonDirs_def query_no_fault)
  from library_lists_own [OF library_owned1 r] r(1) show ?thesis by blast
qed

end
