(* ===== verification/GoNumbers.thy ===== *)
theory GoNumbers
  imports GoStrings
begin

text \<open>
  The number parsing of the standard library that the handlers and the configuration use
  (\<open>strconv.ParseUint\<close>, \<open>strconv.ParseInt\<close> and \<open>strconv.Atoi\<close> in base 10 at 64 bits), and the helpers over it:
  \<open>parsePositiveInt\<close> (\<open>src/internal/handler/share_analytics.go\<close>) and \<open>parseIntQuery\<close>
  (\<open>src/internal/handler/user.go\<close>). An error of any kind is \<open>None\<close>.
\<close>

section \<open>Parsing\<close>

definition digit_val :: "char \<Rightarrow> nat option" where
  "digit_val c = (let n = of_char c :: nat in if 48 \<le> n \<and> n \<le> 57 then Some (n - 48) else None)"

fun parse_digits :: "nat \<Rightarrow> string \<Rightarrow> nat option" where
  "parse_digits acc [] = Some acc"
| "parse_digits acc (c # s) = (case digit_val c of None \<Rightarrow> None | Some d \<Rightarrow> parse_digits (acc * 10 + d) s)"

definition ParseUint :: "string \<Rightarrow> nat option" where
  "ParseUint s = (if s = [] then None else case parse_digits 0 s of
     None \<Rightarrow> None | Some n \<Rightarrow> if n < 2 ^ 64 then Some n else None)"

definition ParseInt :: "string \<Rightarrow> int option" where
  "ParseInt s =
     (case s of [] \<Rightarrow> None
      | c # rest \<Rightarrow>
          (let neg = (c = CHR ''-''); body = (if c = CHR ''+'' \<or> neg then rest else s) in
           case ParseUint body of
             None \<Rightarrow> None
           | Some un \<Rightarrow> if \<not> neg \<and> 2 ^ 63 \<le> un then None
                        else if neg \<and> 2 ^ 63 < un then None
                        else Some (if neg then - int un else int un)))"

definition Atoi :: "string \<Rightarrow> int option" where
  "Atoi s = ParseInt s"

section \<open>Query parameters\<close>

definition parsePositiveInt :: "string \<Rightarrow> int \<Rightarrow> int" where
  "parsePositiveInt raw fallback =
     (let raw = TrimSpace raw in
      if raw = [] then fallback
      else (case Atoi raw of None \<Rightarrow> fallback | Some n \<Rightarrow> if n \<le> 0 then fallback else n))"

definition parseIntQuery :: "string \<Rightarrow> int \<Rightarrow> int" where
  "parseIntQuery raw fallback =
     (let raw = TrimSpace raw in
      if raw = [] then fallback
      else (case Atoi raw of None \<Rightarrow> fallback | Some n \<Rightarrow> if n \<le> 0 then fallback else n))"

section \<open>What is printed is read back\<close>

lemma digit_val_digit: "n < 10 \<Longrightarrow> digit_val (digit n) = Some n"
  by (simp add: digit_val_def of_char_digit Let_def)

lemma parse_digits_append:
  "parse_digits acc (s @ t) = (case parse_digits acc s of None \<Rightarrow> None | Some n \<Rightarrow> parse_digits n t)"
  by (induction acc s rule: parse_digits.induct) (auto split: option.splits)

lemma parse_digits_show: "parse_digits 0 (show_nat n) = Some n"
proof (induction n rule: show_nat.induct)
  case (1 n)
  show ?case
  proof (cases "n < 10")
    case True
    then show ?thesis by (simp add: show_nat.simps [of n] digit_val_digit)
  next
    case False
    with 1 show ?thesis
      by (simp add: show_nat.simps [of n] parse_digits_append digit_val_digit)
  qed
qed

lemma ParseUint_show: "n < 2 ^ 64 \<Longrightarrow> ParseUint (show_nat n) = Some n"
  by (simp add: ParseUint_def parse_digits_show)

lemma show_nat_head: "\<exists>c s. show_nat n = c # s \<and> c \<noteq> CHR ''-'' \<and> c \<noteq> CHR ''+''"
proof -
  obtain c s where c: "show_nat n = c # s" by (cases "show_nat n") auto
  then have "48 \<le> (of_char c :: nat)" using show_nat_range [of c n] by simp
  then have "c \<noteq> CHR ''-''" "c \<noteq> CHR ''+''" by auto
  with c show ?thesis by blast
qed

text \<open>An \<open>int64\<close> that is printed in decimal is read back, over the whole range.\<close>
theorem Atoi_show_int:
  assumes "int64_range i"
  shows "Atoi (show_int i) = Some i"
proof (cases "i < 0")
  case True
  with assms have n: "nat (- i) \<le> 2 ^ 63" "nat (- i) < 2 ^ 64" by (simp_all add: int64_range_def nat_le_iff)
  with True show ?thesis by (simp add: Atoi_def ParseInt_def show_int_def ParseUint_show not_less)
next
  case False
  with assms have n: "nat i < 2 ^ 63" "nat i < 2 ^ 64" by (simp_all add: int64_range_def nat_less_iff)
  obtain c s where c: "show_nat (nat i) = c # s" "c \<noteq> CHR ''-''" "c \<noteq> CHR ''+''" using show_nat_head by blast
  with n False show ?thesis using ParseUint_show [OF n(2)]
    by (simp add: Atoi_def ParseInt_def show_int_def not_le)
qed

theorem Atoi_show_int_witness: "Atoi (show_int (- (2 ^ 63))) = Some (- (2 ^ 63))"
  by (rule Atoi_show_int) (simp add: int64_range_def)

lemma ParseInt_range: "ParseInt s = Some i \<Longrightarrow> int64_range i"
  by (auto simp: ParseInt_def Let_def int64_range_def split: list.splits option.splits if_splits)

text \<open>A limit from the query is positive and fits, whatever the text is.\<close>

lemma parsePositiveInt_range: "0 < fallback \<Longrightarrow> int64_range fallback \<Longrightarrow>
    0 < parsePositiveInt raw fallback \<and> int64_range (parsePositiveInt raw fallback)"
  by (auto simp: parsePositiveInt_def Let_def Atoi_def not_le dest: ParseInt_range split: option.splits)

lemma parseIntQuery_same: "parseIntQuery = parsePositiveInt"
  by (simp add: fun_eq_iff parseIntQuery_def parsePositiveInt_def)

end
