(* ===== verification/Isolation.thy ===== *)
theory Isolation
  imports Copies
begin

text \<open>
  What a user's requests on files do to the files of other users: nothing, for every operation of
  \<open>src/internal/service/user_file.go\<close> but the permanent deletion of a folder, which does not look at the
  owners of the files below it.
\<close>

section \<open>The files of the others\<close>

definition others :: "nat \<Rightarrow> world \<Rightarrow> user_file list" where
  "others u w = filter (\<lambda>f. uf_UserID f \<noteq> u) (frows w)"

lemma others_cong_db: "db w' = db w \<Longrightarrow> others u w' = others u w"
  by (simp add: others_def)

lemma others_update_rows:
  assumes "\<And>r. r \<in> set rs \<Longrightarrow> p r \<Longrightarrow> uf_UserID r = u" and "\<And>r. uf_UserID (f r) = uf_UserID r"
  shows "filter (\<lambda>f. uf_UserID f \<noteq> u) (update_where p f rs) = filter (\<lambda>f. uf_UserID f \<noteq> u) rs"
  using assms(1) by (induction rs) (auto simp: assms(2))

lemma others_update:
  assumes "update_files_unscoped e p f w = (r, w')" and "\<And>x. x \<in> set (frows w) \<Longrightarrow> p x \<Longrightarrow> uf_UserID x = u"
    and "\<And>x. uf_UserID (f x) = uf_UserID x"
  shows "others u w' = others u w"
proof (cases r)
  case Inl
  with assms(1) show ?thesis by (auto intro: others_cong_db dest!: update_files_unscoped_InlD)
next
  case Inr
  with update_files_unscoped_InrD assms(1)
  have "frows w' = update_where p (\<lambda>r. (f r)\<lparr>uf_UpdatedAt := clock e (reads w)\<rparr>) (frows w)"
    by (fastforce simp: update_rows_def)
  then show ?thesis
    using others_update_rows [of "frows w" p u "\<lambda>r. (f r)\<lparr>uf_UpdatedAt := clock e (reads w)\<rparr>"] assms(2,3)
    by (simp add: others_def)
qed

lemma others_create:
  assumes "create_file e x w = (r, w')" and "uf_UserID x = u"
  shows "others u w' = others u w"
proof (cases r)
  case Inl
  with assms show ?thesis by (auto intro: others_cong_db dest!: create_file_InlD)
next
  case Inr
  with assms show ?thesis by (auto simp: others_def insert_row_def dest!: create_file_InrD)
qed

lemma others_count: "IncreaseRefCount e k w = (r, w') \<Longrightarrow> others u w' = others u w"
  by (cases r) (auto simp: IncreaseRefCount_def update_objects_def others_def dest!: execute_InlD execute_okD
      split: prod.splits sum.splits)

lemma others_invalidate [simp]:
  "others u (invalidateFileListCache e v p w) = others u w" "others u (invalidateParents e v fs w) = others u w"
  by (simp_all add: others_def)

section \<open>One operation\<close>

lemma RenameFile_others:
  assumes "db_wf (collate e) (db w)" and "RenameFile e u k nm w = (r, w')"
  shows "others u w' = others u w"
proof -
  obtain y w1 where f: "first_file e (\<lambda>r. uf_ID r = k \<and> uf_UserID r = u \<and> \<not> uf_IsDeleted r) w = (y, w1)" by fastforce
  note same = first_file_same [OF f]
  show ?thesis
  proof (cases y)
    case (Inl err)
    with assms(2) f same show ?thesis by (auto simp: RenameFile_def intro: others_cong_db)
  next
    case (Inr r0)
    obtain z w2 where c: "count_files e (\<lambda>r. uf_UserID r = u \<and> sql_eq_parent (uf_ParentID r0) r
        \<and> collate e (uf_Name r) = collate e nm \<and> uf_ID r \<noteq> k \<and> \<not> uf_IsDeleted r) w1 = (z, w2)" by fastforce
    have d: "db w2 = db w" using count_files_same [OF c] same by simp
    have r0: "r0 \<in> set (frows w)" "uf_UserID r0 = u" using same Inr by auto
    have own: "uf_UserID x = u" if "x \<in> set (frows w2)" "uf_live x \<and> uf_ID x = uf_ID r0" for x
      using db_wf_file_key [OF assms(1) _ r0(1), of x] that r0(2) d by simp
    obtain v w3 where up: "update_files e (\<lambda>r. uf_ID r = uf_ID r0) (\<lambda>r. r\<lparr>uf_Name := nm\<rparr>) w2 = (v, w3)" by fastforce
    have "others u w3 = others u w2"
      by (rule others_update [OF up [unfolded update_files_def]]) (use own in simp_all)
    with assms(2) f Inr c up others_cong_db [OF d] show ?thesis
      by (auto simp: RenameFile_def split: sum.splits if_splits)
  qed
qed

lemma update_own:
  "update_files e (\<lambda>r. uf_ID r = k \<and> uf_UserID r = u \<and> \<not> uf_IsDeleted r) f w = (r, w') \<Longrightarrow>
     (\<And>x. uf_UserID (f x) = uf_UserID x) \<Longrightarrow> others u w' = others u w"
  "update_files e (\<lambda>r. uf_ID r \<in> K \<and> uf_UserID r = u \<and> \<not> uf_IsDeleted r) f w = (r, w') \<Longrightarrow>
     (\<And>x. uf_UserID (f x) = uf_UserID x) \<Longrightarrow> others u w' = others u w"
  "update_files_unscoped e (\<lambda>r. uf_ID r = k \<and> uf_UserID r = u \<and> uf_IsDeleted r) f w = (r, w') \<Longrightarrow>
     (\<And>x. uf_UserID (f x) = uf_UserID x) \<Longrightarrow> others u w' = others u w"
  unfolding update_files_def by (erule others_update; simp)+

lemma MoveToRecycle_others:
  assumes "MoveToRecycle e u k w = (r, w')" shows "others u w' = others u w"
  using assms unfolding MoveToRecycle_def timeNow_def Let_def prod.case
proof (elim seqE, goal_cases)
  case (1 err)
  then show ?case using getFileParentID_same [OF 1(1)] by (simp add: others_def)
next
  case (2 p w1 err)
  then show ?case using getFileParentID_same [OF 2(1)] update_own(1) [OF 2(2)] by (simp add: others_def recycled_def)
next
  case (3 p w1 x w2)
  then show ?case using getFileParentID_same [OF 3(1)] update_own(1) [OF 3(2)] by (auto simp: others_def recycled_def)
qed

lemma BatchMoveToRecycle_others:
  assumes "BatchMoveToRecycle e u ks w = (r, w')" shows "others u w' = others u w"
  using assms unfolding BatchMoveToRecycle_def timeNow_def Let_def prod.case
proof (elim seqE, goal_cases)
  case (1 err)
  then show ?case using find_files_same [OF 1(1)] by (simp add: others_def)
next
  case (2 p w1 err)
  then show ?case using find_files_same [OF 2(1)] update_own(2) [OF 2(2)] by (simp add: others_def recycled_def)
next
  case (3 p w1 x w2)
  then show ?case using find_files_same [OF 3(1)] update_own(2) [OF 3(2)] by (auto simp: others_def recycled_def)
qed

lemma RestoreFile_others:
  assumes "RestoreFile e u k w = (r, w')" shows "others u w' = others u w"
  using assms unfolding RestoreFile_def
proof (elim seqE, goal_cases)
  case (1 err)
  then show ?case using getFileParentID_same [OF 1(1)] by (simp add: others_def)
next
  case (2 p w1 err)
  then show ?case using getFileParentID_same [OF 2(1)] update_own(3) [OF 2(2)] by (simp add: others_def)
next
  case (3 p w1 x w2)
  then show ?case using getFileParentID_same [OF 3(1)] update_own(3) [OF 3(2)] by (auto simp: others_def)
qed

lemma move_rows_others:
  assumes "move_rows e u ks t w = (r, w')" shows "others u w' = others u w"
  using assms unfolding move_rows_def Let_def
proof (elim seqE if_eqE, goal_cases)
  case (1 err)
  then show ?case using find_files_same [OF 1(1)] by (simp add: others_def)
next
  case (2 fs w1)
  then show ?case using find_files_same [OF 2(1)] by (simp add: others_def)
next
  case (3 fs w1 err)
  then show ?case using find_files_same [OF 3(1)] check_names_same [OF 3(3)] by (simp add: others_def)
next
  case (4 fs w1 x w2 err)
  then show ?case using find_files_same [OF 4(1)] check_names_same [OF 4(3)] update_own(2) [OF 4(4)]
    by (simp add: others_def)
next
  case (5 fs w1 x w2 y w3)
  then show ?case using find_files_same [OF 5(1)] check_names_same [OF 5(3)] update_own(2) [OF 5(4)]
    by (auto simp: others_def)
qed

lemma MoveFiles_isolated:
  assumes "MoveFiles e n u ks t w = Some (r, w')" shows "others u w' = others u w"
proof -
  obtain y w1 where c: "check_target e u t w = (y, w1)" by fastforce
  have d: "others u w1 = others u w" using check_target_same [OF c] by (simp add: others_def)
  show ?thesis
  proof (cases y)
    case (Inl err)
    with assms c d show ?thesis by (simp add: MoveFiles_def)
  next
    case (Inr x)
    with assms c obtain z w2 where m: "(if isRoot t then Some (Inr (), w1) else check_moves e n u (the t) ks w1) = Some (z, w2)"
      and rest: "case z of Inl err \<Rightarrow> (r, w') = (Inl err, w2) | Inr _ \<Rightarrow> move_rows e u ks t w2 = (r, w')"
      by (auto simp: MoveFiles_def split: option.splits sum.splits if_splits)
    have "db w2 = db w1" using m check_moves_same [of e n u "the t" ks w1] by (auto split: if_splits)
    then have "others u w2 = others u w1" by (simp add: others_def)
    with rest d show ?thesis by (auto split: sum.splits dest: move_rows_others)
  qed
qed

lemma CreateFolder_isolated:
  assumes "CreateFolder e u p nm w = (r, w')" shows "others u w' = others u w"
proof -
  obtain y w1 where c: "(if isRoot p then (Inr (), w) else (case first_file e (isLiveDir (the p) u) w of
      (Inl _, w) \<Rightarrow> (Inl (Errorf ''parent folder not found''), w) | (Inr _, w) \<Rightarrow> (Inr (), w))) = (y, w1)" by fastforce
  then have d: "db w1 = db w" by (auto split: if_splits prod.splits sum.splits dest!: first_file_same)
  have m: "(case (y, w1) of (Inl err, w) \<Rightarrow> (Inl err, w) | (Inr _, w) \<Rightarrow>
     (case count_files e (\<lambda>r. uf_UserID r = u \<and> collate e (uf_Name r) = collate e nm
             \<and> uf_IsDir r \<and> \<not> uf_IsDeleted r \<and> inFolder p r) w of
        (Inl err, w) \<Rightarrow> (Inl err, w)
      | (Inr count, w) \<Rightarrow>
          if 0 < count then (Inl (Errorf ''folder already exists''), w) else
     (case create_file e (new_file u p nm True None 0) w of
        (Inl err, w) \<Rightarrow> (Inl err, w)
      | (Inr _, w) \<Rightarrow> (Inr (), invalidateFileListCache e u p w)))) = (r, w')"
    using assms unfolding CreateFolder_def c .
  have nu: "uf_UserID (new_file u p nm True None 0) = u" by (simp add: new_file_def)
  from m show ?thesis
  proof (elim seqE if_eqE, goal_cases)
    case (1 err)
    then show ?case using d by (simp add: others_def)
  next
    case (2 x w2 err)
    then show ?case using d count_files_same [OF 2(2)] by (simp add: others_def)
  next
    case (3 x w2 m w3)
    then show ?case using d count_files_same [OF 3(2)] by (simp add: others_def)
  next
    case (4 x w2 m w3 err)
    then show ?case using d count_files_same [OF 4(2)] others_create [OF 4(4) nu] by (simp add: others_def)
  next
    case (5 x w2 m w3 k w4)
    then show ?case using d count_files_same [OF 5(2)] others_create [OF 5(4) nu] by (auto simp: others_def)
  qed
qed

section \<open>Copies\<close>

lemma copy_each_others:
  assumes rec: "\<And>ks t w r w'. CopyFiles e n u ks t w = Some (r, w') \<Longrightarrow> others u w' = others u w"
    and "copy_each e n u fs t w = Some (r, w')"
  shows "others u w' = others u w"
  using assms(2)
proof (induction fs arbitrary: w)
  case Nil
  then show ?case by auto
next
  case (Cons f fs)
  obtain x w1 where cn: "check_names e u t [f] w = (x, w1)" by fastforce
  have o1: "others u w1 = others u w" by (rule others_cong_db) (simp add: check_names_same [OF cn])
  obtain y w2 where cr: "create_file e (new_file u t (uf_Name f) (uf_IsDir f) (uf_ObjectID f) (uf_Size f)) w1 = (y, w2)"
    by fastforce
  have o2: "others u w2 = others u w" using others_create [OF cr, of u] o1 by (simp add: new_file_def)
  let ?sub = "\<lambda>j. if uf_IsDir f then
      (case find_files e (\<lambda>r. uf_ParentID r = Some (uf_ID f) \<and> \<not> uf_IsDeleted r) w2 of
         (Inl err, w) \<Rightarrow> Some (Inl err, w)
       | (Inr cs, w) \<Rightarrow> if cs = [] then Some (Inr (), w) else CopyFiles e n u (map uf_ID cs) (Some j) w)
      else Some (Inr (), w2)"
  have o3: "others u w3 = others u w" if "?sub j = Some (z, w3)" for j z w3
  proof (cases "uf_IsDir f")
    case False
    with that o2 show ?thesis by simp
  next
    case True
    obtain cs' w2' where ff: "find_files e (\<lambda>r. uf_ParentID r = Some (uf_ID f) \<and> \<not> uf_IsDeleted r) w2 = (cs', w2')"
      by fastforce
    have "others u w2' = others u w2" by (rule others_cong_db) (simp add: find_files_same [OF ff])
    with that True ff o2 rec show ?thesis by (auto split: sum.splits if_splits)
  qed
  show ?case
  proof (cases x)
    case (Inl err)
    with Cons.prems cn o1 show ?thesis by simp
  next
    case x: (Inr a)
    show ?thesis
    proof (cases y)
      case (Inl err)
      with Cons.prems cn x cr o2 show ?thesis by simp
    next
      case (Inr i)
      have step: "copy_each e n u (f # fs) t w = (case ?sub i of None \<Rightarrow> None | Some (Inl err, w) \<Rightarrow> Some (Inl err, w)
        | Some (Inr _, w) \<Rightarrow> (case (case uf_ObjectID f of None \<Rightarrow> (Inr (), w) | Some k \<Rightarrow> IncreaseRefCount e k w) of
             (Inl err, w) \<Rightarrow> Some (Inl err, w) | (Inr _, w) \<Rightarrow> copy_each e n u fs t w))"
        using cn x cr Inr by (simp del: check_names.simps)
      with Cons.prems obtain z w3 where s: "?sub i = Some (z, w3)" by (cases "?sub i") auto
      from Cons.prems [unfolded step s]
      have rest: "case z of Inl err \<Rightarrow> (r, w') = (Inl err, w3) | Inr _ \<Rightarrow>
          (case (case uf_ObjectID f of None \<Rightarrow> (Inr (), w3) | Some k \<Rightarrow> IncreaseRefCount e k w3) of
             (Inl err, w) \<Rightarrow> Some (Inl err, w) | (Inr _, w) \<Rightarrow> copy_each e n u fs t w) = Some (r, w')"
        by (cases z) auto
      note o3 = o3 [OF s]
      show ?thesis
      proof (cases z)
        case (Inl err)
        with rest o3 show ?thesis by simp
      next
        case (Inr b)
        obtain v w4 where inc: "(case uf_ObjectID f of None \<Rightarrow> (Inr (), w3) | Some k \<Rightarrow> IncreaseRefCount e k w3) = (v, w4)"
          by fastforce
        then have "others u w4 = others u w3" by (auto split: option.splits dest: others_count)
        with rest Inr inc o3 show ?thesis by (cases v) (auto dest: Cons.IH)
      qed
    qed
  qed
qed

lemma CopyFiles_others: "CopyFiles e n u ks t w = Some (r, w') \<Longrightarrow> others u w' = others u w"
proof (induction n arbitrary: ks t w r w')
  case (Suc n)
  obtain x w1 where ct: "check_target e u t w = (x, w1)" by fastforce
  obtain y w2 where ff: "find_files e (\<lambda>r. uf_ID r \<in> set ks \<and> uf_UserID r = u \<and> \<not> uf_IsDeleted r) w1 = (y, w2)"
    by fastforce
  have o: "others u w1 = others u w" "others u w2 = others u w"
    using check_target_same [OF ct] find_files_same [OF ff] by (simp_all add: others_def)
  from Suc.prems ct ff consider "w' = w1" | "w' = w2" | fs where "copy_each e n u fs t w2 = Some (r, w')"
    by (auto split: sum.splits if_splits)
  then show ?case
  proof cases
    case 3
    from copy_each_others [OF Suc.IH 3] o show ?thesis by simp
  qed (use o in auto)
qed simp

section \<open>Isolation\<close>

text \<open>C2: no request on files touches the rows of another user: renaming, recycling one file or many,
  restoring, moving, creating a folder and copying leave the rows of all other users exactly as
  they were, whether they succeed or stop at an error half-way.\<close>
theorem file_requests_isolated:
  assumes "db_wf (collate e) (db w)"
    and "RenameFile e u k nm w = (r, w') \<or> MoveToRecycle e u k w = (r, w') \<or> BatchMoveToRecycle e u ks w = (r, w')
      \<or> RestoreFile e u k w = (r, w') \<or> CreateFolder e u p nm w = (r, w')
      \<or> MoveFiles e n u ks p w = Some (r, w') \<or> CopyFiles e n u ks p w = Some (r, w')"
  shows "filter (\<lambda>f. uf_UserID f \<noteq> u) (frows w') = filter (\<lambda>f. uf_UserID f \<noteq> u) (frows w)"
  unfolding others_def [symmetric]
  using assms(2)
  by (elim disjE) (erule RenameFile_others [OF assms(1)] MoveToRecycle_others BatchMoveToRecycle_others RestoreFile_others
    CreateFolder_isolated MoveFiles_isolated CopyFiles_others)+

text \<open>A folder's files belong to its owner.\<close>

definition parents_owned :: "user_file list \<Rightarrow> bool" where
  "parents_owned fs \<longleftrightarrow> (\<forall>f\<in>set fs. \<forall>g\<in>set fs. uf_ParentID f = Some (uf_ID g) \<longrightarrow> uf_UserID f = uf_UserID g)"

lemma below_owned:
  assumes "parents_owned fs" and "distinct (map uf_ID fs)" and "(x, k) \<in> (up fs)\<^sup>+" and "f \<in> set fs" and "uf_ID f = x"
    and "g \<in> set fs" and "uf_ID g = k"
  shows "uf_UserID f = uf_UserID g"
  using assms(3-5)
proof (induction arbitrary: f rule: converse_trancl_induct)
  case (base y)
  then obtain f' where "f' \<in> set fs" "uf_ID f' = y" "uf_ParentID f' = Some k" by (auto simp: up_def)
  with base distinct_map_eq [OF assms(2)] have "uf_ParentID f = Some (uf_ID g)" using assms(7) by metis
  then show ?case by (rule assms(1) [unfolded parents_owned_def, rule_format, OF base(2) assms(6)])
next
  case (step y z)
  from step(1) obtain f' where f': "f' \<in> set fs" "uf_ID f' = y" "uf_ParentID f' = Some z" by (auto simp: up_def)
  with step(4,5) distinct_map_eq [OF assms(2)] have pf: "uf_ParentID f = Some z" by metis
  from step(2) have "z \<in> below fs k" by (simp add: below_def)
  from below_ID [OF this] obtain h where h: "h \<in> set fs" "uf_ID h = z" by blast
  with pf have "uf_ParentID f = Some (uf_ID h)" by simp
  with assms(1) step(4) h(1) have "uf_UserID f = uf_UserID h" unfolding parents_owned_def by blast
  with step(3) [OF h] show ?case by simp
qed

text \<open>C19: a permanent deletion that succeeds removes files of the user only, provided that every folder
  holds files of its owner only.\<close>
theorem DeleteFileRecord_isolated:
  assumes "sound False e w" and "tree_shaped (frows w)" and "parents_owned (frows w)"
    and "DeleteFileRecord e n u k w = Some (Inr (), w')"
  shows "filter (\<lambda>f. uf_UserID f \<noteq> u) (frows w') = filter (\<lambda>f. uf_UserID f \<noteq> u) (frows w)"
proof -
  obtain y w1 where g: "GetDeletedFile e u k w = (y, w1)" by fastforce
  with assms(4) obtain r0 where "y = Inr r0" by (cases y) (auto simp: DeleteFileRecord_def)
  with GetDeletedFile_same [OF g] have r0: "r0 \<in> set (frows w)" "uf_ID r0 = k" "uf_UserID r0 = u" by auto
  have d: "distinct (map uf_ID (frows w))" using assms(2) by (simp add: tree_shaped_def)
  have "uf_UserID f = u" if "f \<in> set (frows w)" "uf_ID f \<in> subtree (frows w) k" for f
    using that below_owned [OF assms(3) d, of "uf_ID f" k f r0] distinct_map_eq [OF d that(1) r0(1)] r0
    by (auto simp: subtree_def below_def)
  moreover have "frows w' = filter (\<lambda>f. uf_ID f \<notin> subtree (frows w) k) (frows w)"
    using DeleteFileRecord_removed [OF assms(4,1,2)] by (simp add: removed_def)
  ultimately show ?thesis by (auto simp: filter_filter intro!: filter_cong)
qed

text \<open>The proviso is not kept by the uploads, which do not look at the folder they are given: a second user puts a
  file into a folder of the first one, and the first one's deletion of the folder removes it.\<close>

definition world11 :: world where
  "world11 = world1\<lparr>db := (db world1)\<lparr>users := \<lparr>rows = [user1, user1\<lparr>u_ID := 2, u_UserName := ''bob'', u_Email := ''b''\<rparr>],
     next_key = 3\<rparr>\<rparr>\<rparr>"

definition upload11 :: upload_by_hash where
  "upload11 = \<lparr>ub_UserId = 2, ub_FileName = ''x'', ub_Size = 3, ub_Hash = ''h'', ub_ParentId = 1\<rparr>"

lemma DeleteFileRecord_removes_foreign:
  "case FastUpload env0 upload11 world11 of (Inr _, w1) \<Rightarrow> (case DeleteFileRecord env0 9 1 1 w1 of
     Some (Inr _, w2) \<Rightarrow> filter (\<lambda>f. uf_UserID f \<noteq> 1) (frows w1) \<noteq> [] \<and> filter (\<lambda>f. uf_UserID f \<noteq> 1) (frows w2) = []
   | _ \<Rightarrow> False) | _ \<Rightarrow> False"
  by code_simp

section \<open>Runs\<close>

definition world12 :: world where
  "world12 = world11\<lparr>db := (db world11)\<lparr>files :=
     \<lparr>rows = [folder1, file2, file3, file3\<lparr>uf_ID := 4, uf_UserID := 2\<rparr>], next_key = 5\<rparr>\<rparr>\<rparr>"

lemma world12_wf: "db_wf (collate env0) (db world12)"
  by (simp add: db_wf_def keys_wf_defs db_valid_defs has_key_def world12_def world11_def world1_defs)

theorem file_requests_isolated_witness:
  "\<exists>f. filter (\<lambda>f. uf_UserID f \<noteq> 1) (frows (snd (RenameFile env0 1 3 ''z'' world12))) = [f]"
proof -
  obtain r w' where r: "RenameFile env0 1 3 ''z'' world12 = (r, w')" by fastforce
  have "filter (\<lambda>f. uf_UserID f \<noteq> 1) (frows w') = filter (\<lambda>f. uf_UserID f \<noteq> 1) (frows world12)"
    by (rule file_requests_isolated [OF world12_wf, where u = 1]) (rule disjI1, rule r)
  with r show ?thesis by (simp add: world12_def world11_def world1_defs)
qed

theorem DeleteFileRecord_isolated_witness:
  "filter (\<lambda>f. uf_UserID f \<noteq> 1) (frows deleted1) = []"
proof -
  have "parents_owned (frows world1)" by (simp add: parents_owned_def world1_defs)
  from DeleteFileRecord_isolated [OF sound_weaken [OF world1_sound] world1_tree this delete_world1]
  show ?thesis by (simp add: world1_defs)
qed

end
