(* ===== verification/Handlers.thy ===== *)
theory Handlers
  imports Library GoNumbers Listing Archive Isolation
begin

text \<open>
  The HTTP handlers of \<open>src/internal/handler\<close> over the services: \<open>file.go\<close>, \<open>recycle.go\<close>, \<open>user.go\<close>,
  \<open>activity.go\<close>, \<open>share_file.go\<close> and \<open>share_analytics.go\<close>. A request is the body that gin has decoded and
  validated, or the message of its refusal; the user is the one \<open>AuthMiddleware\<close> has put into the context.
  A reply carries the values the handler prints, or a status with the message.
\<close>

section \<open>Requests and replies\<close>

datatype 'a reply = OK 'a | Fail nat string

type_synonym 'r body = "string + 'r"   \<comment> \<open>\<open>ShouldBindJSON\<close>: the message of an error, or the request\<close>

abbreviation invalid :: "string \<Rightarrow> 'a reply" where
  "invalid msg \<equiv> Fail 400 (''invalid request: '' @ msg)"

text \<open>A service's result as a reply: an error is a 500 with a prefix.\<close>

definition answer :: "net \<Rightarrow> string \<Rightarrow> 'a result \<times> world \<Rightarrow> 'a reply \<times> world" where
  "answer nt pre = (\<lambda>(r, w). (case r of Inl err \<Rightarrow> Fail 500 (pre @ errText nt err) | Inr x \<Rightarrow> OK x, w))"

text \<open>\<open>utils.Success\<close> and \<open>utils.Fail\<close> of \<open>src/utils/json.go\<close>.\<close>

definition success_or_fail :: "net \<Rightarrow> 'a result \<times> world \<Rightarrow> 'a reply \<times> world" where
  "success_or_fail nt = (\<lambda>(r, w). (case r of Inl err \<Rightarrow> Fail 400 (errText nt err) | Inr x \<Rightarrow> OK x, w))"

section \<open>Files\<close>

definition UploadFileByHash_handler ::
  "net \<Rightarrow> env \<Rightarrow> nat \<Rightarrow> upload_by_hash body \<Rightarrow> world \<Rightarrow> fast_upload_response reply \<times> world" where
  "UploadFileByHash_handler nt e userID b w =
     (case b of Inl msg \<Rightarrow> (invalid msg, w)
      | Inr req \<Rightarrow> success_or_fail nt (FastUpload e (req\<lparr>ub_UserId := userID\<rparr>) w))"

record offline_request =
  or_URL :: string
  or_FileName :: string

definition HttpOfflineDownload ::
  "net \<Rightarrow> env \<Rightarrow> nat \<Rightarrow> offline_request body \<Rightarrow> world \<Rightarrow> nat reply \<times> world" where
  "HttpOfflineDownload nt e userID b w =
     (case b of Inl msg \<Rightarrow> (Fail 400 msg, w)
      | Inr req \<Rightarrow>
     (case ValidateDownloadSourceURL nt e (or_URL req) w of
        (Inl err, w) \<Rightarrow>
          (let msg = errText nt err;
               msg = (if msg = ''host not allowed'' \<or> msg = ''ip not allowed''
                      then msg @ ''; for local/private testing set DOWNLOAD_ALLOW_PRIVATE=true'' else msg)
           in (Fail 400 msg, w))
      | (Inr _, w) \<Rightarrow> answer nt '''' (CreateDownloadTask nt e userID (or_URL req) (or_FileName req) w)))"

text \<open>\<open>urlPath\<close> is the path component that \<open>net/url\<close> parses.\<close>

definition inferFileNameFromURL :: "net \<Rightarrow> (url \<Rightarrow> string) \<Rightarrow> string \<Rightarrow> string" where
  "inferFileNameFromURL nt urlPath rawURL =
     (case parseURL nt (TrimSpace rawURL) of
        None \<Rightarrow> ''''
      | Some parsed \<Rightarrow>
          (let base = TrimSpace (path_Base (urlPath parsed)) in
           if base = '''' \<or> base = ''.'' \<or> base = ''/'' then '''' else base))"

record url_upload_request =
  uu_URL :: string
  uu_FileName :: string
  uu_ParentID :: nat

definition UploadFileByURL ::
  "net \<Rightarrow> (url \<Rightarrow> string) \<Rightarrow> env \<Rightarrow> nat \<Rightarrow> url_upload_request body \<Rightarrow> world \<Rightarrow> nat reply \<times> world" where
  "UploadFileByURL nt urlPath e userID b w =
     (case b of Inl msg \<Rightarrow> (invalid msg, w)
      | Inr req \<Rightarrow>
          (let fileName = TrimSpace (uu_FileName req);
               fileName = (if fileName = '''' then inferFileNameFromURL nt urlPath (uu_URL req) else fileName)
           in if fileName = '''' then (Fail 400 ''file_name required'', w) else
              success_or_fail nt (UploadFromURL nt e userID (uu_URL req) fileName (parentOf (uu_ParentID req)) w)))"

definition paged :: "file_list_request \<Rightarrow> file_list_request" where
  "paged req = req\<lparr>lr_Page := (if lr_Page req \<le> 0 then 1 else lr_Page req),
     lr_PageSize := (if lr_PageSize req \<le> 0 then 20 else lr_PageSize req)\<rparr>"

text \<open>The files, their total, the page and its size. An error of the record of the visit is dropped.\<close>

definition GetFileList_handler ::
  "net \<Rightarrow> env \<Rightarrow> nat \<Rightarrow> file_list_request body \<Rightarrow> world \<Rightarrow> (user_file list \<times> int \<times> int \<times> int) reply \<times> world" where
  "GetFileList_handler nt e userID b w =
     (case b of Inl msg \<Rightarrow> (invalid msg, w)
      | Inr req \<Rightarrow>
          (let req = paged req in
           case GetFileList e (unicodeLower nt) userID req w of
             (Inl err, w) \<Rightarrow> (Fail 500 (''get file list failed: '' @ errText nt err), w)
           | (Inr (fs, n), w) \<Rightarrow>
               (OK (fs, n, lr_Page req, lr_PageSize req),
                (case lr_ParentID req of
                   None \<Rightarrow> w
                 | Some p \<Rightarrow> if p \<noteq> 0 then snd (RecordRecentAccess nt e userID p ''browse'' w) else w))))"

definition SearchFiles_handler ::
  "net \<Rightarrow> env \<Rightarrow> nat \<Rightarrow> file_search_request body \<Rightarrow> world \<Rightarrow> (user_file list \<times> int \<times> int \<times> int) reply \<times> world" where
  "SearchFiles_handler nt e userID b w =
     (case b of Inl msg \<Rightarrow> (invalid msg, w)
      | Inr req \<Rightarrow>
          (let req = req\<lparr>lr_Page := (if lr_Page req \<le> 0 then 1 else lr_Page req),
                 lr_PageSize := (if lr_PageSize req \<le> 0 then 20 else lr_PageSize req)\<rparr> in
           case SearchFiles e (unicodeLower nt) userID req w of
             (Inl err, w) \<Rightarrow> (Fail 500 (''search files failed: '' @ errText nt err), w)
           | (Inr (fs, n), w) \<Rightarrow> (OK (fs, n, lr_Page req, lr_PageSize req), w)))"

definition RenameFile_handler :: "net \<Rightarrow> env \<Rightarrow> nat \<Rightarrow> (nat \<times> string) body \<Rightarrow> world \<Rightarrow> unit reply \<times> world" where
  "RenameFile_handler nt e userID b w =
     (case b of Inl msg \<Rightarrow> (invalid msg, w)
      | Inr (fileID, newName) \<Rightarrow> answer nt ''rename file failed: '' (RenameFile e userID fileID newName w))"

definition MoveFiles_handler ::
  "net \<Rightarrow> env \<Rightarrow> nat \<Rightarrow> nat \<Rightarrow> (nat list \<times> nat option) body \<Rightarrow> world \<Rightarrow> (unit reply \<times> world) option" where
  "MoveFiles_handler nt e fuel userID b w =
     (case b of Inl msg \<Rightarrow> Some (invalid msg, w)
      | Inr (fileIDs, targetID) \<Rightarrow>
          map_option (answer nt ''move files failed: '') (MoveFiles e fuel userID fileIDs targetID w))"

definition CopyFiles_handler ::
  "net \<Rightarrow> env \<Rightarrow> nat \<Rightarrow> nat \<Rightarrow> (nat list \<times> nat option) body \<Rightarrow> world \<Rightarrow> (unit reply \<times> world) option" where
  "CopyFiles_handler nt e fuel userID b w =
     (case b of Inl msg \<Rightarrow> Some (invalid msg, w)
      | Inr (fileIDs, targetID) \<Rightarrow>
          map_option (answer nt ''copy files failed: '') (CopyFiles e fuel userID fileIDs targetID w))"

definition CreateFolder_handler :: "net \<Rightarrow> env \<Rightarrow> nat \<Rightarrow> (nat \<times> string) body \<Rightarrow> world \<Rightarrow> unit reply \<times> world" where
  "CreateFolder_handler nt e userID b w =
     (case b of Inl msg \<Rightarrow> (invalid msg, w)
      | Inr (parentID, name) \<Rightarrow>
          answer nt ''create folder failed: '' (CreateFolder e userID (parentOf parentID) name w))"

definition BatchDeleteFiles :: "net \<Rightarrow> env \<Rightarrow> nat \<Rightarrow> nat list body \<Rightarrow> world \<Rightarrow> unit reply \<times> world" where
  "BatchDeleteFiles nt e userID b w =
     (case b of Inl msg \<Rightarrow> (invalid msg, w)
      | Inr fileIDs \<Rightarrow> answer nt ''delete files failed: '' (BatchMoveToRecycle e userID fileIDs w))"

definition PreviewFile :: "net \<Rightarrow> env \<Rightarrow> nat \<Rightarrow> string \<Rightarrow> world \<Rightarrow> string reply \<times> world" where
  "PreviewFile nt e userID fileIDStr w =
     (case ParseUint fileIDStr of
        None \<Rightarrow> (Fail 400 ''invalid file id'', w)
      | Some fileID \<Rightarrow>
     (case GetPreviewURL nt e userID fileID ten_minutes w of
        (Inl err, w) \<Rightarrow> (Fail 500 (errText nt err), w)
      | (Inr url, w) \<Rightarrow> (OK url, snd (RecordRecentAccess nt e userID fileID ''preview'' w))))"

definition ListDownloadTasks_handler :: "net \<Rightarrow> env \<Rightarrow> nat \<Rightarrow> world \<Rightarrow> download_task list reply \<times> world" where
  "ListDownloadTasks_handler nt e userID w = answer nt ''get tasks failed: '' (ListDownloadTasks e userID 20 w)"

section \<open>Recycle bin\<close>

definition ListRecycleFiles_handler :: "net \<Rightarrow> env \<Rightarrow> nat \<Rightarrow> world \<Rightarrow> user_file list reply \<times> world" where
  "ListRecycleFiles_handler nt e userID w = answer nt ''get recycle files failed: '' (ListRecycleFiles e userID w)"

definition RestoreFile_handler :: "net \<Rightarrow> env \<Rightarrow> nat \<Rightarrow> nat body \<Rightarrow> world \<Rightarrow> unit reply \<times> world" where
  "RestoreFile_handler nt e userID b w =
     (case b of Inl msg \<Rightarrow> (invalid msg, w)
      | Inr fileID \<Rightarrow> answer nt ''restore file failed: '' (RestoreFile e userID fileID w))"

definition DeleteFileRecord_handler ::
  "net \<Rightarrow> env \<Rightarrow> nat \<Rightarrow> nat \<Rightarrow> nat body \<Rightarrow> world \<Rightarrow> (unit reply \<times> world) option" where
  "DeleteFileRecord_handler nt e fuel userID b w =
     (case b of Inl msg \<Rightarrow> Some (invalid msg, w)
      | Inr fileID \<Rightarrow> map_option (answer nt ''delete file failed: '') (DeleteFileRecord e fuel userID fileID w))"

section \<open>Profile and library\<close>

definition GetCurrentUser :: "net \<Rightarrow> env \<Rightarrow> nat \<Rightarrow> world \<Rightarrow> user_profile reply \<times> world" where
  "GetCurrentUser nt e userID w = answer nt ''get profile failed: '' (GetUserProfileByID e userID w)"

definition UpdateCurrentUser :: "net \<Rightarrow> env \<Rightarrow> nat \<Rightarrow> profile_update body \<Rightarrow> world \<Rightarrow> user_profile reply \<times> world" where
  "UpdateCurrentUser nt e userID b w =
     (case b of Inl msg \<Rightarrow> (invalid msg, w)
      | Inr req \<Rightarrow>
     (case UpdateUserProfile e userID req w of
        (Inl err, w) \<Rightarrow> (if err = RecordNotFound then Fail 404 ''user not found'' else Fail 400 (errText nt err), w)
      | (Inr profile, w) \<Rightarrow> (OK profile, w)))"

definition ListUserFavorites :: "net \<Rightarrow> env \<Rightarrow> nat \<Rightarrow> string \<Rightarrow> world \<Rightarrow> favorite_item list reply \<times> world" where
  "ListUserFavorites nt e userID limit w =
     answer nt ''list favorites failed: '' (ListFavorites e userID (parseIntQuery limit 50) w)"

definition AddUserFavorite :: "net \<Rightarrow> env \<Rightarrow> nat \<Rightarrow> nat body \<Rightarrow> world \<Rightarrow> unit reply \<times> world" where
  "AddUserFavorite nt e userID b w =
     (case b of Inl msg \<Rightarrow> (invalid msg, w)
      | Inr fileID \<Rightarrow>
     (case AddFavorite e userID fileID w of
        (Inl err, w) \<Rightarrow> (if err = RecordNotFound then Fail 404 ''file not found''
           else Fail 500 (''add favorite failed: '' @ errText nt err), w)
      | (Inr _, w) \<Rightarrow> (OK (), w)))"

definition RemoveUserFavorite :: "net \<Rightarrow> env \<Rightarrow> nat \<Rightarrow> string \<Rightarrow> world \<Rightarrow> unit reply \<times> world" where
  "RemoveUserFavorite nt e userID param w =
     (case ParseUint (TrimSpace param) of
        None \<Rightarrow> (Fail 400 ''invalid file id'', w)
      | Some fileID \<Rightarrow> if fileID = 0 then (Fail 400 ''invalid file id'', w)
          else answer nt ''remove favorite failed: '' (RemoveFavorite e userID fileID w))"

definition ListUserRecent :: "net \<Rightarrow> env \<Rightarrow> nat \<Rightarrow> string \<Rightarrow> world \<Rightarrow> recent_item list reply \<times> world" where
  "ListUserRecent nt e userID limit w =
     answer nt ''list recent failed: '' (ListRecent e userID (parseIntQuery limit 50) w)"

definition ListUserCommonDirs :: "net \<Rightarrow> env \<Rightarrow> nat \<Rightarrow> string \<Rightarrow> world \<Rightarrow> common_dir_item list reply \<times> world" where
  "ListUserCommonDirs nt e userID limit w =
     answer nt ''list common dirs failed: '' (ListCommonDirs e userID (parseIntQuery limit 20) w)"

section \<open>Activity summary\<close>

text \<open>The totals over the days, in \<open>int64\<close> arithmetic.\<close>

definition add_totals :: "increments \<Rightarrow> increments \<Rightarrow> increments" where
  "add_totals a b = \<lparr>UploadCount = wrap64 (UploadCount a + UploadCount b), UploadBytes = wrap64 (UploadBytes a + UploadBytes b),
     DeleteCount = wrap64 (DeleteCount a + DeleteCount b), DeleteBytes = wrap64 (DeleteBytes a + DeleteBytes b),
     ShareCount = wrap64 (ShareCount a + ShareCount b), DownloadCount = wrap64 (DownloadCount a + DownloadCount b),
     DownloadBytes = wrap64 (DownloadBytes a + DownloadBytes b)\<rparr>"

definition totals :: "(string \<times> increments) list \<Rightarrow> increments" where
  "totals items = foldl (\<lambda>acc (_, inc). add_totals acc inc) no_increments items"

definition GetUserActivitySummary ::
  "net \<Rightarrow> env \<Rightarrow> nat \<Rightarrow> string \<Rightarrow> world \<Rightarrow> (int \<times> (string \<times> increments) list \<times> increments) reply \<times> world" where
  "GetUserActivitySummary nt e userID query' w =
     (let raw = TrimSpace query';
          days = (if raw = '''' then Some 7 else (case Atoi raw of None \<Rightarrow> None | Some n \<Rightarrow> if n \<le> 0 then None else Some n))
      in case days of
           None \<Rightarrow> (Fail 400 ''invalid days'', w)
         | Some days \<Rightarrow>
        (case GetSummary e userID days w of
           (Inl err, w) \<Rightarrow> (Fail 500 (''get activity summary failed: '' @ errText nt err), w)
         | (Inr items, w) \<Rightarrow> (OK (days, items, totals items), w)))"

section \<open>Shares\<close>

record create_share_request =
  cs_FileID :: nat
  cs_ExpireDays :: int
  cs_NeedCode :: bool

definition CreateShareHandler ::
  "net \<Rightarrow> env \<Rightarrow> (nat \<Rightarrow> nat option) \<Rightarrow> nat \<Rightarrow> create_share_request body \<Rightarrow> world \<Rightarrow> (string \<times> string) reply \<times> world" where
  "CreateShareHandler nt e rnd userID b w =
     (case b of Inl _ \<Rightarrow> (Fail 400 ''invalid params'', w)
      | Inr req \<Rightarrow>
     (case CreateShare e rnd userID (cs_FileID req) (cs_ExpireDays req) (cs_NeedCode req) w of
        (Inl err, w) \<Rightarrow> (Fail 500 (errText nt err), w)
      | (Inr share, w) \<Rightarrow> (OK (fs_ShareID share, fs_ExtractCode share), w)))"

definition GetShareAccessLogs ::
  "net \<Rightarrow> env \<Rightarrow> nat \<Rightarrow> string \<Rightarrow> string \<Rightarrow> world \<Rightarrow> share_access_log_item list reply \<times> world" where
  "GetShareAccessLogs nt e userID limit shareID w =
     answer nt ''list share access logs failed: ''
       (ListShareAccessLogs e userID (TrimSpace shareID) (parsePositiveInt limit 50) w)"

definition GetShareAccessStats_handler :: "net \<Rightarrow> env \<Rightarrow> nat \<Rightarrow> string \<Rightarrow> world \<Rightarrow> share_access_stats reply \<times> world" where
  "GetShareAccessStats_handler nt e userID days w =
     answer nt ''get share access stats failed: '' (GetShareAccessStats e userID (parsePositiveInt days 30) w)"

section \<open>Routes\<close>

text \<open>\<open>CORSMiddleware\<close>: the headers, and whether the request ends there with a 204.\<close>

definition CORSMiddleware :: "string \<Rightarrow> string \<Rightarrow> (string \<times> string) list \<times> bool" where
  "CORSMiddleware method' origin =
     ((if origin \<noteq> '''' then [(''Access-Control-Allow-Origin'', origin), (''Vary'', ''Origin'')]
       else [(''Access-Control-Allow-Origin'', ''*'')])
      @ [(''Access-Control-Allow-Methods'', ''GET, POST, PUT, PATCH, DELETE, OPTIONS''),
         (''Access-Control-Allow-Headers'', ''Authorization, Content-Type, Accept''),
         (''Access-Control-Expose-Headers'', ''Content-Length, Content-Type'')],
      method' = ''OPTIONS'')"

text \<open>\<open>InitRouter\<close>: the method, the path pattern, and whether the group uses \<open>AuthMiddleware\<close>.\<close>

definition routes :: "((string \<times> string) \<times> bool) list" where
  "routes =
     [((''POST'', ''/api/register''), False), ((''GET'', ''/api/activate''), False), ((''POST'', ''/api/login''), False)]
   @ map (\<lambda>p. ((''POST'', ''/api/file'' @ p), True))
       [''/list'', ''/search'', ''/rename'', ''/move'', ''/copy'', ''/folder'', ''/delete'', ''/upload/hash'', ''/upload/url'',
        ''/download/minio'', ''/download/url'', ''/upload/multipart/init'', ''/upload/multipart/chunk'',
        ''/upload/multipart/complete'', ''/download/offline'', ''/download/archive'']
   @ [((''GET'', ''/api/file/download/tasks''), True), ((''GET'', ''/api/file/preview/:fileID''), True)]
   @ map (\<lambda>p. ((''POST'', ''/api/recycle'' @ p), True)) [''/list'', ''/restore'', ''/delete'']
   @ [((''POST'', ''/api/share/create''), True), ((''GET'', ''/api/share/access/logs''), True),
      ((''GET'', ''/api/share/access/stats''), True)]
   @ [((''GET'', ''/api/user/me''), True), ((''PUT'', ''/api/user/me''), True), ((''GET'', ''/api/user/favorites''), True),
      ((''POST'', ''/api/user/favorites''), True), ((''DELETE'', ''/api/user/favorites/:fileID''), True),
      ((''GET'', ''/api/user/recent''), True), ((''GET'', ''/api/user/common-dirs''), True),
      ((''GET'', ''/api/user/activity/summary''), True)]
   @ [((''GET'', ''/api/share/download/:shareID''), False)]"

text \<open>A request on the route gin has matched. The handler gets the identity set by the middleware; \<open>None\<close> is
  the panic of a malformed token.\<close>

definition serve ::
  "auth \<Rightarrow> int \<Rightarrow> (string \<times> string) \<Rightarrow> string \<Rightarrow> string
    \<Rightarrow> ((nat \<times> string) option \<Rightarrow> world \<Rightarrow> 'a reply \<times> world) \<Rightarrow> world \<Rightarrow> ('a reply \<times> world) option" where
  "serve au now rt origin authHeader h w =
     (if snd (CORSMiddleware (fst rt) origin) then Some (Fail 204 '''', w) else
      case map_of routes rt of
        None \<Rightarrow> Some (Fail 404 ''404 page not found'', w)
      | Some guarded \<Rightarrow> if \<not> guarded then Some (h None w) else
     (case AuthMiddleware au now authHeader of
        None \<Rightarrow> None
      | Some (Inl code) \<Rightarrow> Some (Fail code ''unauthorized'', w)
      | Some (Inr identity) \<Rightarrow> Some (h (Some identity) w)))"

section \<open>What the routes guarantee\<close>

text \<open>C18: apart from registration, activation, login and the download through a link, no request reaches a
  handler, or changes anything, without a token that verifies; the handler then works for the user
  of the token.\<close>
theorem routes_guarded:
  assumes "serve au now rt origin header h w = Some (r, w')" and "map_of routes rt \<noteq> None"
    and "rt \<notin> {(''POST'', ''/api/register''), (''GET'', ''/api/activate''), (''POST'', ''/api/login''),
      (''GET'', ''/api/share/download/:shareID'')}"
  shows "w' = w \<and> (\<exists>code msg. r = Fail code msg)
    \<or> (\<exists>tok c. header = ''Bearer '' @ tok \<and> VerifyToken au now tok = Some (Inr c)
        \<and> (r, w') = h (Some (cl_UserId c, cl_Username c)) w)"
proof -
  from assms(2) obtain g where g: "map_of routes rt = Some g" by auto
  from map_of_SomeD [OF g] assms(3) have "g" by (cases g) (auto simp: routes_def)
  show ?thesis
  proof (cases "snd (CORSMiddleware (fst rt) origin)")
    case True
    with assms(1) show ?thesis by (auto simp: serve_def)
  next
    case False
    note run = assms(1) [unfolded serve_def, simplified False g \<open>g\<close>, simplified]
    show ?thesis
    proof (cases "AuthMiddleware au now header")
      case None
      with run show ?thesis by simp
    next
      case (Some y)
      show ?thesis
      proof (cases y)
        case (Inl code)
        with run Some show ?thesis by auto
      next
        case (Inr identity)
        then obtain u nm where a: "AuthMiddleware au now header = Some (Inr (u, nm))" using Some by (cases identity) auto
        then obtain tok c where s: "split_space [] header = [''Bearer'', tok]"
          and v: "VerifyToken au now tok = Some (Inr c)" and c: "cl_UserId c = u" "cl_Username c = nm"
          by (auto simp: AuthMiddleware_def split: if_splits list.splits option.splits sum.splits)
        from run a have "(r, w') = h (Some (u, nm)) w" by simp
        with bearer_header [OF s] v c show ?thesis by blast
      qed
    qed
  qed
qed

text \<open>C34: the totals of the summary are the sums over its days, in 64-bit arithmetic: exact as long as the sum
  fits, and wrapped around once at the end otherwise.\<close>
theorem summary_totals:
  assumes "GetUserActivitySummary nt e u q w = (OK (days, items, tot), w')"
  shows "UploadCount tot = wrap64 (\<Sum>(_, i)\<leftarrow>items. UploadCount i) \<and> UploadBytes tot = wrap64 (\<Sum>(_, i)\<leftarrow>items. UploadBytes i)
    \<and> DeleteCount tot = wrap64 (\<Sum>(_, i)\<leftarrow>items. DeleteCount i) \<and> DeleteBytes tot = wrap64 (\<Sum>(_, i)\<leftarrow>items. DeleteBytes i)
    \<and> ShareCount tot = wrap64 (\<Sum>(_, i)\<leftarrow>items. ShareCount i) \<and> DownloadCount tot = wrap64 (\<Sum>(_, i)\<leftarrow>items. DownloadCount i)
    \<and> DownloadBytes tot = wrap64 (\<Sum>(_, i)\<leftarrow>items. DownloadBytes i) \<and> 0 < days"
proof -
  have t: "f (foldl (\<lambda>acc (_, inc). add_totals acc inc) a xs) = wrap64 (f a + (\<Sum>(_, i)\<leftarrow>xs. f i))"
    if "\<And>a b. f (add_totals a b) = wrap64 (f a + f b)" and "wrap64 (f a) = f a"
    for f :: "increments \<Rightarrow> int" and a and xs :: "(string \<times> increments) list"
    using that(2)
  proof (induction xs arbitrary: a)
    case (Cons x xs)
    have "wrap64 (f (add_totals a (snd x))) = f (add_totals a (snd x))" by (simp add: that(1))
    from Cons.IH [OF this] show ?case by (simp add: that(1) wrap64_add split_beta add.assoc)
  qed simp
  have z: "wrap64 0 = 0" by (simp add: wrap64_def)
  have "tot = totals items" "0 < days"
    using assms by (auto simp: GetUserActivitySummary_def Let_def split: if_splits option.splits prod.splits sum.splits)
  then show ?thesis
    unfolding totals_def by (simp add: t add_totals_def z no_increments_def)
qed

lemma set_trim_left: "set (trim_left ws s) \<subseteq> set s"
proof (induction ws s rule: trim_left.induct)
  case (1 ws s)
  show ?case
  proof (cases "find (\<lambda>r. r \<noteq> [] \<and> HasPrefix s r) ws")
    case None
    then show ?thesis by (subst trim_left.simps) simp
  next
    case (Some r)
    with 1 set_drop_subset [of "length r" s] show ?thesis by (subst trim_left.simps) auto
  qed
qed

lemma set_TrimSpace: "set (TrimSpace s) \<subseteq> set s"
  using set_trim_left [of "map rev space_runes" "rev (trim_left space_runes s)"] set_trim_left [of space_runes s]
  by (auto simp: TrimSpace_def)

text \<open>A name taken from a URL is one path element.\<close>

lemma inferFileNameFromURL_element: "CHR ''/'' \<notin> set (inferFileNameFromURL nt urlPath s)"
proof -
  have "CHR ''/'' \<notin> set (path_Base p) \<or> path_Base p = ''/''" for p
    by (auto simp: path_Base_def Let_def dest: set_takeWhileD)
  moreover have "TrimSpace ''/'' = ''/''" by (simp add: TrimSpace_visible visible_def)
  ultimately have "CHR ''/'' \<notin> set (TrimSpace (path_Base p)) \<or> TrimSpace (path_Base p) = ''/''" for p
    using set_TrimSpace [of "path_Base p"] by (metis subsetD)
  then show ?thesis by (auto simp: inferFileNameFromURL_def Let_def split: option.splits)
qed

section \<open>Runs\<close>

theorem routes_guarded_witness:
  "serve auth0 1000 (''GET'', ''/api/user/me'') '''' '''' (\<lambda>_ w. (OK (), w)) world1 = Some (Fail 401 ''unauthorized'', world1)"
proof -
  have r: "serve auth0 1000 (''GET'', ''/api/user/me'') '''' '''' (\<lambda>_ w. (OK (), w)) world1 = Some (Fail 401 ''unauthorized'', world1)"
    by (simp add: serve_def CORSMiddleware_def routes_def AuthMiddleware_def)
  have "map_of routes (''GET'', ''/api/user/me'') \<noteq> None" by (simp add: routes_def)
  from routes_guarded [OF r this] r show ?thesis by blast
qed

theorem summary_totals_witness:
  "\<exists>items tot w'. GetUserActivitySummary net0 env0 1 '''' world0 = (OK (7, items, tot), w')
    \<and> UploadCount tot = wrap64 (\<Sum>(_, i)\<leftarrow>items. UploadCount i)"
proof -
  have t: "TrimSpace '''' = ''''" by (rule TrimSpace_visible) simp
  have "\<exists>items w'. GetSummary env0 1 7 world0 = (Inr items, w')"
    by (simp add: GetSummary_def timeNow_def query_def attempt_def Let_def split: prod.splits)
  then obtain items w' where "GetSummary env0 1 7 world0 = (Inr items, w')" by blast
  then have r: "GetUserActivitySummary net0 env0 1 '''' world0 = (OK (7, items, totals items), w')"
    by (simp add: GetUserActivitySummary_def t)
  from summary_totals [OF r] r show ?thesis by blast
qed

end
