(* ===== verification/Locks.thy ===== *)
theory Locks
  imports Completion
begin

text \<open>
  The lock in Redis (\<open>RedisLock\<close> of \<open>src/internal/repo/redis.go\<close>) that \<open>MultipartComplete\<close> takes while it
  merges: a key set with \<open>SETNX\<close> to a fresh token, with a lease, and removed by a script that
  compares the token. Several clients that take and release it are a step relation.
\<close>

section \<open>The lock\<close>

record redis_lock =
  rl_key :: string
  rl_token :: string
  rl_ttl :: int

definition NewRedisLock :: "string \<Rightarrow> int \<Rightarrow> redis_lock" where
  "NewRedisLock key ttl = \<lparr>rl_key = key, rl_token = '''', rl_ttl = ttl\<rparr>"

definition Lock :: "env \<Rightarrow> redis_lock \<Rightarrow> world \<Rightarrow> (unit result \<times> redis_lock) \<times> world" where
  "Lock e l w =
     (let (token, w) = GetToken e w
      in case redis_setnx e (rl_key l) (RText token) (rl_ttl l) w of
           (Inl err, w) \<Rightarrow> ((Inl err, l), w)
         | (Inr ok, w) \<Rightarrow> if \<not> ok then ((Inl (Errorf ''lock is busy''), l), w)
             else ((Inr (), l\<lparr>rl_token := token\<rparr>), w))"

text \<open>\<open>unlockScript\<close>: Redis runs it as one command.\<close>

definition run_unlock_script :: "env \<Rightarrow> string \<Rightarrow> string \<Rightarrow> unit step" where
  "run_unlock_script e key token = attempt e (\<lambda>w.
     (Inr (), (if redis_now e w key = Some (RText token)
        then w\<lparr>redis := filter (\<lambda>kv. fst kv \<noteq> key) (redis w)\<rparr> else w)\<lparr>reads := Suc (reads w)\<rparr>))"

definition Unlock :: "env \<Rightarrow> redis_lock \<Rightarrow> unit step" where
  "Unlock e l w = (if rl_token l = [] then (Inr (), w) else run_unlock_script e (rl_key l) (rl_token l) w)"

section \<open>Clients\<close>

text \<open>A client that holds the lock remembers its lock value; the time at which it got it is for the
  statements only. A client releases once, whatever comes of it, and other work leaves the key alone.\<close>

datatype client = Idle | Holding redis_lock int

type_synonym lock_state = "world \<times> (nat \<Rightarrow> client)"

inductive lock_step :: "env \<Rightarrow> string \<Rightarrow> int \<Rightarrow> lock_state \<Rightarrow> lock_state \<Rightarrow> bool"
  for e :: env and key :: string and ttl :: int where
  acquire: "cl i = Idle \<Longrightarrow> Lock e (NewRedisLock key ttl) w = ((Inr (), l), w') \<Longrightarrow>
    lock_step e key ttl (w, cl) (w', cl(i := Holding l (clock e (reads w))))"
| refused: "cl i = Idle \<Longrightarrow> Lock e (NewRedisLock key ttl) w = ((Inl err, l), w') \<Longrightarrow>
    lock_step e key ttl (w, cl) (w', cl)"
| release: "cl i = Holding l t \<Longrightarrow> Unlock e l w = (r, w') \<Longrightarrow> lock_step e key ttl (w, cl) (w', cl(i := Idle))"
| work: "map_of (redis w') key = map_of (redis w) key \<Longrightarrow> reads w \<le> reads w' \<Longrightarrow> drawn w \<le> drawn w' \<Longrightarrow>
    lock_step e key ttl (w, cl) (w', cl)"

inductive_cases lock_stepE: "lock_step e key ttl (w, cl) (w', cl')"

inductive lock_reachable :: "env \<Rightarrow> string \<Rightarrow> int \<Rightarrow> lock_state \<Rightarrow> bool"
  for e :: env and key :: string and ttl :: int where
  start: "map_of (redis w) key = None \<Longrightarrow> lock_reachable e key ttl (w, \<lambda>_. Idle)"
| move: "lock_reachable e key ttl s \<Longrightarrow> lock_step e key ttl s s' \<Longrightarrow> lock_reachable e key ttl s'"

text \<open>The lease of a holder has not run out.\<close>

definition leased :: "env \<Rightarrow> int \<Rightarrow> lock_state \<Rightarrow> nat \<Rightarrow> bool" where
  "leased e ttl s i = (case snd s i of Idle \<Rightarrow> False | Holding l t \<Rightarrow> clock e (reads (fst s)) < t + ttl)"

section \<open>Mutual exclusion\<close>

text \<open>A holder's key is in Redis with its token until its lease runs out, and no two holders have the
  same token.\<close>

definition holds :: "env \<Rightarrow> string \<Rightarrow> int \<Rightarrow> world \<Rightarrow> redis_lock \<Rightarrow> int \<Rightarrow> bool" where
  "holds e key ttl w l t \<longleftrightarrow> rl_key l = key \<and> (\<exists>n<drawn w. rl_token l = uuid e n)
     \<and> (map_of (redis w) key = Some (RText (rl_token l), Some (t + ttl)) \<or> t + ttl \<le> clock e (reads w))"

definition lock_inv :: "env \<Rightarrow> string \<Rightarrow> int \<Rightarrow> lock_state \<Rightarrow> bool" where
  "lock_inv e key ttl = (\<lambda>(w, cl). (\<forall>i l t. cl i = Holding l t \<longrightarrow> holds e key ttl w l t)
     \<and> (\<forall>i j l t l' t'. cl i = Holding l t \<longrightarrow> cl j = Holding l' t' \<longrightarrow> i \<noteq> j \<longrightarrow> rl_token l \<noteq> rl_token l'))"

lemma Lock_InrD:
  assumes "Lock e (NewRedisLock key ttl) w = ((Inr (), l), w')" and "0 < ttl"
  shows "rl_key l = key \<and> rl_token l = uuid e (drawn w) \<and> drawn w' = Suc (drawn w) \<and> reads w' = Suc (reads w)
    \<and> redis_now e w key = None
    \<and> map_of (redis w') key = Some (RText (rl_token l), Some (clock e (reads w) + ttl))"
proof -
  have n: "redis_now e (w\<lparr>requests := a, drawn := b\<rparr>) key = redis_now e w key" for a b
    by (simp add: redis_now_def cong: option.case_cong)
  from assms show ?thesis
    by (auto simp: Lock_def NewRedisLock_def GetToken_def redis_setnx_def attempt_def Let_def expiry_def map_of_update
        redis_now_def split: if_splits option.splits)
qed

lemma Lock_InlD:
  assumes "Lock e (NewRedisLock key ttl) w = ((Inl err, l), w')"
  shows "redis w' = redis w \<and> drawn w' = Suc (drawn w) \<and> reads w \<le> reads w'"
  using assms by (auto simp: Lock_def NewRedisLock_def GetToken_def redis_setnx_def attempt_def Let_def
      split: if_splits option.splits)

lemma map_of_filter_neq: "map_of (filter (\<lambda>kv. fst kv \<noteq> k) xs) k = None"
  by (induction xs) auto

lemma UnlockD:
  assumes "Unlock e l w = (r, w')"
  shows "drawn w' = drawn w \<and> reads w \<le> reads w'
    \<and> (map_of (redis w') (rl_key l) = map_of (redis w) (rl_key l) \<or> redis_now e w (rl_key l) = Some (RText (rl_token l)))"
  using assms by (auto simp: Unlock_def run_unlock_script_def attempt_def Let_def split: if_splits)

lemma holds_later:
  assumes "mono (clock e)" and "holds e key ttl w l t" and "drawn w \<le> drawn w'" and "reads w \<le> reads w'"
    and "map_of (redis w') key = map_of (redis w) key \<or> t + ttl \<le> clock e (reads w')"
  shows "holds e key ttl w' l t"
proof -
  have "clock e (reads w) \<le> clock e (reads w')" by (rule monoD [OF assms(1,4)])
  moreover obtain n where "n < drawn w'" "rl_token l = uuid e n"
    using assms(2,3) by (auto simp: holds_def intro: less_le_trans)
  ultimately show ?thesis using assms(2,5) by (auto simp: holds_def)
qed

lemma lock_inv_later:
  assumes "mono (clock e)" and "lock_inv e key ttl (w, cl)" and "map_of (redis w') key = map_of (redis w) key"
    and "reads w \<le> reads w'" and "drawn w \<le> drawn w'"
  shows "lock_inv e key ttl (w', cl)"
proof -
  have "holds e key ttl w' l t" if "holds e key ttl w l t" for l t
    by (rule holds_later [OF assms(1) that assms(5,4)]) (simp add: assms(3))
  with assms(2) show ?thesis unfolding lock_inv_def prod.case by blast
qed

lemma lock_step_inv:
  assumes "inj (uuid e)" and "mono (clock e)" and "0 < ttl" and "lock_step e key ttl s s'" and "lock_inv e key ttl s"
  shows "lock_inv e key ttl s'"
  using assms(4,5)
proof (cases rule: lock_step.cases)
  case (acquire cl i w l w')
  note a = Lock_InrD [OF acquire(4) assms(3)]
  have r: "clock e (reads w) \<le> clock e (reads w')" using a by (intro monoD [OF assms(2)]) simp
  have old: "holds e key ttl w l' t" if "cl j = Holding l' t" for j l' t
    using assms(5) that acquire(1) by (auto simp: lock_inv_def)
  have late: "t + ttl \<le> clock e (reads w)" if "cl j = Holding l' t" for j l' t
    using old [OF that] a by (auto simp: holds_def redis_now_def split: if_splits)
  let ?cl = "cl(i := Holding l (clock e (reads w)))"
  have new: "holds e key ttl w' l (clock e (reads w))" using a by (auto simp: holds_def)
  have kept: "holds e key ttl w' l' t" if "cl j = Holding l' t" for j l' t
    by (rule holds_later [OF assms(2) old [OF that]]) (use a r late [OF that] in simp_all)
  have neq: "rl_token l' \<noteq> rl_token l" if "cl j = Holding l' t" for j l' t
  proof
    assume eq: "rl_token l' = rl_token l"
    from old [OF that] obtain n where "n < drawn w" "rl_token l' = uuid e n" by (auto simp: holds_def)
    with eq a have "uuid e n = uuid e (drawn w)" by simp
    with injD [OF assms(1)] have "n = drawn w" by blast
    with \<open>n < drawn w\<close> show False by simp
  qed
  have "holds e key ttl w' l1 t1" if "?cl j = Holding l1 t1" for j l1 t1
    using that new kept by (cases "j = i") simp_all
  moreover have "rl_token l1 \<noteq> rl_token l2" if h: "?cl j1 = Holding l1 t1" "?cl j2 = Holding l2 t2" "j1 \<noteq> j2" for j1 j2 l1 l2 t1 t2
  proof (cases "j1 = i \<or> j2 = i")
    case True
    with h neq [of j1 l1 t1] neq [of j2 l2 t2] show ?thesis by (cases "j1 = i") auto
  next
    case False
    with h have "cl j1 = Holding l1 t1" "cl j2 = Holding l2 t2" by simp_all
    with assms(5) h(3) show ?thesis unfolding acquire(1) lock_inv_def prod.case by blast
  qed
  ultimately show ?thesis unfolding acquire(2) lock_inv_def prod.case by blast
next
  case (refused cl i w err l w')
  from Lock_InlD [OF refused(4)] show ?thesis
    unfolding refused(2) by (intro lock_inv_later [OF assms(2) assms(5) [unfolded refused(1)]]) simp_all
next
  case (release cl i l t w r w')
  have own: "holds e key ttl w l t" using assms(5) release by (auto simp: lock_inv_def)
  note u = UnlockD [OF release(4)]
  have "holds e key ttl w' l' t'" if j: "cl j = Holding l' t'" "j \<noteq> i" for j l' t'
  proof -
    have h: "holds e key ttl w l' t'" "rl_token l' \<noteq> rl_token l"
      using assms(5) release(3) j unfolding release(1) lock_inv_def prod.case by blast+
    have r: "clock e (reads w) \<le> clock e (reads w')" using u by (intro monoD [OF assms(2)]) simp
    show ?thesis
    proof (cases "t' + ttl \<le> clock e (reads w)")
      case True
      with r u show ?thesis by (intro holds_later [OF assms(2) h(1)]) simp_all
    next
      case False
      with h have "redis_now e w key \<noteq> Some (RText (rl_token l))" by (auto simp: holds_def redis_now_def)
      with own u show ?thesis by (intro holds_later [OF assms(2) h(1)]) (simp_all add: holds_def)
    qed
  qed
  moreover have "(cl(i := Idle)) j = Holding l1 t1 \<Longrightarrow> cl j = Holding l1 t1 \<and> j \<noteq> i" for j l1 t1 by (cases "j = i") simp_all
  ultimately show ?thesis using assms(5) unfolding release(1,2) lock_inv_def prod.case by blast
next
  case (work w' w cl)
  then show ?thesis unfolding work(2) by (intro lock_inv_later [OF assms(2) assms(5) [unfolded work(1)]]) simp_all
qed

lemma lock_reachable_inv:
  assumes "inj (uuid e)" and "mono (clock e)" and "0 < ttl" and "lock_reachable e key ttl s"
  shows "lock_inv e key ttl s"
  using assms(4)
proof (induction rule: lock_reachable.induct)
  case (start w)
  then show ?case by (simp add: lock_inv_def)
next
  case (move s s')
  then show ?case by (blast intro: lock_step_inv [OF assms(1-3)])
qed

text \<open>C6: at most one client holds the lock with a lease that has not run out, in whatever order clients take,
  release and lose it; in particular a client that is late with its release does not release the
  lock of the next one.\<close>
theorem lock_exclusive:
  assumes "inj (uuid e)" and "mono (clock e)" and "0 < ttl" and "lock_reachable e key ttl s"
    and "leased e ttl s i" and "leased e ttl s j"
  shows "i = j"
proof (rule ccontr)
  assume ij: "i \<noteq> j"
  obtain w cl where s: "s = (w, cl)" by fastforce
  from assms(5,6) obtain l t l' t' where h: "cl i = Holding l t" "cl j = Holding l' t'"
    "clock e (reads w) < t + ttl" "clock e (reads w) < t' + ttl"
    by (auto simp: leased_def s split: client.splits)
  from lock_reachable_inv [OF assms(1-4)] have "holds e key ttl w l t" "holds e key ttl w l' t'"
    "rl_token l \<noteq> rl_token l'" unfolding s lock_inv_def prod.case using h(1,2) ij by blast+
  with h(3,4) show False by (auto simp: holds_def)
qed

section \<open>Runs\<close>

text \<open>The first client takes the lock; forty readings of the clock later its lease of 30 has run out.\<close>

definition first_lock :: lock_state where
  "first_lock = (case Lock env0 (NewRedisLock ''k'' 30) world0 of
     ((_, l), w) \<Rightarrow> (w, (\<lambda>_. Idle)(0 := Holding l 0)))"

definition late_world :: world where
  "late_world = (fst first_lock)\<lparr>reads := 41\<rparr>"

definition second_lock :: lock_state where
  "second_lock = (case Lock env0 (NewRedisLock ''k'' 30) late_world of
     ((_, l), w) \<Rightarrow> (w, (snd first_lock)(1 := Holding l 41)))"

lemma inj_show_nat: "inj show_nat"
  by (rule injI) (rule show_nat_inj)

lemma first_lock: "lock_reachable env0 ''k'' 30 first_lock" "leased env0 30 first_lock 0"
proof -
  obtain l w where l: "Lock env0 (NewRedisLock ''k'' 30) world0 = ((Inr (), l), w)" "reads w = 1"
    by (simp add: Lock_def NewRedisLock_def GetToken_def redis_setnx_def attempt_no_fault redis_now_def)
  have "lock_reachable env0 ''k'' 30 (world0, \<lambda>_. Idle)" by (rule lock_reachable.start) simp
  from lock_reachable.move [OF this lock_step.acquire [OF refl l(1)]] l
  show "lock_reachable env0 ''k'' 30 first_lock" "leased env0 30 first_lock 0"
    by (simp_all add: first_lock_def leased_def)
qed

theorem lock_exclusive_witness: "leased env0 30 first_lock 0 \<and> \<not> leased env0 30 first_lock 1"
proof -
  have "inj (uuid env0)" "mono (clock env0)" by (simp_all add: inj_show_nat mono_def)
  from lock_exclusive [OF this _ first_lock(1) first_lock(2), of 1] first_lock(2) show ?thesis by auto
qed

text \<open>The lease does not stop its holder: when it runs out during the work, a second client gets the lock, and
  both believe to hold it.\<close>

theorem lock_lease_runs_out:
  "\<exists>w cl l t l' t'. lock_reachable env0 ''k'' 30 (w, cl) \<and> cl 0 = Holding l t \<and> cl 1 = Holding l' t'"
proof -
  have w: "map_of (redis late_world) ''k'' = map_of (redis (fst first_lock)) ''k''"
    "reads (fst first_lock) \<le> reads late_world" "drawn (fst first_lock) \<le> drawn late_world"
    by (simp_all add: late_world_def first_lock_def Lock_def NewRedisLock_def GetToken_def redis_setnx_def
        attempt_no_fault redis_now_def)
  have "lock_reachable env0 ''k'' 30 (late_world, snd first_lock)"
    by (rule lock_reachable.move [OF _ lock_step.work [OF w]]) (simp add: first_lock)
  moreover obtain l w where l: "Lock env0 (NewRedisLock ''k'' 30) late_world = ((Inr (), l), w)"
    by (simp add: late_world_def first_lock_def Lock_def NewRedisLock_def GetToken_def redis_setnx_def
        attempt_no_fault redis_now_def expiry_def)
  moreover have c: "snd first_lock 1 = Idle" "\<exists>l t. snd first_lock 0 = Holding l t"
    by (auto simp: first_lock_def split: prod.splits)
  ultimately have "lock_reachable env0 ''k'' 30 (w, (snd first_lock)(1 := Holding l (clock env0 (reads late_world))))"
    by (blast intro: lock_reachable.move lock_step.acquire)
  with c(2) show ?thesis by fastforce
qed

end
