(* ===== verification/Transfers.thy ===== *)
theory Transfers
  imports Handlers Locks
begin

text \<open>
  The handlers of \<open>src/internal/handler/minio.go\<close>: downloading a file or its link, and the three requests
  of a multipart upload with the lock around the merge.
\<close>

section \<open>Downloads\<close>

record minio_download_request =
  md_FileID :: nat
  md_FileHash :: string

text \<open>The file and its object, by the key of the file or by the hash of the contents; both handlers look
  them up with the same code.\<close>

definition find_by_id :: "env \<Rightarrow> nat \<Rightarrow> nat \<Rightarrow> world \<Rightarrow> ((nat \<times> string) + user_file \<times> file_object) \<times> world" where
  "find_by_id e userID fileID w =
     (case CheckFileOwner e userID fileID w of
        (owner, w) \<Rightarrow> if \<not> owner then (Inl (403, ''file not found''), w) else
     (case GetUserFileById e fileID w of
        (Inl _, w) \<Rightarrow> (Inl (404, ''file not found''), w)
      | (Inr userFile, w) \<Rightarrow>
     (case uf_ObjectID userFile of
        None \<Rightarrow> (Inl (404, ''file not found''), w)
      | Some k \<Rightarrow>
     (case GetFileObjectById e k w of
        (Inl _, w) \<Rightarrow> (Inl (404, ''file not found''), w)
      | (Inr fileObj, w) \<Rightarrow> (Inr (userFile, fileObj), w)))))"

definition find_by_hash :: "env \<Rightarrow> nat \<Rightarrow> string \<Rightarrow> world \<Rightarrow> ((nat \<times> string) + user_file \<times> file_object) \<times> world" where
  "find_by_hash e userID fileHash w =
     (let hash = TrimSpace fileHash in
      if hash = '''' then (Inl (400, ''file_id or file_hash required''), w) else
      case GetFileObjectByHash e hash w of
        (Inl _, w) \<Rightarrow> (Inl (404, ''file not found''), w)
      | (Inr fileObj, w) \<Rightarrow>
     (case GetUserFileByObjectID e userID (fo_ID fileObj) w of
        (Inl _, w) \<Rightarrow> (Inl (403, ''file not found''), w)
      | (Inr userFile, w) \<Rightarrow> (Inr (userFile, fileObj), w)))"

definition find_requested ::
  "env \<Rightarrow> nat \<Rightarrow> minio_download_request \<Rightarrow> world \<Rightarrow> ((nat \<times> string) + user_file \<times> file_object) \<times> world" where
  "find_requested e userID req w =
     (if md_FileID req \<noteq> 0 then find_by_id e userID (md_FileID req) w else find_by_hash e userID (md_FileHash req) w)"

text \<open>The name and type in the headers, and the contents.\<close>

definition MinioDownloadFile_handler ::
  "net \<Rightarrow> env \<Rightarrow> nat \<Rightarrow> minio_download_request body \<Rightarrow> world \<Rightarrow> (string \<times> string \<times> string) reply \<times> world" where
  "MinioDownloadFile_handler nt e userID b w =
     (case b of Inl msg \<Rightarrow> (Fail 400 (''download failed: '' @ msg), w)
      | Inr req \<Rightarrow>
     (case find_requested e userID req w of
        (Inl (code, msg), w) \<Rightarrow> (Fail code msg, w)
      | (Inr (userFile, fileObj), w) \<Rightarrow>
     (case MinioDownloadObject e (fo_ObjectName fileObj) w of
        (Inl err, w) \<Rightarrow> (Fail 404 (errText nt err), w)
      | (Inr content, w) \<Rightarrow>
          (let fileName = uf_Name userFile;
               fileName = (if fileName = '''' then path_Base (fo_ObjectName fileObj) else fileName);
               fileName = SanitizeHeaderFilename fileName;
               contentType = GetContentBook (unicodeLower nt) fileName;
               contentType = (if contentType = '''' then ''application/octet-stream'' else contentType);
               w = snd (RecordRecentAccess nt e userID (uf_ID userFile) ''download'' w);
               w = snd (Emit e userID ActionDownload (uf_ID userFile) (int (length content)) w)
           in (OK (fileName, contentType, content), w)))))"

definition MinioDownloadURL ::
  "net \<Rightarrow> env \<Rightarrow> nat \<Rightarrow> minio_download_request body \<Rightarrow> world \<Rightarrow> (string \<times> string \<times> int) reply \<times> world" where
  "MinioDownloadURL nt e userID b w =
     (case b of Inl msg \<Rightarrow> (Fail 400 (''download failed: '' @ msg), w)
      | Inr req \<Rightarrow>
     (case find_requested e userID req w of
        (Inl (code, msg), w) \<Rightarrow> (Fail code msg, w)
      | (Inr (userFile, fileObj), w) \<Rightarrow>
          (let name = uf_Name userFile;
               name = (if name = '''' then path_Base (fo_ObjectName fileObj) else name)
           in case GetDownloadURL nt e (fo_BucketName fileObj) (fo_ObjectName fileObj) name ten_minutes w of
                (Inl err, w) \<Rightarrow> (Fail 500 (errText nt err), w)
              | (Inr url, w) \<Rightarrow> (OK (url, name, fo_Size fileObj),
                  snd (RecordRecentAccess nt e userID (uf_ID userFile) ''download_url'' w)))))"

section \<open>Multipart uploads\<close>

definition MultiPartFileInit_handler ::
  "net \<Rightarrow> env \<Rightarrow> nat \<Rightarrow> multipart_init body \<Rightarrow> world \<Rightarrow> multipart_response reply \<times> world" where
  "MultiPartFileInit_handler nt e userID b w =
     (case b of Inl msg \<Rightarrow> (Fail 400 msg, w)
      | Inr req \<Rightarrow> success_or_fail nt (MultiPartFileInit e (req\<lparr>mi_UserId := userID\<rparr>) w))"

text \<open>The form has two values and a file, which may be missing.\<close>

definition MultipartUploadChunk ::
  "net \<Rightarrow> env \<Rightarrow> nat \<Rightarrow> string \<Rightarrow> string \<Rightarrow> string option \<Rightarrow> world \<Rightarrow> unit reply \<times> world" where
  "MultipartUploadChunk nt e userID indexText uploadID chunk w =
     (case Atoi indexText of
        None \<Rightarrow> (Fail 400 ''invalid chunk_index'', w)
      | Some chunkIndex \<Rightarrow>
          if uploadID = '''' then (Fail 400 ''missing upload_id'', w) else
     (case GetUploadSessionByUploadID e uploadID w of
        (Inl _, w) \<Rightarrow> (Fail 404 ''upload session not found'', w)
      | (Inr session, w) \<Rightarrow>
          if us_UserID session \<noteq> userID then (Fail 403 ''upload session forbidden'', w)
          else if chunkIndex < 0 \<or> us_TotalChunks session \<le> chunkIndex then (Fail 400 ''chunk index out of range'', w) else
     (case chunk of
        None \<Rightarrow> (Fail 400 ''missing chunk'', w)
      | Some contents \<Rightarrow>
          answer nt '''' (UploadChunk e \<lparr>mc_UploadID = uploadID, mc_BucketName = BucketName (AppConfig e),
            mc_ChunkIndex = chunkIndex, mc_Contents = contents\<rparr> w))))"

definition merge_key :: "nat \<Rightarrow> string \<Rightarrow> string" where
  "merge_key userID hash = ''lock:merge:'' @ show_nat userID @ '':'' @ hash"

definition merge_lease :: int where
  "merge_lease = 30 * 1000000000"

text \<open>What the session says replaces what the request leaves out.\<close>

definition complete_request :: "upload_session \<Rightarrow> multipart_complete \<Rightarrow> multipart_complete option" where
  "complete_request session req =
     (if 0 < mp_TotalChunks req \<and> mp_TotalChunks req \<noteq> us_TotalChunks session then None else
      let req = req\<lparr>mp_TotalChunks := us_TotalChunks session\<rparr> in
      Some (if mp_FileSize req \<le> 0 \<and> 0 < us_FileSize session then req\<lparr>mp_FileSize := us_FileSize session\<rparr> else req))"

text \<open>The lock is released when the handler returns.\<close>

definition merge_locked ::
  "net \<Rightarrow> env \<Rightarrow> nat \<Rightarrow> string \<Rightarrow> multipart_complete \<Rightarrow> world \<Rightarrow> unit reply \<times> world" where
  "merge_locked nt e userID userName req w =
     (case Lock e (NewRedisLock (merge_key userID (mp_FileHash req)) merge_lease) w of
        ((Inl err, _), w) \<Rightarrow> (Fail 500 (''lock failed: '' @ errText nt err), w)
      | ((Inr _, lock), w) \<Rightarrow>
     (case answer nt '''' (CompleteFile e req userName w) of
        (r, w) \<Rightarrow> (r, snd (Unlock e lock w))))"

definition MultipartComplete ::
  "net \<Rightarrow> env \<Rightarrow> nat \<Rightarrow> string \<Rightarrow> multipart_complete body \<Rightarrow> world \<Rightarrow> unit reply \<times> world" where
  "MultipartComplete nt e userID userName b w =
     (case b of Inl msg \<Rightarrow> (Fail 400 msg, w)
      | Inr req \<Rightarrow>
     (case GetUploadSessionByHash e userID (mp_FileHash req) w of
        (Inl _, w) \<Rightarrow> (Fail 404 ''upload session not found'', w)
      | (Inr session, w) \<Rightarrow>
     (case complete_request session req of
        None \<Rightarrow> (Fail 400 ''total_chunks mismatch'', w)
      | Some req \<Rightarrow> merge_locked nt e userID userName req w)))"

section \<open>A download is of the user's own file\<close>

lemma CheckFileOwner_True:
  assumes "CheckFileOwner e u k w = (True, w')"
  shows "db w' = db w \<and> store w' = store w \<and> (\<exists>f\<in>set (frows w). uf_live f \<and> uf_ID f = k \<and> uf_UserID f = u)"
proof -
  obtain y w1 where c: "count_files e (\<lambda>r. uf_ID r = k \<and> uf_UserID r = u \<and> \<not> uf_IsDeleted r) w = (y, w1)" by fastforce
  with assms obtain m where "y = Inr m" "0 < m" "w1 = w'" by (cases y) (auto simp: CheckFileOwner_def)
  with count_files_same [OF c] have d: "db w' = db w" "store w' = store w"
    and n: "filter (\<lambda>f. uf_live f \<and> uf_ID f = k \<and> uf_UserID f = u \<and> \<not> uf_IsDeleted f) (frows w) \<noteq> []" by simp_all
  from n show ?thesis using d unfolding filter_empty_conv by blast
qed

definition own_object :: "nat \<Rightarrow> world \<Rightarrow> user_file \<Rightarrow> nat \<Rightarrow> bool" where
  "own_object u w f k \<longleftrightarrow> f \<in> set (frows w) \<and> uf_live f \<and> uf_UserID f = u \<and> \<not> uf_IsDeleted f \<and> uf_ObjectID f = Some k"

lemma find_by_id_own:
  assumes "db_wf (collate e) (db w)" and "find_by_id e u k w = (Inr (f, obj), w')"
  shows "db w' = db w \<and> store w' = store w \<and> uf_ID f = k
    \<and> (\<exists>j w1. own_object u w f j \<and> GetFileObjectById e j w1 = (Inr obj, w') \<and> db w1 = db w)"
proof -
  obtain b w1 where c: "CheckFileOwner e u k w = (b, w1)" by fastforce
  with assms(2) have b by (auto simp: find_by_id_def split: if_splits)
  with c have "CheckFileOwner e u k w = (True, w1)" by simp
  note o = CheckFileOwner_True [OF this]
  obtain y w2 where g: "GetUserFileById e k w1 = (y, w2)" by fastforce
  with assms(2) c \<open>b\<close> obtain f' where y: "y = Inr f'" by (cases y) (auto simp: find_by_id_def)
  note s = first_file_same [OF g [unfolded GetUserFileById_def y]]
  obtain j where j: "uf_ObjectID f' = Some j"
    using assms(2) c \<open>b\<close> g y by (cases "uf_ObjectID f'") (auto simp: find_by_id_def)
  obtain z w3 where q: "GetFileObjectById e j w2 = (z, w3)" by fastforce
  with assms(2) c \<open>b\<close> g y j have z: "z = Inr obj" "f' = f" "w3 = w'" by (cases z; auto simp: find_by_id_def)+
  have f: "f \<in> set (frows w)" "uf_live f" "uf_ID f = k" "\<not> uf_IsDeleted f" using s z o by auto
  from o obtain f0 where "f0 \<in> set (frows w)" "uf_ID f0 = k" "uf_UserID f0 = u" by blast
  with db_wf_file_key [OF assms(1) f(1)] f(3) have "uf_UserID f = u" by metis
  with f j z have "own_object u w f j" by (simp add: own_object_def)
  moreover have "GetFileObjectById e j w2 = (Inr obj, w')" "db w2 = db w" using q z s o by simp_all
  moreover have "db w' = db w" "store w' = store w" using GetFileObjectById_core [OF q] z s o by simp_all
  ultimately show ?thesis using f(3) by blast
qed

lemma find_by_hash_own:
  assumes "find_by_hash e u h w = (Inr (f, obj), w')"
  shows "db w' = db w \<and> store w' = store w \<and> own_object u w f (fo_ID obj)"
proof -
  obtain y w1 where g: "GetFileObjectByHash e (TrimSpace h) w = (y, w1)" by fastforce
  with assms obtain o' where y: "y = Inr o'" by (cases y) (auto simp: find_by_hash_def Let_def split: if_splits)
  obtain z w2 where q: "GetUserFileByObjectID e u (fo_ID o') w1 = (z, w2)" by fastforce
  with assms g y have z: "z = Inr f" "o' = obj" "w2 = w'"
    by (cases z; auto simp: find_by_hash_def Let_def split: if_splits)+
  have d: "db w1 = db w" "store w1 = store w" using GetFileObjectByHash_core [OF g] by simp_all
  from first_file_same [OF q [unfolded GetUserFileByObjectID_def]] d z show ?thesis by (simp add: own_object_def)
qed

lemma find_requested_own:
  assumes "db_wf (collate e) (db w)" and "find_requested e u req w = (Inr (f, obj), w')"
  shows "db w' = db w \<and> store w' = store w
    \<and> (\<exists>k. own_object u w f k \<and> (fo_ID obj = k \<or> (\<exists>w1. db w1 = db w \<and> GetFileObjectById e k w1 = (Inr obj, w'))))"
  using assms(2) find_by_id_own [OF assms(1), of u "md_FileID req" f obj w'] find_by_hash_own [of e u "md_FileHash req" w f obj w']
  unfolding find_requested_def by (auto split: if_splits)


section \<open>Uploads of a session\<close>

text \<open>C21: a chunk is stored only in a session of the user, at an index inside the session: any other request
  is refused and leaves the database and the store as they were.\<close>
theorem chunk_upload_guarded:
  assumes "MultipartUploadChunk nt e u i sid chunk w = (r, w')"
  shows "(\<exists>code msg. r = Fail code msg) \<and> db w' = db w \<and> store w' = store w
    \<or> (\<exists>s n contents w1. s \<in> set (rows (sessions (db w))) \<and> us_UserID s = u \<and> collate e (us_UploadID s) = collate e sid
        \<and> Atoi i = Some n \<and> 0 \<le> n \<and> n < us_TotalChunks s \<and> chunk = Some contents \<and> db w1 = db w \<and> store w1 = store w
        \<and> (r, w') = answer nt '''' (UploadChunk e \<lparr>mc_UploadID = sid, mc_BucketName = BucketName (AppConfig e),
            mc_ChunkIndex = n, mc_Contents = contents\<rparr> w1))"
proof -
  obtain n where n: "Atoi i = Some n \<or> Atoi i = None" by (cases "Atoi i") auto
  obtain y w1 where g: "GetUploadSessionByUploadID e sid w = (y, w1)" by fastforce
  note q = query_rowD [OF g [unfolded GetUploadSessionByUploadID_def first_session_def]]
  show ?thesis
  proof (cases "Atoi i = None \<or> sid = ''''")
    case True
    with assms show ?thesis by (auto simp: MultipartUploadChunk_def split: option.splits)
  next
    case False
    with n have a: "Atoi i = Some n" "sid \<noteq> ''''" by auto
    show ?thesis
    proof (cases y)
      case (Inl err)
      with assms a g q show ?thesis by (auto simp: MultipartUploadChunk_def)
    next
      case (Inr s)
      with q have s: "s \<in> set (rows (sessions (db w)))" "collate e (us_UploadID s) = collate e sid"
        by (auto dest: first_row_SomeD)
      show ?thesis
      proof (cases "us_UserID s = u \<and> 0 \<le> n \<and> n < us_TotalChunks s \<and> chunk \<noteq> None")
        case False
        with assms a g q Inr show ?thesis
          by (auto simp: MultipartUploadChunk_def not_le not_less split: option.splits if_splits)
      next
        case True
        then obtain contents where c: "chunk = Some contents" by auto
        have "(r, w') = answer nt '''' (UploadChunk e \<lparr>mc_UploadID = sid, mc_BucketName = BucketName (AppConfig e),
            mc_ChunkIndex = n, mc_Contents = contents\<rparr> w1)"
          using assms True a g Inr c by (simp add: MultipartUploadChunk_def)
        moreover have "db w1 = db w" "store w1 = store w" using q by simp_all
        ultimately show ?thesis using True a(1) c s by blast
      qed
    qed
  qed
qed

lemma redis_now_drawn: "redis_now e (w\<lparr>drawn := n\<rparr>) k = redis_now e w k"
  by (simp add: redis_now_def cong: option.case_cong)

lemma Lock_busy:
  assumes "redis_now e w key \<noteq> None"
  shows "\<exists>err lk w2. Lock e (NewRedisLock key ttl) w = ((Inl err, lk), w2) \<and> db w2 = db w \<and> store w2 = store w \<and> redis w2 = redis w"
proof -
  obtain v where "redis_now e (w\<lparr>drawn := Suc (drawn w)\<rparr>) key = Some v" using assms by (auto simp: redis_now_drawn)
  then show ?thesis
    by (cases "fault e (requests w)")
       (simp_all add: Lock_def NewRedisLock_def GetToken_def redis_setnx_def attempt_def Let_def)
qed

text \<open>While another request holds the lock of the merge of a file, a request to complete the upload of the
  same file is refused, and changes neither the database, nor the store, nor the lock.\<close>
theorem busy_merge_refused:
  assumes "redis_now e w (merge_key u (mp_FileHash req)) \<noteq> None"
    and "MultipartComplete nt e u name (Inr req) w = (r, w')"
  shows "(\<exists>code msg. r = Fail code msg) \<and> db w' = db w \<and> store w' = store w \<and> redis w' = redis w"
proof -
  obtain y w1 where g: "GetUploadSessionByHash e u (mp_FileHash req) w = (y, w1)" by fastforce
  then have w1: "w1 = w\<lparr>requests := Suc (requests w)\<rparr>"
    by (auto simp: GetUploadSessionByHash_def last_session_def query_row_def attempt_def Let_def split: if_splits)
  show ?thesis
  proof (cases y)
    case (Inl err)
    with assms(2) g w1 show ?thesis by (auto simp: MultipartComplete_def)
  next
    case (Inr s)
    show ?thesis
    proof (cases "complete_request s req")
      case None
      with assms(2) g w1 Inr show ?thesis by (auto simp: MultipartComplete_def)
    next
      case (Some req')
      then have k: "mp_FileHash req' = mp_FileHash req"
        by (auto simp: complete_request_def Let_def split: if_splits)
      have "redis_now e w1 (merge_key u (mp_FileHash req)) \<noteq> None" using assms(1) by (simp add: w1)
      from Lock_busy [OF this, of merge_lease] obtain err lk w2
        where "Lock e (NewRedisLock (merge_key u (mp_FileHash req)) merge_lease) w1 = ((Inl err, lk), w2)"
          "db w2 = db w" "store w2 = store w" "redis w2 = redis w" by (auto simp: w1)
      with assms(2) g Inr Some k show ?thesis by (auto simp: MultipartComplete_def merge_locked_def)
    qed
  qed
qed

section \<open>Runs\<close>

lemma download1: "\<exists>n c w'. MinioDownloadFile_handler net0 env0 1 (Inr \<lparr>md_FileID = 3, md_FileHash = ''''\<rparr>) world1
    = (OK (n, c, ''abc''), w')"
proof -
  obtain w1 where c: "CheckFileOwner env0 1 3 world1 = (True, w1)" "db w1 = db world1" "store w1 = store world1" "redis w1 = []"
    by (simp add: CheckFileOwner_def count_files_def query_no_fault world1_defs)
  obtain w2 where g: "GetUserFileById env0 3 w1 = (Inr file3, w2)" "db w2 = db world1" "store w2 = store world1" "redis w2 = []"
    using c by (simp add: GetUserFileById_def first_file_def query_row_no_fault first_row_def world1_defs)
  obtain w3 where o: "GetFileObjectById env0 1 w2 = (Inr object1, w3)" "store w3 = store world1"
    using g by (simp add: GetFileObjectById_def GetFileObjectFromCache_def redis_get_def redis_now_def attempt_no_fault
        first_object_def query_row_no_fault first_row_def world1_defs)
  have k: "uf_ObjectID file3 = Some 1" by (simp add: file3_def new_file_def)
  have "find_requested env0 1 \<lparr>md_FileID = 3, md_FileHash = ''''\<rparr> world1 = (Inr (file3, object1), w3)"
    using c(1) [simplified] by (simp add: find_requested_def find_by_id_def g k o [simplified])
  moreover obtain w4 where "MinioDownloadObject env0 (fo_ObjectName object1) w3 = (Inr ''abc'', w4)"
    using o by (simp add: MinioDownloadObject_def GetObject_def attempt_no_fault obj_get_def world1_defs config0_def)
  ultimately show ?thesis by (simp add: MinioDownloadFile_handler_def Let_def)
qed


theorem chunk_upload_guarded_witness:
  "\<exists>code msg. fst (MultipartUploadChunk net0 env0 2 ''0'' ''U'' (Some ''x'') (world4 ''g'')) = Fail code msg"
proof -
  obtain r w' where r: "MultipartUploadChunk net0 env0 2 ''0'' ''U'' (Some ''x'') (world4 ''g'') = (r, w')" by fastforce
  have "\<forall>s\<in>set (rows (sessions (db (world4 ''g'')))). us_UserID s \<noteq> 2"
    by (simp add: world4_def world1_defs session4_def)
  with chunk_upload_guarded [OF r] r show ?thesis by auto
qed

theorem busy_merge_refused_witness:
  "\<exists>code msg. fst (MultipartComplete net0 env0 1 ''ann'' (Inr (complete4 ''g''))
     ((world4 ''g'')\<lparr>redis := [(merge_key 1 ''g'', (RText ''t'', None))]\<rparr>)) = Fail code msg"
proof -
  let ?w = "(world4 ''g'')\<lparr>redis := [(merge_key 1 ''g'', (RText ''t'', None))]\<rparr>"
  obtain r w' where r: "MultipartComplete net0 env0 1 ''ann'' (Inr (complete4 ''g'')) ?w = (r, w')" by fastforce
  have "redis_now env0 ?w (merge_key 1 (mp_FileHash (complete4 ''g''))) \<noteq> None" by (simp add: redis_now_def complete4_def)
  from busy_merge_refused [OF this r] r show ?thesis by auto
qed

end
