(* ===== verification/StorageNodes.thy ===== *)
theory StorageNodes
  imports Prelude "HOL-Library.AList"
begin

text \<open>
  The storage cluster (\<open>src/internal/storage/storage_cluster.go\<close>): the choice of a node, the upload with
  replicas, and the migration between nodes. A node is known by its position in the cluster; its
  client is the list of the objects it stores. \<open>fl n\<close> says whether the n-th request to a node fails.
\<close>

section \<open>Nodes\<close>

text \<open>The fields of \<open>MinioClusterConfig\<close> that the cluster reads, and the objects: (bucket, key) to contents.\<close>

record node =
  nd_Name :: string
  nd_Available :: bool
  nd_UsedSize :: int
  nd_TotalSize :: int
  nd_Objects :: "((string \<times> string) \<times> string) list"

record cluster =
  sc_Nodes :: "node list"
  sc_currentIdx :: nat
  sc_requests :: nat

record storage_config =
  ReplicaCount :: int
  LoadBalanceStrategy :: string
  MigrationThreshold :: int

definition node_at :: "cluster \<Rightarrow> nat \<Rightarrow> node" where
  "node_at sc i = sc_Nodes sc ! i"

definition change_node :: "nat \<Rightarrow> (node \<Rightarrow> node) \<Rightarrow> cluster \<Rightarrow> cluster" where
  "change_node i f sc = sc\<lparr>sc_Nodes := (sc_Nodes sc)[i := f (node_at sc i)]\<rparr>"

definition IsAvailable :: "node \<Rightarrow> bool" where
  "IsAvailable nd = nd_Available nd"

definition SetAvailable :: "bool \<Rightarrow> node \<Rightarrow> node" where
  "SetAvailable available nd = nd\<lparr>nd_Available := available\<rparr>"

definition UpdateUsedSize :: "int \<Rightarrow> node \<Rightarrow> node" where
  "UpdateUsedSize delta nd = nd\<lparr>nd_UsedSize := wrap64 (nd_UsedSize nd + delta)\<rparr>"

section \<open>Choosing a node\<close>

text \<open>The loop over the nodes from the current position on; \<open>n\<close> is the number of rounds that are left.\<close>

fun round_robin :: "nat \<Rightarrow> cluster \<Rightarrow> nat result \<times> cluster" where
  "round_robin 0 sc = (Inl (Errorf ''no available storage nodes''), sc)"
| "round_robin (Suc n) sc =
     (let i = sc_currentIdx sc; sc = sc\<lparr>sc_currentIdx := (i + 1) mod length (sc_Nodes sc)\<rparr> in
      if IsAvailable (node_at sc i) then (Inr i, sc) else round_robin n sc)"

definition selectRoundRobin :: "cluster \<Rightarrow> nat result \<times> cluster" where
  "selectRoundRobin sc = round_robin (length (sc_Nodes sc)) sc"

text \<open>\<open>minUsedSize\<close> starts at -1, which stands for no node yet.\<close>

fun least_used :: "(nat \<times> node) list \<Rightarrow> int \<Rightarrow> nat option \<Rightarrow> nat option" where
  "least_used [] minUsedSize selected = selected"
| "least_used ((i, nd) # nds) minUsedSize selected =
     (if \<not> IsAvailable nd then least_used nds minUsedSize selected
      else if minUsedSize = -1 \<or> nd_UsedSize nd < minUsedSize then least_used nds (nd_UsedSize nd) (Some i)
      else least_used nds minUsedSize selected)"

definition selectLeastConn :: "cluster \<Rightarrow> nat result" where
  "selectLeastConn sc = (case least_used (List.enumerate 0 (sc_Nodes sc)) (-1) None of
     None \<Rightarrow> Inl (Errorf ''no available storage nodes'') | Some i \<Rightarrow> Inr i)"

definition selectHash :: "cluster \<Rightarrow> nat result \<times> cluster" where
  "selectHash sc = selectRoundRobin sc"

definition SelectNode :: "storage_config \<Rightarrow> cluster \<Rightarrow> nat result \<times> cluster" where
  "SelectNode cfg sc =
     (if sc_Nodes sc = [] then (Inl (Errorf ''no available storage nodes''), sc)
      else if LoadBalanceStrategy cfg = ''round_robin'' then selectRoundRobin sc
      else if LoadBalanceStrategy cfg = ''least_conn'' then (selectLeastConn sc, sc)
      else if LoadBalanceStrategy cfg = ''hash'' then selectHash sc
      else selectRoundRobin sc)"

section \<open>Uploads with replicas\<close>

definition node_request :: "(nat \<Rightarrow> bool) \<Rightarrow> cluster \<Rightarrow> bool \<times> cluster" where
  "node_request fl sc = (\<not> fl (sc_requests sc), sc\<lparr>sc_requests := Suc (sc_requests sc)\<rparr>)"

definition node_put :: "(nat \<Rightarrow> bool) \<Rightarrow> nat \<Rightarrow> string \<times> string \<Rightarrow> string \<Rightarrow> cluster \<Rightarrow> bool \<times> cluster" where
  "node_put fl i k content sc = (case node_request fl sc of
     (ok, sc) \<Rightarrow> (ok, if ok then change_node i (\<lambda>nd. nd\<lparr>nd_Objects := AList.update k content (nd_Objects nd)\<rparr>) sc else sc))"

text \<open>One more replica, or a message in the log; \<open>seek\<close> is whether the reader could be rewound for it.\<close>

definition put_replica ::
  "storage_config \<Rightarrow> (nat \<Rightarrow> bool) \<Rightarrow> bool \<Rightarrow> string \<times> string \<Rightarrow> string \<Rightarrow> cluster \<Rightarrow> cluster" where
  "put_replica cfg fl seek k content sc =
     (case SelectNode cfg sc of
        (Inl _, sc) \<Rightarrow> sc
      | (Inr i, sc) \<Rightarrow>
          if \<not> seek then sc else
          (case node_put fl i k content sc of
             (ok, sc) \<Rightarrow> if ok then change_node i (UpdateUsedSize (int (length content))) sc else sc))"

definition UploadFileWithReplication ::
  "storage_config \<Rightarrow> (nat \<Rightarrow> bool) \<Rightarrow> (nat \<Rightarrow> bool) \<Rightarrow> string \<times> string \<Rightarrow> string \<Rightarrow> cluster \<Rightarrow> unit result \<times> cluster" where
  "UploadFileWithReplication cfg fl seek k content sc =
     (let replicaCount = min (ReplicaCount cfg) (int (length (sc_Nodes sc))) in
      case SelectNode cfg sc of
        (Inl err, sc) \<Rightarrow> (Inl err, sc)
      | (Inr i, sc) \<Rightarrow>
     (case node_put fl i k content sc of
        (ok, sc) \<Rightarrow> if \<not> ok then (Inl ServiceErr, sc) else
          (Inr (), fold (\<lambda>j. put_replica cfg fl (seek j) k content) [1..<nat replicaCount]
             (change_node i (UpdateUsedSize (int (length content))) sc))))"

section \<open>Migration\<close>

text \<open>One listed object: a key and a size. The steps that fail leave the object where it is.\<close>

definition migrate_object ::
  "(nat \<Rightarrow> bool) \<Rightarrow> string \<Rightarrow> nat \<Rightarrow> nat \<Rightarrow> string \<times> int \<Rightarrow> cluster \<Rightarrow> cluster" where
  "migrate_object fl bucket source target = (\<lambda>(key, size') sc.
     (case node_request fl sc of
        (ok, sc) \<Rightarrow>
     (case map_of (nd_Objects (node_at sc source)) (bucket, key) of
        None \<Rightarrow> sc
      | Some content \<Rightarrow> if \<not> ok then sc else
     (case node_put fl target (bucket, key) content sc of
        (ok, sc) \<Rightarrow> if \<not> ok then sc else
     (case node_request fl sc of
        (ok, sc) \<Rightarrow> if \<not> ok then sc else
          change_node target (UpdateUsedSize size')
            (change_node source (UpdateUsedSize (- size'))
              (change_node source (\<lambda>nd. nd\<lparr>nd_Objects := filter (\<lambda>kv. fst kv \<noteq> (bucket, key)) (nd_Objects nd)\<rparr>) sc)))))))"

text \<open>\<open>listing\<close> is what \<open>ListObjects\<close> of the client reports for a bucket of a node, without \<open>Recursive\<close>.\<close>

type_synonym listing = "((string \<times> string) \<times> string) list \<Rightarrow> string \<Rightarrow> (string \<times> int) list"

definition migrateFiles :: "(nat \<Rightarrow> bool) \<Rightarrow> listing \<Rightarrow> string \<Rightarrow> nat \<Rightarrow> nat \<Rightarrow> cluster \<Rightarrow> cluster" where
  "migrateFiles fl listing' bucket source target sc =
     fold (migrate_object fl bucket source target) (listing' (nd_Objects (node_at sc source)) bucket) sc"

text \<open>\<open>exceeds used total threshold\<close> is the comparison in \<open>float64\<close>; an empty total counts as a rate of zero.\<close>

definition over_threshold :: "(int \<Rightarrow> int \<Rightarrow> int \<Rightarrow> bool) \<Rightarrow> storage_config \<Rightarrow> node \<Rightarrow> bool" where
  "over_threshold exceeds cfg nd =
     (if nd_TotalSize nd = 0 then MigrationThreshold cfg < 0
      else exceeds (nd_UsedSize nd) (nd_TotalSize nd) (MigrationThreshold cfg))"

definition migrate_node ::
  "(int \<Rightarrow> int \<Rightarrow> int \<Rightarrow> bool) \<Rightarrow> storage_config \<Rightarrow> (nat \<Rightarrow> bool) \<Rightarrow> listing \<Rightarrow> string \<Rightarrow> nat \<Rightarrow> cluster \<Rightarrow> cluster" where
  "migrate_node exceeds cfg fl listing' bucket i sc =
     (if over_threshold exceeds cfg (node_at sc i) then
        (case selectLeastConn sc of
           Inl _ \<Rightarrow> sc
         | Inr target \<Rightarrow> if target = i then sc else migrateFiles fl listing' bucket i target sc)
      else sc)"

definition CheckAndMigrate ::
  "(int \<Rightarrow> int \<Rightarrow> int \<Rightarrow> bool) \<Rightarrow> storage_config \<Rightarrow> (nat \<Rightarrow> bool) \<Rightarrow> listing \<Rightarrow> string \<Rightarrow> cluster \<Rightarrow> cluster" where
  "CheckAndMigrate exceeds cfg fl listing' bucket sc =
     fold (migrate_node exceeds cfg fl listing' bucket) [0..<length (sc_Nodes sc)] sc"

section \<open>Round robin is fair\<close>

definition cluster_ok :: "cluster \<Rightarrow> bool" where
  "cluster_ok sc \<longleftrightarrow> sc_Nodes sc \<noteq> [] \<longrightarrow> sc_currentIdx sc < length (sc_Nodes sc)"

text \<open>The positions in the order in which they are tried.\<close>

definition turn :: "cluster \<Rightarrow> nat \<Rightarrow> nat" where
  "turn sc j = (sc_currentIdx sc + j) mod length (sc_Nodes sc)"

lemma round_robin_spec:
  assumes "cluster_ok sc" and "sc_Nodes sc \<noteq> []"
  shows "fst (round_robin n sc) = (case find (\<lambda>i. nd_Available (node_at sc i)) (map (turn sc) [0..<n]) of
      None \<Rightarrow> Inl (Errorf ''no available storage nodes'') | Some i \<Rightarrow> Inr i)"
  using assms
proof (induction n arbitrary: sc)
  case (Suc n)
  let ?L = "length (sc_Nodes sc)" and ?i = "sc_currentIdx sc"
  let ?sc = "sc\<lparr>sc_currentIdx := (?i + 1) mod ?L\<rparr>"
  have i: "?i < ?L" using Suc.prems by (simp add: cluster_ok_def)
  have t0: "turn sc 0 = ?i" using i by (simp add: turn_def)
  have t: "turn ?sc j = turn sc (Suc j)" for j by (simp add: turn_def mod_simps)
  have m: "map (turn sc) [0..<Suc n] = ?i # map (turn ?sc) [0..<n]"
    by (subst upt_conv_Cons) (simp_all add: t0 t [simplified] map_Suc_upt [symmetric] del: upt_Suc)
  have n: "node_at ?sc = node_at sc" by (simp add: node_at_def fun_eq_iff)
  have "cluster_ok ?sc" "sc_Nodes ?sc \<noteq> []" using Suc.prems by (simp_all add: cluster_ok_def)
  from Suc.IH [OF this] show ?case by (simp add: m n [simplified] Let_def IsAvailable_def del: upt_Suc)
qed simp

lemma turns_rotate: "sc_currentIdx sc \<le> length (sc_Nodes sc) \<Longrightarrow>
    map (turn sc) [0..<length (sc_Nodes sc)] = rotate (sc_currentIdx sc) [0..<length (sc_Nodes sc)]"
proof (rule nth_equalityI)
  fix j
  assume "j < length (map (turn sc) [0..<length (sc_Nodes sc)])"
  then have j: "j < length (sc_Nodes sc)" by simp
  then have "(sc_currentIdx sc + j) mod length (sc_Nodes sc) < length (sc_Nodes sc)" by (intro mod_less_divisor) linarith
  with j show "map (turn sc) [0..<length (sc_Nodes sc)] ! j = rotate (sc_currentIdx sc) [0..<length (sc_Nodes sc)] ! j"
    by (simp add: turn_def nth_rotate add.commute)
qed simp

text \<open>The choice in turn is the first available node from the current position on, around the ring; it
  fails only when no node is available.\<close>
theorem selectRoundRobin_ring:
  assumes "cluster_ok sc" and "sc_Nodes sc \<noteq> []"
  shows "fst (selectRoundRobin sc) =
      (case find (\<lambda>i. nd_Available (sc_Nodes sc ! i)) (rotate (sc_currentIdx sc) [0..<length (sc_Nodes sc)]) of
         None \<Rightarrow> Inl (Errorf ''no available storage nodes'') | Some i \<Rightarrow> Inr i)
    \<and> ((\<exists>err. fst (selectRoundRobin sc) = Inl err) \<longleftrightarrow> (\<forall>nd\<in>set (sc_Nodes sc). \<not> nd_Available nd))"
proof -
  let ?L = "length (sc_Nodes sc)"
  let ?ring = "rotate (sc_currentIdx sc) [0..<?L]"
  have r: "fst (selectRoundRobin sc) = (case find (\<lambda>i. nd_Available (sc_Nodes sc ! i)) ?ring of
      None \<Rightarrow> Inl (Errorf ''no available storage nodes'') | Some i \<Rightarrow> Inr i)"
    using round_robin_spec [OF assms, of ?L] turns_rotate [of sc] assms
    by (simp add: selectRoundRobin_def cluster_ok_def node_at_def)
  have "find (\<lambda>i. nd_Available (sc_Nodes sc ! i)) ?ring = None \<longleftrightarrow> (\<forall>nd\<in>set (sc_Nodes sc). \<not> nd_Available nd)"
    by (auto simp: find_None_iff in_set_conv_nth dest: nth_mem)
  then show ?thesis unfolding r by (auto split: option.splits)
qed

section \<open>The least used node\<close>

lemma least_used_None:
  "(s = None \<longrightarrow> m = -1) \<Longrightarrow> least_used nds m s = None \<longleftrightarrow> s = None \<and> (\<forall>x\<in>set nds. \<not> nd_Available (snd x))"
  by (induction nds m s rule: least_used.induct) (auto simp: IsAvailable_def)

lemma least_used_Some:
  "least_used nds m s = Some b \<Longrightarrow> \<forall>x\<in>set nds. 0 \<le> nd_UsedSize (snd x) \<Longrightarrow> (s = None \<and> m = -1) \<or> (s \<noteq> None \<and> 0 \<le> m)
    \<Longrightarrow> \<exists>v. (s = Some b \<and> v = m \<or> (\<exists>nd. (b, nd) \<in> set nds \<and> nd_Available nd \<and> v = nd_UsedSize nd))
      \<and> (\<forall>x\<in>set nds. nd_Available (snd x) \<longrightarrow> v \<le> nd_UsedSize (snd x)) \<and> (s \<noteq> None \<longrightarrow> v \<le> m)"
proof (induction nds m s rule: least_used.induct)
  case (1 m s)
  then show ?case by auto
next
  case (2 i nd nds m s)
  consider "\<not> IsAvailable nd" | "IsAvailable nd" "m = -1 \<or> nd_UsedSize nd < m" | "IsAvailable nd" "\<not> (m = -1 \<or> nd_UsedSize nd < m)"
    by blast
  then show ?case
  proof cases
    case 1
    with 2(1) [OF 1] 2(4-6) show ?thesis by (auto simp: IsAvailable_def)
  next
    case p: 2
    have l: "least_used nds (nd_UsedSize nd) (Some i) = Some b" and z: "\<forall>x\<in>set nds. 0 \<le> nd_UsedSize (snd x)" "0 \<le> nd_UsedSize nd"
      using p 2(4,5) by simp_all
    from 2(2) [OF _ p(2) l z(1)] p(1) z(2)
    obtain v where v: "Some i = Some b \<and> v = nd_UsedSize nd \<or> (\<exists>nd. (b, nd) \<in> set nds \<and> nd_Available nd \<and> v = nd_UsedSize nd)"
      "\<forall>x\<in>set nds. nd_Available (snd x) \<longrightarrow> v \<le> nd_UsedSize (snd x)" "v \<le> nd_UsedSize nd" by auto
    have "s \<noteq> None \<longrightarrow> v \<le> m" using v(3) p(2) 2(6) by auto
    moreover have "\<exists>nd'. (b, nd') \<in> set ((i, nd) # nds) \<and> nd_Available nd' \<and> v = nd_UsedSize nd'"
      using v(1) p(1) by (auto simp: IsAvailable_def)
    ultimately show ?thesis using v(2,3) by auto
  next
    case p: 3
    have l: "least_used nds m s = Some b" and z: "\<forall>x\<in>set nds. 0 \<le> nd_UsedSize (snd x)" using p 2(4,5) by simp_all
    from 2(3) [OF _ p(2) l z 2(6)] p(1)
    obtain v where v: "s = Some b \<and> v = m \<or> (\<exists>nd. (b, nd) \<in> set nds \<and> nd_Available nd \<and> v = nd_UsedSize nd)"
      "\<forall>x\<in>set nds. nd_Available (snd x) \<longrightarrow> v \<le> nd_UsedSize (snd x)" "s \<noteq> None \<longrightarrow> v \<le> m" by auto
    have "v \<le> nd_UsedSize nd" using v(3) p(2) 2(6) by auto
    with v show ?thesis by auto
  qed
qed

text \<open>The choice by use, as long as no recorded use is negative, is an available node with the least use,
  and fails only when no node is available.\<close>
theorem selectLeastConn_least:
  assumes "\<forall>nd\<in>set (sc_Nodes sc). 0 \<le> nd_UsedSize nd"
  shows "case selectLeastConn sc of
      Inl _ \<Rightarrow> (\<forall>nd\<in>set (sc_Nodes sc). \<not> nd_Available nd)
    | Inr i \<Rightarrow> i < length (sc_Nodes sc) \<and> nd_Available (sc_Nodes sc ! i)
        \<and> (\<forall>nd\<in>set (sc_Nodes sc). nd_Available nd \<longrightarrow> nd_UsedSize (sc_Nodes sc ! i) \<le> nd_UsedSize nd)"
proof -
  let ?e = "List.enumerate 0 (sc_Nodes sc)"
  have e: "snd ` set ?e = set (sc_Nodes sc)" by (metis list.set_map map_snd_enumerate)
  show ?thesis
  proof (cases "least_used ?e (-1) None")
    case None
    then have "\<forall>x\<in>set ?e. \<not> nd_Available (snd x)" by (simp add: least_used_None)
    with e have "\<forall>nd\<in>set (sc_Nodes sc). \<not> nd_Available nd" by (metis imageE)
    with None show ?thesis by (simp add: selectLeastConn_def)
  next
    case (Some b)
    have "\<forall>x\<in>set ?e. 0 \<le> nd_UsedSize (snd x)" using assms e by blast
    from least_used_Some [OF Some this] obtain nd where b: "(b, nd) \<in> set ?e" "nd_Available nd"
      "\<forall>x\<in>set ?e. nd_Available (snd x) \<longrightarrow> nd_UsedSize nd \<le> nd_UsedSize (snd x)" by auto
    from b(1) have "b < length (sc_Nodes sc)" "sc_Nodes sc ! b = nd" by (auto simp: in_set_enumerate_eq)
    moreover have "\<forall>nd'\<in>set (sc_Nodes sc). nd_Available nd' \<longrightarrow> nd_UsedSize nd \<le> nd_UsedSize nd'" using b(3) e by (metis imageE)
    ultimately show ?thesis using Some b(2) by (simp add: selectLeastConn_def)
  qed
qed

text \<open>A use of -1, as an unrecorded object leaves behind when it is migrated, reads as no node at all: the next
  available node is taken whatever its use.\<close>

lemma selectLeastConn_sentinel:
  "selectLeastConn \<lparr>sc_Nodes = [\<lparr>nd_Name = ''a'', nd_Available = True, nd_UsedSize = -1, nd_TotalSize = 9, nd_Objects = []\<rparr>,
     \<lparr>nd_Name = ''b'', nd_Available = True, nd_UsedSize = 8, nd_TotalSize = 9, nd_Objects = []\<rparr>],
     sc_currentIdx = 0, sc_requests = 0\<rparr> = Inr 1"
  by (simp add: selectLeastConn_def IsAvailable_def)

section \<open>Replicas\<close>

definition stored :: "cluster \<Rightarrow> nat \<Rightarrow> string \<times> string \<Rightarrow> string option" where
  "stored sc i k = map_of (nd_Objects (node_at sc i)) k"

lemma node_at_change: "i < length (sc_Nodes sc) \<Longrightarrow>
    node_at (change_node i f sc) j = (if j = i then f (node_at sc i) else node_at sc j)"
  by (simp add: node_at_def change_node_def)

lemma change_node_simps [simp]:
  "length (sc_Nodes (change_node i f sc)) = length (sc_Nodes sc)" "sc_currentIdx (change_node i f sc) = sc_currentIdx sc"
  "sc_requests (change_node i f sc) = sc_requests sc"
  by (simp_all add: change_node_def)

definition all_available :: "cluster \<Rightarrow> bool" where
  "all_available sc \<longleftrightarrow> (\<forall>i<length (sc_Nodes sc). nd_Available (node_at sc i))"

text \<open>After \<open>m\<close> uploads the first \<open>m\<close> positions in turn hold the object.\<close>

definition replicated :: "cluster \<Rightarrow> string \<times> string \<Rightarrow> string \<Rightarrow> nat \<Rightarrow> cluster \<Rightarrow> bool" where
  "replicated sc k content m sc' \<longleftrightarrow> length (sc_Nodes sc') = length (sc_Nodes sc) \<and> sc_currentIdx sc' = turn sc m
     \<and> all_available sc' \<and> (\<forall>j<m. stored sc' (turn sc j) k = Some content)"

lemma SelectNode_turn:
  assumes "LoadBalanceStrategy cfg \<noteq> ''least_conn''" and "all_available sc" and "sc_currentIdx sc < length (sc_Nodes sc)"
  shows "SelectNode cfg sc = (Inr (sc_currentIdx sc), sc\<lparr>sc_currentIdx := (sc_currentIdx sc + 1) mod length (sc_Nodes sc)\<rparr>)"
proof -
  obtain n where n: "length (sc_Nodes sc) = Suc n" using assms(3) by (cases "length (sc_Nodes sc)") auto
  have "IsAvailable (node_at (sc\<lparr>sc_currentIdx := x\<rparr>) (sc_currentIdx sc))" for x
    using assms(2,3) by (simp add: IsAvailable_def node_at_def all_available_def)
  then have "selectRoundRobin sc = (Inr (sc_currentIdx sc), sc\<lparr>sc_currentIdx := (sc_currentIdx sc + 1) mod length (sc_Nodes sc)\<rparr>)"
    by (simp add: selectRoundRobin_def n Let_def)
  with assms(1,3) show ?thesis by (auto simp: SelectNode_def selectHash_def)
qed

lemma store_replica:
  assumes "replicated sc k content m sc1" and "sc_currentIdx sc < length (sc_Nodes sc)" and "fl = (\<lambda>_. False)"
    and "sc2 = sc1\<lparr>sc_currentIdx := (sc_currentIdx sc1 + 1) mod length (sc_Nodes sc1)\<rparr>"
    and "node_put fl (sc_currentIdx sc1) k content sc2 = (ok, sc3)"
  shows "ok \<and> replicated sc k content (Suc m) (change_node (sc_currentIdx sc1) (UpdateUsedSize x) sc3)"
proof -
  let ?L = "length (sc_Nodes sc)" and ?i = "sc_currentIdx sc1"
  have L: "0 < ?L" using assms(2) by linarith
  have i: "?i < ?L" "?i = turn sc m" "length (sc_Nodes sc1) = ?L"
    using assms(1) L by (simp_all add: replicated_def turn_def)
  have sc3: "ok" "sc3 = change_node ?i (\<lambda>nd. nd\<lparr>nd_Objects := AList.update k content (nd_Objects nd)\<rparr>)
      (sc2\<lparr>sc_requests := Suc (sc_requests sc2)\<rparr>)"
    using assms(3,5) by (simp_all add: node_put_def node_request_def)
  have n2: "node_at (sc2\<lparr>sc_requests := y\<rparr>) j = node_at sc1 j" for j y by (simp add: assms(4) node_at_def)
  have l2: "length (sc_Nodes (sc2\<lparr>sc_requests := y\<rparr>)) = ?L" for y by (simp add: assms(4) i)
  define sc4 where "sc4 = change_node ?i (UpdateUsedSize x) sc3"
  have n4: "node_at sc4 j = (if j = ?i then UpdateUsedSize x ((node_at sc1 j)\<lparr>nd_Objects := AList.update k content (nd_Objects (node_at sc1 j))\<rparr>)
      else node_at sc1 j)" for j
    using i l2 by (auto simp: sc4_def sc3(2) node_at_change n2)
  have "all_available sc4"
    using assms(1) i l2 n4 by (auto simp: replicated_def all_available_def sc4_def sc3(2) UpdateUsedSize_def)
  moreover have "stored sc4 (turn sc j) k = Some content" if "j < Suc m" for j
    using that assms(1) i(2) n4 by (auto simp: stored_def replicated_def UpdateUsedSize_def update_conv' less_Suc_eq)
  moreover have "sc_currentIdx sc4 = turn sc (Suc m)" "length (sc_Nodes sc4) = ?L"
    using i l2 by (simp_all add: sc4_def sc3(2) assms(4) turn_def mod_simps)
  ultimately show ?thesis using sc3(1) by (simp add: replicated_def sc4_def)
qed

lemma put_replica_step:
  assumes "LoadBalanceStrategy cfg \<noteq> ''least_conn''" and "fl = (\<lambda>_. False)" and "sc_currentIdx sc < length (sc_Nodes sc)"
    and "replicated sc k content m sc1"
  shows "replicated sc k content (Suc m) (put_replica cfg fl True k content sc1)"
proof -
  have L: "0 < length (sc_Nodes sc)" using assms(3) by linarith
  have "all_available sc1" "sc_currentIdx sc1 < length (sc_Nodes sc1)"
    using assms(4) L by (simp_all add: replicated_def turn_def)
  from SelectNode_turn [OF assms(1) this] obtain ok sc3
    where s: "SelectNode cfg sc1 = (Inr (sc_currentIdx sc1), sc1\<lparr>sc_currentIdx := (sc_currentIdx sc1 + 1) mod length (sc_Nodes sc1)\<rparr>)"
      and p: "node_put fl (sc_currentIdx sc1) k content (sc1\<lparr>sc_currentIdx := (sc_currentIdx sc1 + 1) mod length (sc_Nodes sc1)\<rparr>) = (ok, sc3)"
    by fastforce
  from store_replica [OF assms(4,3,2) refl p] s p show ?thesis by (simp add: put_replica_def)
qed



section \<open>Migration loses nothing\<close>

text \<open>The objects that some node stores. The nodes agree when no two of them store different contents under a key.\<close>

definition cluster_contents :: "cluster \<Rightarrow> ((string \<times> string) \<times> string) set" where
  "cluster_contents sc = {(k, c). \<exists>i<length (sc_Nodes sc). stored sc i k = Some c}"

definition agreeing :: "cluster \<Rightarrow> bool" where
  "agreeing sc \<longleftrightarrow> (\<forall>i<length (sc_Nodes sc). \<forall>j<length (sc_Nodes sc). \<forall>k c d.
     stored sc i k = Some c \<longrightarrow> stored sc j k = Some d \<longrightarrow> c = d)"

definition keeps_contents :: "cluster \<Rightarrow> cluster \<Rightarrow> bool" where
  "keeps_contents sc sc' \<longleftrightarrow> length (sc_Nodes sc') = length (sc_Nodes sc) \<and> cluster_contents sc' = cluster_contents sc \<and> agreeing sc'"

lemma agreeingD: "agreeing sc \<Longrightarrow> i < length (sc_Nodes sc) \<Longrightarrow> j < length (sc_Nodes sc) \<Longrightarrow>
    stored sc i k = Some c \<Longrightarrow> stored sc j k = Some d \<Longrightarrow> c = d"
  unfolding agreeing_def by blast

lemma agreeing_contents: "agreeing sc \<longleftrightarrow> (\<forall>k c d. (k, c) \<in> cluster_contents sc \<longrightarrow> (k, d) \<in> cluster_contents sc \<longrightarrow> c = d)"
  unfolding agreeing_def cluster_contents_def by blast

lemma keeps_contents_refl: "agreeing sc \<Longrightarrow> keeps_contents sc sc"
  by (simp add: keeps_contents_def)

lemma keeps_contents_trans: "keeps_contents a b \<Longrightarrow> keeps_contents b c \<Longrightarrow> keeps_contents a c"
  by (simp add: keeps_contents_def)

text \<open>Copying an object to another node, and dropping it where another node has it too.\<close>

lemma copy_keeps:
  assumes "agreeing sc" and "length (sc_Nodes sc') = length (sc_Nodes sc)" and "i < length (sc_Nodes sc)"
    and "stored sc i k = Some c" and "t < length (sc_Nodes sc)"
    and "\<And>j. stored sc' j = (if j = t then (stored sc j)(k \<mapsto> c) else stored sc j)"
  shows "keeps_contents sc sc'"
proof -
  have "cluster_contents sc' = cluster_contents sc"
  proof (intro equalityI subsetI)
    fix x
    assume "x \<in> cluster_contents sc'"
    then obtain j where j: "j < length (sc_Nodes sc)" "stored sc' j (fst x) = Some (snd x)"
      using assms(2) by (auto simp: cluster_contents_def)
    show "x \<in> cluster_contents sc"
    proof (cases "j = t \<and> fst x = k")
      case True
      with j assms(6) have "x = (k, c)" by (simp add: prod_eq_iff)
      with assms(3,4) show ?thesis by (auto simp: cluster_contents_def)
    next
      case False
      with j assms(6) have "stored sc j (fst x) = Some (snd x)" by (auto split: if_splits)
      with j show ?thesis by (cases x) (auto simp: cluster_contents_def)
    qed
  next
    fix x
    assume "x \<in> cluster_contents sc"
    then obtain j where j: "j < length (sc_Nodes sc)" "stored sc j (fst x) = Some (snd x)"
      by (auto simp: cluster_contents_def)
    have "stored sc' j (fst x) = Some (snd x)"
    proof (cases "fst x = k")
      case True
      with j have "stored sc j k = Some (snd x)" by simp
      then have "snd x = c" using agreeingD [OF assms(1) j(1) assms(3) _ assms(4)] by blast
      with True j assms(6) show ?thesis by simp
    qed (use j assms(6) in auto)
    with j assms(2) show "x \<in> cluster_contents sc'" by (cases x) (auto simp: cluster_contents_def)
  qed
  with assms(1,2) show ?thesis by (simp add: keeps_contents_def agreeing_contents)
qed

lemma drop_keeps:
  assumes "agreeing sc" and "length (sc_Nodes sc') = length (sc_Nodes sc)" and "t < length (sc_Nodes sc)" and "t \<noteq> s"
    and "stored sc t k = Some c" and "s < length (sc_Nodes sc)"
    and "\<And>j. stored sc' j = (if j = s then (stored sc j)(k := None) else stored sc j)"
  shows "keeps_contents sc sc'"
proof -
  have "cluster_contents sc' = cluster_contents sc"
  proof (intro equalityI subsetI)
    fix x
    assume "x \<in> cluster_contents sc'"
    then show "x \<in> cluster_contents sc" using assms(2,7) by (auto simp: cluster_contents_def split: if_splits)
  next
    fix x
    assume "x \<in> cluster_contents sc"
    then obtain j where j: "j < length (sc_Nodes sc)" "stored sc j (fst x) = Some (snd x)"
      by (auto simp: cluster_contents_def)
    have "\<exists>i<length (sc_Nodes sc). stored sc' i (fst x) = Some (snd x)"
    proof (cases "j = s \<and> fst x = k")
      case True
      with j have "stored sc s k = Some (snd x)" by simp
      then have "snd x = c" using agreeingD [OF assms(1) assms(6,3) _ assms(5)] by blast
      with True assms show ?thesis by auto
    next
      case False
      with j assms(7) [of j] have "stored sc' j (fst x) = Some (snd x)" by (auto split: if_splits)
      with j(1) show ?thesis by blast
    qed
    with assms(2) show "x \<in> cluster_contents sc'" by (cases x) (auto simp: cluster_contents_def)
  qed
  with assms(1,2) show ?thesis by (simp add: keeps_contents_def agreeing_contents)
qed

lemma map_of_remove: "map_of (filter (\<lambda>kv. fst kv \<noteq> k) xs) = (map_of xs)(k := None)"
  by (induction xs) (auto simp: fun_eq_iff)

lemma stored_change: "i < length (sc_Nodes sc) \<Longrightarrow>
    stored (change_node i f sc) j = (if j = i then map_of (nd_Objects (f (node_at sc i))) else stored sc j)"
  by (auto simp: stored_def node_at_change fun_eq_iff)

lemma node_request_same: "node_request fl sc = (ok, sc') \<Longrightarrow> sc_Nodes sc' = sc_Nodes sc \<and> stored sc' = stored sc"
  by (auto simp: node_request_def stored_def node_at_def fun_eq_iff)

lemma same_stored_keeps: "agreeing sc \<Longrightarrow> length (sc_Nodes sc') = length (sc_Nodes sc) \<Longrightarrow> stored sc' = stored sc \<Longrightarrow> keeps_contents sc sc'"
  by (simp add: keeps_contents_def cluster_contents_def agreeing_def)

lemma migrate_object_keeps:
  assumes "agreeing sc" and "s < length (sc_Nodes sc)" and "t < length (sc_Nodes sc)" and "t \<noteq> s"
  shows "keeps_contents sc (migrate_object fl b s t ob sc)"
proof -
  obtain key size' where ob: "ob = (key, size')" by (cases ob)
  let ?k = "(b, key)"
  obtain ok1 sc1 where r1: "node_request fl sc = (ok1, sc1)" by fastforce
  note s1 = node_request_same [OF r1]
  have k1: "keeps_contents sc sc1" using same_stored_keeps [OF assms(1)] s1 by simp
  show ?thesis
  proof (cases "stored sc s ?k")
    case None
    with s1 k1 r1 show ?thesis by (simp add: migrate_object_def ob stored_def fun_eq_iff)
  next
    case (Some c)
    then have m1: "map_of (nd_Objects (node_at sc1 s)) ?k = Some c" using s1 by (simp add: stored_def fun_eq_iff)
    obtain ok2 sc2 where r2: "node_request fl sc1 = (ok2, sc2)" by fastforce
    note s2 = node_request_same [OF r2]
    let ?sc3 = "change_node t (\<lambda>nd. nd\<lparr>nd_Objects := AList.update ?k c (nd_Objects nd)\<rparr>) sc2"
    obtain ok4 sc4 where r4: "node_request fl ?sc3 = (ok4, sc4)" by fastforce
    note s4 = node_request_same [OF r4]
    have st3: "stored ?sc3 j = (if j = t then (stored sc j)(?k \<mapsto> c) else stored sc j)" for j
      using assms(3) s1 s2 by (simp add: stored_change update_conv' stored_def fun_eq_iff)
    have k2: "keeps_contents sc sc2" using same_stored_keeps [OF assms(1)] s1 s2 by simp
    have k3: "keeps_contents sc ?sc3" using copy_keeps [OF assms(1) _ assms(2) Some assms(3) st3] s1 s2 by simp
    have a3: "agreeing ?sc3" "length (sc_Nodes ?sc3) = length (sc_Nodes sc)" using k3 by (simp_all add: keeps_contents_def)
    have k4: "keeps_contents sc sc4"
      using keeps_contents_trans [OF k3 same_stored_keeps [OF a3(1)]] s4 by simp
    define sc5 where "sc5 = change_node t (UpdateUsedSize size') (change_node s (UpdateUsedSize (- size'))
        (change_node s (\<lambda>nd. nd\<lparr>nd_Objects := filter (\<lambda>kv. fst kv \<noteq> ?k) (nd_Objects nd)\<rparr>) sc4))"
    have l4: "length (sc_Nodes sc4) = length (sc_Nodes sc)" using k4 by (simp add: keeps_contents_def)
    have st5: "stored sc5 j = (if j = s then (stored sc4 j)(?k := None) else stored sc4 j)" for j
      using assms(2-4) l4 by (auto simp: sc5_def stored_change node_at_change UpdateUsedSize_def map_of_remove stored_def fun_eq_iff)
    have "stored sc4 t ?k = Some c" using s4 st3 by simp
    then have "keeps_contents sc4 sc5"
      using drop_keeps [OF _ _ _ assms(4) _ _ st5] k4 l4 assms(2,3) by (simp add: keeps_contents_def sc5_def)
    with k4 have k5: "keeps_contents sc sc5" by (rule keeps_contents_trans)
    show ?thesis
    proof (cases ok1)
      case False
      with r1 m1 k1 show ?thesis by (simp add: migrate_object_def ob)
    next
      case True
      show ?thesis
      proof (cases ok2)
        case False
        with True r1 r2 m1 k2 show ?thesis by (simp add: migrate_object_def ob node_put_def)
      next
        case t2: True
        with True r1 r2 r4 m1 k4 k5 show ?thesis by (simp add: migrate_object_def ob node_put_def sc5_def)
      qed
    qed
  qed
qed

lemma fold_keeps:
  assumes "\<And>x sc. x \<in> set xs \<Longrightarrow> agreeing sc \<Longrightarrow> length (sc_Nodes sc) = n \<Longrightarrow> keeps_contents sc (f x sc)"
    and "agreeing sc" and "length (sc_Nodes sc) = n"
  shows "keeps_contents sc (fold f xs sc)"
  using assms
proof (induction xs arbitrary: sc)
  case (Cons x xs)
  have k: "keeps_contents sc (f x sc)" using Cons.prems by simp
  then have "keeps_contents (f x sc) (fold f xs (f x sc))"
    by (intro Cons.IH) (use Cons.prems in \<open>auto simp: keeps_contents_def\<close>)
  with k show ?case by (auto intro: keeps_contents_trans)
qed (simp add: keeps_contents_refl)

lemma least_used_in: "least_used nds m s = Some b \<Longrightarrow> s = Some b \<or> b \<in> fst ` set nds"
  by (induction nds m s rule: least_used.induct) (force split: if_splits)+

lemma selectLeastConn_in: "selectLeastConn sc = Inr i \<Longrightarrow> i < length (sc_Nodes sc)"
  by (auto simp: selectLeastConn_def in_set_enumerate_eq split: option.splits dest!: least_used_in)


section \<open>Runs\<close>

definition node_a :: node where
  "node_a = \<lparr>nd_Name = ''a'', nd_Available = True, nd_UsedSize = 95, nd_TotalSize = 100, nd_Objects = [((''b'', ''k''), ''xyz'')]\<rparr>"

definition node_b :: node where
  "node_b = \<lparr>nd_Name = ''b'', nd_Available = True, nd_UsedSize = 10, nd_TotalSize = 100, nd_Objects = []\<rparr>"

definition two_nodes :: cluster where
  "two_nodes = \<lparr>sc_Nodes = [node_a, node_b], sc_currentIdx = 1, sc_requests = 0\<rparr>"

definition two_replicas :: storage_config where
  "two_replicas = \<lparr>ReplicaCount = 2, LoadBalanceStrategy = ''round_robin'', MigrationThreshold = 80\<rparr>"

lemma two_nodes_ok: "cluster_ok two_nodes" "sc_Nodes two_nodes \<noteq> []" "all_available two_nodes" "agreeing two_nodes"
proof -
  show "cluster_ok two_nodes" "sc_Nodes two_nodes \<noteq> []" "all_available two_nodes"
    by (auto simp: cluster_ok_def two_nodes_def all_available_def node_at_def nth_Cons' node_a_def node_b_def)
  show "agreeing two_nodes"
    by (auto simp: agreeing_def two_nodes_def stored_def node_at_def node_a_def node_b_def less_Suc_eq split: if_splits)
qed

lemma selectRoundRobin_ring_witness: "fst (selectRoundRobin two_nodes) = Inr 1"
  using selectRoundRobin_ring [OF two_nodes_ok(1,2)] by (simp add: two_nodes_def node_b_def rotate1_def)

lemma selectLeastConn_least_witness:
  "selectLeastConn two_nodes = Inr 1 \<and> (\<forall>nd\<in>set (sc_Nodes two_nodes). nd_Available nd \<longrightarrow> nd_UsedSize node_b \<le> nd_UsedSize nd)"
proof -
  have s: "selectLeastConn two_nodes = Inr 1"
    by (simp add: selectLeastConn_def two_nodes_def IsAvailable_def node_a_def node_b_def)
  have "\<forall>nd\<in>set (sc_Nodes two_nodes). 0 \<le> nd_UsedSize nd" by (simp add: two_nodes_def node_a_def node_b_def)
  from selectLeastConn_least [OF this] s show ?thesis by (simp add: two_nodes_def)
qed



end
