(* ===== verification/Settings.thy ===== *)
theory Settings
  imports GoNumbers
begin

text \<open>
  The configuration (\<open>src/config/config.go\<close>): the readers of environment variables, \<open>InitConfig\<close>, and the
  activation link of \<open>src/internal/handler/register.go\<close>, which is built from the environment and the request.
  The environment is a function from names to values, empty where a variable is not set. \<open>ParseDuration\<close> and
  \<open>ParseFloat\<close> of the standard library are parameters, \<open>'f\<close> is \<open>float64\<close>; durations are in nanoseconds.
\<close>

section \<open>Reading a variable\<close>

type_synonym environment = "string \<Rightarrow> string"

definition getEnv :: "environment \<Rightarrow> string \<Rightarrow> string \<Rightarrow> string" where
  "getEnv env key defaultValue = (let value = env key in if value \<noteq> [] then value else defaultValue)"

definition getEnvInt :: "environment \<Rightarrow> string \<Rightarrow> int \<Rightarrow> int" where
  "getEnvInt env key defaultValue =
     (let value = TrimSpace (env key) in
      if value = [] then defaultValue
      else (case Atoi value of None \<Rightarrow> defaultValue | Some parsed \<Rightarrow> parsed))"

definition getEnvFloat :: "(string \<Rightarrow> 'f option) \<Rightarrow> environment \<Rightarrow> string \<Rightarrow> 'f \<Rightarrow> 'f" where
  "getEnvFloat ParseFloat env key defaultValue =
     (let value = TrimSpace (env key) in
      if value = [] then defaultValue
      else (case ParseFloat value of None \<Rightarrow> defaultValue | Some parsed \<Rightarrow> parsed))"

definition getEnvBool :: "(string \<Rightarrow> string) \<Rightarrow> environment \<Rightarrow> string \<Rightarrow> bool \<Rightarrow> bool" where
  "getEnvBool unicodeLower env key defaultValue =
     (let value = TrimSpace (ToLower unicodeLower (env key)) in
      if value = [] then defaultValue
      else if value \<in> set [''1'', ''true'', ''yes'', ''y'', ''on''] then True
      else if value \<in> set [''0'', ''false'', ''no'', ''n'', ''off''] then False
      else defaultValue)"

definition getEnvInt64 :: "environment \<Rightarrow> string \<Rightarrow> int \<Rightarrow> int" where
  "getEnvInt64 env key defaultValue =
     (let value = TrimSpace (env key) in
      if value = [] then defaultValue
      else (case ParseInt value of None \<Rightarrow> defaultValue | Some parsed \<Rightarrow> parsed))"

text \<open>\<open>strings.Split\<close> at a single byte.\<close>

fun split_at :: "char \<Rightarrow> string \<Rightarrow> string \<Rightarrow> string list" where
  "split_at sep acc [] = [rev acc]"
| "split_at sep acc (c # s) = (if c = sep then rev acc # split_at sep [] s else split_at sep (c # acc) s)"

definition Split :: "string \<Rightarrow> char \<Rightarrow> string list" where
  "Split s sep = split_at sep [] s"

definition getEnvList :: "environment \<Rightarrow> string \<Rightarrow> string list \<Rightarrow> string list" where
  "getEnvList env key defaultValue =
     (let raw = TrimSpace (env key) in
      if raw = [] then defaultValue else
      let out = filter (\<lambda>part. part \<noteq> []) (map TrimSpace (Split raw (CHR '',''))) in
      if out = [] then defaultValue else out)"

text \<open>The loop over the parts; \<open>None\<close> is the return of the default at a part that does not parse.\<close>

fun parse_durations :: "(string \<Rightarrow> int option) \<Rightarrow> string list \<Rightarrow> int list option" where
  "parse_durations ParseDuration [] = Some []"
| "parse_durations ParseDuration (part # parts) =
     (let part = TrimSpace part in
      if part = [] then parse_durations ParseDuration parts
      else (case ParseDuration part of
              None \<Rightarrow> None
            | Some parsed \<Rightarrow> map_option ((#) parsed) (parse_durations ParseDuration parts)))"

definition getEnvDurationList :: "(string \<Rightarrow> int option) \<Rightarrow> environment \<Rightarrow> string \<Rightarrow> int list \<Rightarrow> int list" where
  "getEnvDurationList ParseDuration env key defaultValue =
     (let raw = TrimSpace (env key) in
      if raw = [] then defaultValue
      else (case parse_durations ParseDuration (Split raw (CHR '','')) of
              None \<Rightarrow> defaultValue
            | Some out \<Rightarrow> if out = [] then defaultValue else out))"

definition getEnvDuration :: "(string \<Rightarrow> int option) \<Rightarrow> environment \<Rightarrow> string \<Rightarrow> int \<Rightarrow> int" where
  "getEnvDuration ParseDuration env key defaultValue =
     (let raw = TrimSpace (env key) in
      if raw = [] then defaultValue
      else (case ParseDuration raw of None \<Rightarrow> defaultValue | Some parsed \<Rightarrow> parsed))"

section \<open>Escaping in URLs\<close>

text \<open>\<open>url.PathEscape\<close> and \<open>url.QueryEscape\<close>: they differ in the bytes that stay and in the space.\<close>

definition upperhex :: "nat \<Rightarrow> char" where
  "upperhex n = ''0123456789ABCDEF'' ! n"

definition percent :: "char \<Rightarrow> string" where
  "percent c = (let n = of_char c :: nat in [CHR ''%'', upperhex (n div 16), upperhex (n mod 16)])"

definition unreserved :: "char \<Rightarrow> bool" where
  "unreserved c = (let n = of_char c :: nat in
     48 \<le> n \<and> n \<le> 57 \<or> 65 \<le> n \<and> n \<le> 90 \<or> 97 \<le> n \<and> n \<le> 122 \<or> c \<in> set ''-_.~'')"

definition PathEscape :: "string \<Rightarrow> string" where
  "PathEscape s = concat (map (\<lambda>c. if unreserved c \<or> c \<in> set ''$&+:=@'' then [c] else percent c) s)"

definition QueryEscape :: "string \<Rightarrow> string" where
  "QueryEscape s = concat (map (\<lambda>c. if c = CHR '' '' then ''+'' else if unreserved c then [c] else percent c) s)"

section \<open>The configuration\<close>

text \<open>The fields of \<open>Config\<close> beside those the other components read.\<close>

record 'f full_config = config +
  JWTSecret :: string
  DBHost :: string
  DBPort :: string
  DBUser :: string
  DBPass :: string
  DBName :: string
  DBNameTest :: string
  RedisHost :: string
  RedisPort :: string
  RedisPassword :: string
  RedisDB :: int
  MinioHost :: string
  MinioPort :: string
  MinioUsername :: string
  MinioPassword :: string
  BucketNameTest :: string
  RabbitMQURL :: string
  RabbitMQHost :: string
  RabbitMQPort :: string
  RabbitMQUser :: string
  RabbitMQPass :: string
  RabbitMQVhost :: string
  RabbitMQPrefetch :: int
  DownloadWorkerConcurrency :: int
  DownloadRate :: 'f
  DownloadBurst :: int
  DownloadHTTPTimeout :: int

definition second :: int where
  "second = 1000000000"

definition amqp_url :: "string \<Rightarrow> string \<Rightarrow> string \<Rightarrow> string \<Rightarrow> string \<Rightarrow> string" where
  "amqp_url user pass host port vhost =
     ''amqp://'' @ PathEscape user @ '':'' @ PathEscape pass @ ''@'' @ host @ '':'' @ port @ ''/'' @ PathEscape vhost"

text \<open>\<open>InitConfig\<close>; \<open>two\<close> is the constant 2 at type \<open>float64\<close>.\<close>

definition InitConfig ::
  "(string \<Rightarrow> string) \<Rightarrow> (string \<Rightarrow> 'f option) \<Rightarrow> (string \<Rightarrow> int option) \<Rightarrow> 'f \<Rightarrow> environment \<Rightarrow> 'f full_config" where
  "InitConfig unicodeLower ParseFloat ParseDuration two env =
     (let test0 = getEnv env ''BUCKET_NAME_TEST'' [];
          bucketNameTest = (if test0 = [] then getEnv env ''BUCKET_NAMETEST'' ''CloudVault-test'' else test0);
          rabbitHost = getEnv env ''RABBITMQ_HOST'' ''localhost'';
          rabbitPort = getEnv env ''RABBITMQ_PORT'' ''5672'';
          rabbitUser = getEnv env ''RABBITMQ_USER'' ''guest'';
          rabbitPass = getEnv env ''RABBITMQ_PASSWORD'' ''guest'';
          rabbitVhost = getEnv env ''RABBITMQ_VHOST'' ''/'';
          url0 = getEnv env ''RABBITMQ_URL'' [];
          rabbitURL = (if url0 = [] then amqp_url rabbitUser rabbitPass rabbitHost rabbitPort rabbitVhost else url0);
          retryDelays = getEnvDurationList ParseDuration env ''DOWNLOAD_RETRY_DELAYS''
            [10 * second, 30 * second, 2 * 60 * second, 10 * 60 * second, 30 * 60 * second]
      in \<lparr>BucketName = getEnv env ''BUCKET_NAME'' ''netdisk'',
          DownloadRetryMax = getEnvInt env ''DOWNLOAD_RETRY_MAX'' 5,
          DownloadRetryDelays = retryDelays,
          DownloadAllowPrivate = getEnvBool unicodeLower env ''DOWNLOAD_ALLOW_PRIVATE'' False,
          DownloadAllowedHosts = getEnvList env ''DOWNLOAD_ALLOW_HOSTS'' [],
          DownloadMaxBytes = getEnvInt64 env ''DOWNLOAD_MAX_BYTES'' 0,
          JWTSecret = getEnv env ''JWT_SECRET'' ''l=ax+b'',
          DBHost = getEnv env ''DB_HOST'' ''localhost'',
          DBPort = getEnv env ''DB_PORT'' ''3306'',
          DBUser = getEnv env ''DB_USER'' ''root'',
          DBPass = getEnv env ''DB_PASS'' ''root'',
          DBName = getEnv env ''DB_NAME'' ''CloudVault'',
          DBNameTest = getEnv env ''DB_NAME_TEST'' ''CloudVault_test'',
          RedisHost = getEnv env ''REDIS_HOST'' ''localhost'',
          RedisPort = getEnv env ''REDIS_PORT'' ''6379'',
          RedisPassword = getEnv env ''REDIS_PASSWORD'' [],
          RedisDB = getEnvInt env ''REDIS_DB'' 0,
          MinioHost = getEnv env ''MINIO_HOST'' ''localhost'',
          MinioPort = getEnv env ''MINIO_PORT'' ''9000'',
          MinioUsername = getEnv env ''MINIO_USERNAME'' ''minioadmin'',
          MinioPassword = getEnv env ''MINIO_PASSWORD'' ''minioadmin'',
          BucketNameTest = bucketNameTest,
          RabbitMQURL = rabbitURL,
          RabbitMQHost = rabbitHost,
          RabbitMQPort = rabbitPort,
          RabbitMQUser = rabbitUser,
          RabbitMQPass = rabbitPass,
          RabbitMQVhost = rabbitVhost,
          RabbitMQPrefetch = getEnvInt env ''RABBITMQ_PREFETCH'' 8,
          DownloadWorkerConcurrency = getEnvInt env ''DOWNLOAD_WORKER_CONCURRENCY'' 4,
          DownloadRate = getEnvFloat ParseFloat env ''DOWNLOAD_RATE'' two,
          DownloadBurst = getEnvInt env ''DOWNLOAD_BURST'' 4,
          DownloadHTTPTimeout = getEnvDuration ParseDuration env ''DOWNLOAD_HTTP_TIMEOUT'' (30 * 60 * second)\<rparr>)"

section \<open>The activation link\<close>

definition TrimRight_slash :: "string \<Rightarrow> string" where
  "TrimRight_slash s = rev (dropWhile (\<lambda>c. c = CHR ''/'') (rev s))"

text \<open>\<open>tls\<close> is whether the request came over TLS, \<open>reqHost\<close> its host.\<close>

definition buildActivateLink :: "environment \<Rightarrow> bool \<Rightarrow> string \<Rightarrow> string \<Rightarrow> string" where
  "buildActivateLink env tls reqHost token =
     (let base0 = TrimSpace (env ''APP_BASE_URL'');
          baseURL = (if base0 = [] then (if tls then ''https'' else ''http'') @ ''://'' @ TrimSpace reqHost else base0)
      in TrimRight_slash baseURL @ ''/api/activate?token='' @ QueryEscape token)"

section \<open>An activation link carries its token\<close>

text \<open>How the server reads a query value: \<open>url.QueryUnescape\<close>.\<close>

definition unhex :: "char \<Rightarrow> nat option" where
  "unhex c = (let n = of_char c :: nat in
     if 48 \<le> n \<and> n \<le> 57 then Some (n - 48) else if 97 \<le> n \<and> n \<le> 102 then Some (n - 87)
     else if 65 \<le> n \<and> n \<le> 70 then Some (n - 55) else None)"

fun QueryUnescape :: "string \<Rightarrow> string option" where
  "QueryUnescape [] = Some []"
| "QueryUnescape (c # s) =
     (if c = CHR ''%'' then
        (case s of
           a # b # s' \<Rightarrow>
             (case (unhex a, unhex b) of
                (Some x, Some y) \<Rightarrow> map_option ((#) (char_of (16 * x + y))) (QueryUnescape s')
              | _ \<Rightarrow> None)
         | _ \<Rightarrow> None)
      else map_option ((#) (if c = CHR ''+'' then CHR '' '' else c)) (QueryUnescape s))"

lemma unhex_upperhex: "n < 16 \<Longrightarrow> unhex (upperhex n) = Some n"
proof -
  have "\<forall>n\<in>set [0..<16]. unhex (upperhex n) = Some n" by code_simp
  then show "n < 16 \<Longrightarrow> ?thesis" by simp
qed

lemma unescape_percent: "QueryUnescape (percent c @ s) = map_option ((#) c) (QueryUnescape s)"
proof -
  have n: "of_char c < (256 :: nat)" by simp
  then have "of_char c div 16 < (16 :: nat)" by (simp add: div_less_iff_less_mult)
  then show ?thesis by (simp add: percent_def Let_def unhex_upperhex)
qed

lemma QueryUnescape_escape: "QueryUnescape (QueryEscape s @ t) = map_option ((@) s) (QueryUnescape t)"
proof (induction s)
  case (Cons c s)
  have "QueryUnescape (QueryEscape (c # s) @ t) = map_option ((#) c) (QueryUnescape (QueryEscape s @ t))"
  proof (cases "c = CHR '' '' \<or> unreserved c")
    case True
    moreover have "\<not> unreserved CHR ''%'' \<and> \<not> unreserved CHR ''+'' \<and> \<not> unreserved CHR '' ''" by code_simp
    ultimately show ?thesis by (auto simp: QueryEscape_def)
  next
    case False
    then have "QueryEscape (c # s) = percent c @ QueryEscape s" by (simp add: QueryEscape_def)
    then show ?thesis by (simp add: unescape_percent)
  qed
  with Cons show ?case by (simp add: option.map_comp comp_def)
qed (simp add: QueryEscape_def option.map_ident)

lemma percent_chars: "x \<in> set (percent c) \<Longrightarrow> unreserved x \<or> x = CHR ''%''"
proof -
  have "\<forall>n\<in>set [0..<16]. unreserved (upperhex n)" by code_simp
  then have u: "n < 16 \<Longrightarrow> unreserved (upperhex n)" for n by simp
  have "of_char c < (256 :: nat)" by simp
  then have "of_char c div 16 < (16 :: nat)" by (simp add: div_less_iff_less_mult)
  with u show "x \<in> set (percent c) \<Longrightarrow> ?thesis" by (auto simp: percent_def Let_def)
qed

lemma QueryEscape_chars: "x \<in> set (QueryEscape s) \<Longrightarrow> unreserved x \<or> x = CHR ''%'' \<or> x = CHR ''+''"
  by (auto simp: QueryEscape_def split: if_splits dest: percent_chars)

text \<open>C36: an activation link ends in a query whose one parameter reads back as the token it was built from: the
  token's bytes can neither end the value nor begin another parameter or a fragment.\<close>
theorem activation_link_roundtrip:
  "\<exists>base value. buildActivateLink env tls reqHost token = base @ ''/api/activate?token='' @ value
     \<and> QueryUnescape value = Some token \<and> set value \<inter> set ''&=#;?/'' = {}"
proof -
  have "\<not> unreserved c \<and> c \<noteq> CHR ''%'' \<and> c \<noteq> CHR ''+''" if "c \<in> set ''&=#;?/''" for c
    using that by (auto simp: unreserved_def)
  then have "set (QueryEscape token) \<inter> set ''&=#;?/'' = {}" using QueryEscape_chars by blast
  moreover have "QueryUnescape (QueryEscape token) = Some token" using QueryUnescape_escape [of token "[]"] by simp
  ultimately show ?thesis unfolding buildActivateLink_def Let_def by blast
qed

section \<open>The documented defaults\<close>

text \<open>The tables of the README: a variable and the default it documents.\<close>

definition documented :: "(string \<times> string) list" where
  "documented =
     [(''JWT_SECRET'', ''l=ax+b''), (''DB_HOST'', ''localhost''), (''DB_PORT'', ''3306''), (''DB_USER'', ''root''),
      (''DB_PASS'', ''root''), (''DB_NAME'', ''CloudVault''), (''REDIS_HOST'', ''localhost''), (''REDIS_PORT'', ''6379''),
      (''REDIS_PASSWORD'', []), (''MINIO_HOST'', ''localhost''), (''MINIO_PORT'', ''9000''), (''MINIO_USERNAME'', ''minioadmin''),
      (''MINIO_PASSWORD'', ''minioadmin''), (''BUCKET_NAME'', ''netdisk''), (''RABBITMQ_HOST'', ''localhost''),
      (''RABBITMQ_PORT'', ''5672''), (''RABBITMQ_USER'', ''guest''), (''RABBITMQ_PASSWORD'', ''guest''), (''RABBITMQ_VHOST'', ''/''),
      (''DOWNLOAD_WORKER_CONCURRENCY'', ''4''), (''DOWNLOAD_RATE'', ''2''), (''DOWNLOAD_BURST'', ''4''),
      (''DOWNLOAD_RETRY_MAX'', ''5''), (''DOWNLOAD_RETRY_DELAYS'', ''10s,30s,2m,10m,30m''), (''DOWNLOAD_HTTP_TIMEOUT'', ''30m''),
      (''DOWNLOAD_ALLOW_PRIVATE'', ''false''), (''DOWNLOAD_MAX_BYTES'', ''0'')]"

text \<open>The environment without the variables of the tables.\<close>

definition without_documented :: "environment \<Rightarrow> environment" where
  "without_documented env = (\<lambda>key. if key \<in> fst ` set documented then [] else env key)"

definition documented_or_unset :: "environment \<Rightarrow> bool" where
  "documented_or_unset env \<longleftrightarrow> (\<forall>(key, value)\<in>set documented. env key = value \<or> env key = [])"

text \<open>What the tables' durations and rate read as.\<close>

definition parses_documented :: "(string \<Rightarrow> 'f option) \<Rightarrow> (string \<Rightarrow> int option) \<Rightarrow> 'f \<Rightarrow> bool" where
  "parses_documented ParseFloat ParseDuration two \<longleftrightarrow> ParseFloat ''2'' = Some two
     \<and> ParseDuration ''10s'' = Some (10 * second) \<and> ParseDuration ''30s'' = Some (30 * second)
     \<and> ParseDuration ''2m'' = Some (2 * 60 * second) \<and> ParseDuration ''10m'' = Some (10 * 60 * second)
     \<and> ParseDuration ''30m'' = Some (30 * 60 * second)"

lemma trimmed_defaults:
  "TrimSpace ''4'' = ''4''" "TrimSpace ''2'' = ''2''" "TrimSpace ''5'' = ''5''" "TrimSpace ''0'' = ''0''"
  "TrimSpace ''30m'' = ''30m''" "TrimSpace ''10s,30s,2m,10m,30m'' = ''10s,30s,2m,10m,30m''" "TrimSpace [] = []"
  "TrimSpace ''10s'' = ''10s''" "TrimSpace ''30s'' = ''30s''" "TrimSpace ''2m'' = ''2m''" "TrimSpace ''10m'' = ''10m''"
  "TrimSpace ''false'' = ''false''"
  by (rule TrimSpace_visible, simp add: visible_def)+

lemma read_defaults:
  "Split ''10s,30s,2m,10m,30m'' (CHR '','') = [''10s'', ''30s'', ''2m'', ''10m'', ''30m'']"
  "ToLower unicodeLower ''false'' = ''false''" "ToLower unicodeLower [] = []"
  "Atoi ''4'' = Some 4" "Atoi ''5'' = Some 5" "ParseInt ''0'' = Some 0"
  by (simp_all add: Split_def ToLower_def is_ascii_def lower_char_def Atoi_def ParseInt_def ParseUint_def digit_val_def)

lemma defaults_same:
  assumes "env key = value \<or> env key = []" and "env' key = []"
  shows "getEnv env key value = getEnv env' key value"
    and "TrimSpace value = value \<Longrightarrow> Atoi value = Some n \<Longrightarrow> getEnvInt env key n = getEnvInt env' key n"
    and "TrimSpace value = value \<Longrightarrow> ParseInt value = Some n \<Longrightarrow> getEnvInt64 env key n = getEnvInt64 env' key n"
    and "TrimSpace value = value \<Longrightarrow> ParseFloat value = Some x \<Longrightarrow> getEnvFloat ParseFloat env key x = getEnvFloat ParseFloat env' key x"
    and "TrimSpace value = value \<Longrightarrow> ParseDuration value = Some n \<Longrightarrow>
      getEnvDuration ParseDuration env key n = getEnvDuration ParseDuration env' key n"
    and "TrimSpace value = value \<Longrightarrow> parse_durations ParseDuration (Split value (CHR '','')) = Some ns \<Longrightarrow>
      getEnvDurationList ParseDuration env key ns = getEnvDurationList ParseDuration env' key ns"
  using assms by (auto simp: getEnv_def getEnvInt_def getEnvInt64_def getEnvFloat_def getEnvDuration_def getEnvDurationList_def
      Let_def trimmed_defaults(7))

lemma unset_same:
  assumes "env' key = env key"
  shows "getEnv env key d = getEnv env' key d" "getEnvInt env key n = getEnvInt env' key n"
    "getEnvList env key l = getEnvList env' key l"
  using assms by (simp_all add: getEnv_def getEnvInt_def getEnvList_def)

text \<open>The README's tables are true: setting a variable of theirs to the default it documents gives the
  configuration that leaving it unset gives.\<close>
theorem documented_defaults:
  assumes "documented_or_unset env" and "parses_documented ParseFloat ParseDuration two"
  shows "InitConfig unicodeLower ParseFloat ParseDuration two env
    = InitConfig unicodeLower ParseFloat ParseDuration two (without_documented env)"
proof -
  let ?clean = "without_documented env"
  have d: "env key = dflt \<or> env key = []" "?clean key = []" if "(key, dflt) \<in> set documented" for key dflt
    using assms(1) that by (force simp: documented_or_unset_def without_documented_def)+
  have oth: "?clean key = env key" if "key \<notin> fst ` set documented" for key using that by (simp add: without_documented_def)
  note dd = defaults_same [where env = env and env' = ?clean]
  have p: "parse_durations ParseDuration (Split ''10s,30s,2m,10m,30m'' (CHR '','')) =
      Some [10 * second, 30 * second, 2 * 60 * second, 10 * 60 * second, 30 * 60 * second]"
    using assms(2) by (simp add: read_defaults trimmed_defaults parses_documented_def)
  have b: "getEnvBool unicodeLower env ''DOWNLOAD_ALLOW_PRIVATE'' False = getEnvBool unicodeLower ?clean ''DOWNLOAD_ALLOW_PRIVATE'' False"
    using d [of "''DOWNLOAD_ALLOW_PRIVATE''" "''false''"] by (auto simp: documented_def getEnvBool_def read_defaults trimmed_defaults)
  have s: "getEnv env key dflt = getEnv ?clean key dflt" if "(key, dflt) \<in> set documented" for key dflt
    using dd(1) [OF d [OF that]] .
  have i: "getEnvInt env key n = getEnvInt ?clean key n"
    if "(key, dflt) \<in> set documented" "TrimSpace dflt = dflt" "Atoi dflt = Some n" for key dflt n
    using dd(2) [OF d [OF that(1)] that(2,3)] .
  have n: "''BUCKET_NAME_TEST'' \<notin> fst ` set documented" "''BUCKET_NAMETEST'' \<notin> fst ` set documented"
    "''RABBITMQ_URL'' \<notin> fst ` set documented" "''DOWNLOAD_ALLOW_HOSTS'' \<notin> fst ` set documented"
    "''DB_NAME_TEST'' \<notin> fst ` set documented" "''REDIS_DB'' \<notin> fst ` set documented"
    "''RABBITMQ_PREFETCH'' \<notin> fst ` set documented"
    by (simp_all add: documented_def)
  note uu = unset_same [where env = env and env' = ?clean]
  note u = uu [OF oth [OF n(1)]] uu [OF oth [OF n(2)]] uu [OF oth [OF n(3)]] uu [OF oth [OF n(4)]]
    uu [OF oth [OF n(5)]] uu [OF oth [OF n(6)]] uu [OF oth [OF n(7)]]
  have f: "getEnvFloat ParseFloat env ''DOWNLOAD_RATE'' two = getEnvFloat ParseFloat ?clean ''DOWNLOAD_RATE'' two"
    by (rule dd(4) [OF d [of _ "''2''"]]) (use assms(2) in \<open>simp_all add: documented_def trimmed_defaults parses_documented_def\<close>)
  have h: "getEnvDuration ParseDuration env ''DOWNLOAD_HTTP_TIMEOUT'' (30 * 60 * second) = getEnvDuration ParseDuration ?clean ''DOWNLOAD_HTTP_TIMEOUT'' (30 * 60 * second)"
    by (rule dd(5) [OF d [of _ "''30m''"]]) (use assms(2) in \<open>simp_all add: documented_def trimmed_defaults parses_documented_def\<close>)
  have r: "getEnvDurationList ParseDuration env ''DOWNLOAD_RETRY_DELAYS'' [10 * second, 30 * second, 2 * 60 * second, 10 * 60 * second, 30 * 60 * second]
      = getEnvDurationList ParseDuration ?clean ''DOWNLOAD_RETRY_DELAYS'' [10 * second, 30 * second, 2 * 60 * second, 10 * 60 * second, 30 * 60 * second]"
    by (rule dd(6) [OF d [of _ "''10s,30s,2m,10m,30m''"] _ p]) (simp_all add: documented_def trimmed_defaults)
  have m: "getEnvInt64 env ''DOWNLOAD_MAX_BYTES'' 0 = getEnvInt64 ?clean ''DOWNLOAD_MAX_BYTES'' 0"
    by (rule dd(3) [OF d [of _ "''0''"]]) (simp_all add: documented_def trimmed_defaults read_defaults)
  have i': "getEnvInt env ''DOWNLOAD_RETRY_MAX'' 5 = getEnvInt ?clean ''DOWNLOAD_RETRY_MAX'' 5"
    "getEnvInt env ''DOWNLOAD_WORKER_CONCURRENCY'' 4 = getEnvInt ?clean ''DOWNLOAD_WORKER_CONCURRENCY'' 4"
    "getEnvInt env ''DOWNLOAD_BURST'' 4 = getEnvInt ?clean ''DOWNLOAD_BURST'' 4"
    by (rule i [of _ "''5''"] i [of _ "''4''"], simp_all add: documented_def trimmed_defaults read_defaults)+
  show ?thesis unfolding InitConfig_def Let_def f h r m i' b u
    by (simp add: s documented_def)
qed

definition table_durations :: "(string \<times> int) list" where
  "table_durations = [(''10s'', 10 * second), (''30s'', 30 * second), (''2m'', 2 * 60 * second), (''10m'', 10 * 60 * second),
     (''30m'', 30 * 60 * second)]"

lemma documented_defaults_witness:
  "let env = (\<lambda>key. if key = ''DOWNLOAD_BURST'' then ''4'' else if key = ''DB_NAME_TEST'' then ''scratch'' else []);
       init = InitConfig (\<lambda>s. s) (\<lambda>s. if s = ''2'' then Some (2::nat) else None) (map_of table_durations) 2
   in init env = init (without_documented env) \<and> DBNameTest (init env) = ''scratch''"
proof -
  let ?env = "\<lambda>key. if key = ''DOWNLOAD_BURST'' then ''4'' else if key = ''DB_NAME_TEST'' then ''scratch'' else []"
  let ?pf = "\<lambda>s. if s = ''2'' then Some (2::nat) else None"
  have "documented_or_unset ?env" by (simp add: documented_or_unset_def documented_def)
  moreover have "parses_documented ?pf (map_of table_durations) 2" by (simp add: parses_documented_def table_durations_def)
  ultimately have "InitConfig (\<lambda>s. s) ?pf (map_of table_durations) 2 ?env
      = InitConfig (\<lambda>s. s) ?pf (map_of table_durations) 2 (without_documented ?env)" by (rule documented_defaults)
  moreover have "DBNameTest (InitConfig (\<lambda>s. s) ?pf (map_of table_durations) 2 ?env) = ''scratch''"
    by (simp add: InitConfig_def Let_def getEnv_def)
  ultimately show ?thesis unfolding Let_def by blast
qed

text \<open>A colon stays as it is in \<open>PathEscape\<close>: different credentials give the same URL, and a user name with a colon
  is read back as a shorter one with a longer password.\<close>

lemma amqp_url_ambiguous: "amqp_url ''a:b'' ''c'' host port vhost = amqp_url ''a'' ''b:c'' host port vhost"
  by (simp add: amqp_url_def PathEscape_def unreserved_def)

end
