(* ===== verification/Sharding.thy ===== *)
theory Sharding
  imports Settings "HOL-Library.Word" "HOL-Library.AList"
begin

text \<open>
  The sharding of the database (\<open>src/internal/repo/sharding.go\<close>): the manager with its connections by shard,
  the double-checked opening of a connection, and the table names. \<open>connect n\<close> says what \<open>gorm.Open\<close> and
  \<open>db.DB()\<close> answer at the n-th attempt. \<open>None\<close> is the panic of a division by zero.
\<close>

section \<open>The manager\<close>

text \<open>The default connection, or the one the n-th attempt made.\<close>

datatype connection = Db | ShardDb nat

record sharding_config =
  ShardCount :: int
  Enabled :: bool
  ShardKey :: string

text \<open>\<open>attempts\<close> and \<open>made\<close>, the data sources connected to, are the history that the statements are about.\<close>

record sharding_manager =
  sm_config :: sharding_config
  sm_databases :: "(nat \<times> connection) list"
  attempts :: nat
  made :: "(string \<times> connection) list"

text \<open>\<open>shardingOnce\<close> is done when the global manager is set.\<close>

definition InitShardingManager :: "int \<Rightarrow> bool \<Rightarrow> sharding_manager option \<Rightarrow> sharding_manager option" where
  "InitShardingManager shardCount enabled mgr = (case mgr of
     Some sm \<Rightarrow> Some sm
   | None \<Rightarrow> Some \<lparr>sm_config = \<lparr>ShardCount = shardCount, Enabled = enabled, ShardKey = ''user_id''\<rparr>,
       sm_databases = [], attempts = 0, made = []\<rparr>)"

definition GetShardingManager :: "sharding_manager option \<Rightarrow> sharding_manager option" where
  "GetShardingManager mgr = (if mgr = None then InitShardingManager 4 False mgr else mgr)"

text \<open>\<open>userID % uint64(ShardCount)\<close>\<close>

definition shard_index :: "sharding_config \<Rightarrow> 64 word \<Rightarrow> nat option" where
  "shard_index cfg userID = (let n = word_of_int (ShardCount cfg) :: 64 word in
     if n = 0 then None else Some (unat (userID mod n)))"

definition shardDBName :: "string \<Rightarrow> nat \<Rightarrow> string" where
  "shardDBName dbName shardIndex = dbName @ ''_shard_'' @ show_nat shardIndex"

definition shard_dsn :: "'f full_config \<Rightarrow> nat \<Rightarrow> string" where
  "shard_dsn app shardIndex =
     DBUser app @ '':'' @ DBPass app @ ''@tcp('' @ DBHost app @ '':'' @ DBPort app @ '')/''
     @ shardDBName (DBName app) shardIndex @ ''?charset=utf8mb4&parseTime=True&loc=Local''"

text \<open>The open can fail, and then the access to the pool behind it.\<close>

datatype attempt = OpenErr | PoolErr | Connected

definition createShardDB ::
  "(nat \<Rightarrow> attempt) \<Rightarrow> 'f full_config \<Rightarrow> nat \<Rightarrow> sharding_manager \<Rightarrow> connection result \<times> sharding_manager" where
  "createShardDB connect app shardIndex sm =
     (let n = attempts sm; sm = sm\<lparr>attempts := Suc n\<rparr> in
      case connect n of
        OpenErr \<Rightarrow> (Inl (Errorf (''failed to connect to shard database '' @ shardDBName (DBName app) shardIndex)), sm)
      | PoolErr \<Rightarrow> (Inl (Errorf ''failed to get database instance''), sm)
      | Connected \<Rightarrow> (Inr (ShardDb n), sm\<lparr>made := made sm @ [(shard_dsn app shardIndex, ShardDb n)]\<rparr>))"

text \<open>\<open>GetShardDB\<close> up to the release of the read lock: an answer, or the shard to open.\<close>

definition shard_fast :: "64 word \<Rightarrow> sharding_manager \<Rightarrow> (connection + nat) option" where
  "shard_fast userID sm =
     (if \<not> Enabled (sm_config sm) then Some (Inl Db)
      else (case shard_index (sm_config sm) userID of
              None \<Rightarrow> None
            | Some shardIndex \<Rightarrow> (case map_of (sm_databases sm) shardIndex of
                Some conn \<Rightarrow> Some (Inl conn)
              | None \<Rightarrow> Some (Inr shardIndex))))"

text \<open>The rest, under the write lock: the second check, and the connection.\<close>

definition shard_slow ::
  "(nat \<Rightarrow> attempt) \<Rightarrow> 'f full_config \<Rightarrow> nat \<Rightarrow> sharding_manager \<Rightarrow> connection \<times> sharding_manager" where
  "shard_slow connect app shardIndex sm = (case map_of (sm_databases sm) shardIndex of
     Some conn \<Rightarrow> (conn, sm)
   | None \<Rightarrow> (case createShardDB connect app shardIndex sm of
       (Inl _, sm) \<Rightarrow> (Db, sm)
     | (Inr conn, sm) \<Rightarrow> (conn, sm\<lparr>sm_databases := AList.update shardIndex conn (sm_databases sm)\<rparr>)))"

definition GetShardDB ::
  "(nat \<Rightarrow> attempt) \<Rightarrow> 'f full_config \<Rightarrow> 64 word \<Rightarrow> sharding_manager \<Rightarrow> (connection \<times> sharding_manager) option" where
  "GetShardDB connect app userID sm = (case shard_fast userID sm of
     None \<Rightarrow> None
   | Some (Inl conn) \<Rightarrow> Some (conn, sm)
   | Some (Inr shardIndex) \<Rightarrow> Some (shard_slow connect app shardIndex sm))"

definition GetTableName :: "sharding_manager \<Rightarrow> string \<Rightarrow> 64 word \<Rightarrow> string option" where
  "GetTableName sm baseTableName userID =
     (if \<not> Enabled (sm_config sm) then Some baseTableName
      else map_option (\<lambda>shardIndex. baseTableName @ ''_'' @ show_nat shardIndex) (shard_index (sm_config sm) userID))"

text \<open>
  \<open>CloseShardConnections\<close>, over the connections in the order of the map's iteration. \<open>pool conn\<close> is whether
  \<open>db.DB()\<close> answers, \<open>close conn\<close> the error of \<open>Close\<close>; the closed connections are returned beside the error.
\<close>

definition close_shard ::
  "(connection \<Rightarrow> bool) \<Rightarrow> (connection \<Rightarrow> err option) \<Rightarrow> nat \<times> connection \<Rightarrow> err option \<times> connection list \<Rightarrow> err option \<times> connection list" where
  "close_shard pool close = (\<lambda>(shardIndex, conn) (lastErr, closed).
     if \<not> pool conn then (lastErr, closed)
     else (case close conn of Some err \<Rightarrow> (Some err, closed) | None \<Rightarrow> (lastErr, closed @ [conn])))"

definition CloseShardConnections ::
  "(connection \<Rightarrow> bool) \<Rightarrow> (connection \<Rightarrow> err option) \<Rightarrow> sharding_manager \<Rightarrow> (err option \<times> connection list) \<times> sharding_manager" where
  "CloseShardConnections pool close sm =
     (fold (close_shard pool close) (sm_databases sm) (None, []), sm\<lparr>sm_databases := []\<rparr>)"

section \<open>Requests that run at the same time\<close>

text \<open>
  A request is at its start, between the two locks, done, or has panicked. Each of the two sections runs under
  a lock, so a step is one section of one request.
\<close>

datatype request = Asking "64 word" | Opening "64 word" nat | Got "64 word" connection | Panicked

type_synonym shard_state = "sharding_manager \<times> (nat \<Rightarrow> request)"

definition after_fast :: "64 word \<Rightarrow> (connection + nat) option \<Rightarrow> request" where
  "after_fast u r = (case r of None \<Rightarrow> Panicked | Some (Inl c) \<Rightarrow> Got u c | Some (Inr i) \<Rightarrow> Opening u i)"

inductive shard_step :: "(nat \<Rightarrow> attempt) \<Rightarrow> 'f full_config \<Rightarrow> shard_state \<Rightarrow> shard_state \<Rightarrow> bool"
  for connect :: "nat \<Rightarrow> attempt" and app :: "'f full_config" where
  look: "rq t = Asking u \<Longrightarrow> shard_step connect app (sm, rq) (sm, rq(t := after_fast u (shard_fast u sm)))"
| open_shard: "rq t = Opening u i \<Longrightarrow> shard_slow connect app i sm = (c, sm') \<Longrightarrow>
    shard_step connect app (sm, rq) (sm', rq(t := Got u c))"

inductive_cases shard_stepE: "shard_step connect app (sm, rq) s'"

inductive shard_reachable :: "(nat \<Rightarrow> attempt) \<Rightarrow> 'f full_config \<Rightarrow> sharding_config \<Rightarrow> shard_state \<Rightarrow> bool"
  for connect :: "nat \<Rightarrow> attempt" and app :: "'f full_config" and cfg :: sharding_config where
  start: "\<forall>t. \<exists>u. rq t = Asking u \<Longrightarrow>
    shard_reachable connect app cfg (\<lparr>sm_config = cfg, sm_databases = [], attempts = 0, made = []\<rparr>, rq)"
| move: "shard_reachable connect app cfg s \<Longrightarrow> shard_step connect app s s' \<Longrightarrow> shard_reachable connect app cfg s'"

section \<open>One connection per shard\<close>

lemma shardDBName_inj: "shardDBName d i = shardDBName d j \<Longrightarrow> i = j"
  by (simp add: shardDBName_def show_nat_inj)

lemma shard_dsn_inj: "inj (shard_dsn app)"
  by (rule injI) (auto simp: shard_dsn_def dest: shardDBName_inj)

text \<open>The connections made are those of the map, and a request has the connection of its shard or the default one.\<close>

definition request_ok :: "sharding_config \<Rightarrow> (nat \<times> connection) list \<Rightarrow> request \<Rightarrow> bool" where
  "request_ok cfg dbs r = (case r of
     Opening u i \<Rightarrow> shard_index cfg u = Some i
   | Got u c \<Rightarrow> c = Db \<or> (\<exists>i. shard_index cfg u = Some i \<and> map_of dbs i = Some c)
   | _ \<Rightarrow> True)"

definition shard_inv :: "'f full_config \<Rightarrow> sharding_config \<Rightarrow> shard_state \<Rightarrow> bool" where
  "shard_inv app cfg = (\<lambda>(sm, rq). sm_config sm = cfg \<and> distinct (map fst (sm_databases sm))
     \<and> made sm = map (\<lambda>(i, c). (shard_dsn app i, c)) (sm_databases sm) \<and> (\<forall>t. request_ok cfg (sm_databases sm) (rq t)))"

lemma update_new: "k \<notin> fst ` set xs \<Longrightarrow> AList.update k v xs = xs @ [(k, v)]"
  by (induction xs) auto

lemma shard_slow_cases:
  assumes "shard_slow connect app i sm = (c, sm')"
  obtains "map_of (sm_databases sm) i = Some c" "sm' = sm"
  | "map_of (sm_databases sm) i = None" "c = Db" "sm' = sm\<lparr>attempts := Suc (attempts sm)\<rparr>"
  | "map_of (sm_databases sm) i = None" "c = ShardDb (attempts sm)"
    "sm' = sm\<lparr>attempts := Suc (attempts sm), made := made sm @ [(shard_dsn app i, c)], sm_databases := sm_databases sm @ [(i, c)]\<rparr>"
proof (cases "map_of (sm_databases sm) i")
  case (Some d)
  with assms have "c = d" "sm' = sm" by (simp_all add: shard_slow_def)
  with Some show ?thesis using that(1) by blast
next
  case None
  then have u: "AList.update i x (sm_databases sm) = sm_databases sm @ [(i, x)]" for x
    by (simp add: map_of_eq_None_iff update_new)
  consider "connect (attempts sm) = Connected" | "connect (attempts sm) = OpenErr \<or> connect (attempts sm) = PoolErr"
    by (cases "connect (attempts sm)") simp_all
  then show ?thesis
  proof cases
    case 1
    with assms None have "c = ShardDb (attempts sm)" "sm' = sm\<lparr>attempts := Suc (attempts sm),
        made := made sm @ [(shard_dsn app i, c)], sm_databases := sm_databases sm @ [(i, c)]\<rparr>"
      by (auto simp: shard_slow_def createShardDB_def Let_def u)
    with None show ?thesis by (rule that(3))
  next
    case 2
    with assms None have "c = Db" "sm' = sm\<lparr>attempts := Suc (attempts sm)\<rparr>"
      by (auto simp: shard_slow_def createShardDB_def Let_def)
    with None show ?thesis by (rule that(2))
  qed
qed

lemma request_ok_later: "request_ok cfg dbs r \<Longrightarrow> request_ok cfg (dbs @ dbs2) r"
  by (auto simp: request_ok_def map_add_def split: request.splits option.splits)

lemma after_fast_ok: "sm_config sm = cfg \<Longrightarrow> request_ok cfg (sm_databases sm) (after_fast u (shard_fast u sm))"
  by (simp add: request_ok_def after_fast_def shard_fast_def split: option.split)

lemma shard_step_inv:
  assumes "shard_inv app cfg s" and "shard_step connect app s s'"
  shows "shard_inv app cfg s'"
  using assms(2,1)
proof (induction rule: shard_step.induct)
  case (look rq t u sm)
  then show ?case by (simp add: shard_inv_def after_fast_ok)
next
  case (open_shard rq t u i sm c sm')
  from open_shard(3) have inv: "sm_config sm = cfg" "distinct (map fst (sm_databases sm))"
    "made sm = map (\<lambda>(i, c). (shard_dsn app i, c)) (sm_databases sm)" "\<And>t. request_ok cfg (sm_databases sm) (rq t)"
    by (simp_all add: shard_inv_def)
  from inv(4) [of t] open_shard(1) have i: "shard_index cfg u = Some i" by (simp add: request_ok_def)
  from open_shard(2) show ?case
  proof (cases rule: shard_slow_cases)
    case 1
    with inv i show ?thesis by (simp add: shard_inv_def request_ok_def [of _ _ "Got u c"])
  next
    case 2
    with inv show ?thesis by (simp add: shard_inv_def request_ok_def [of _ _ "Got u Db"])
  next
    case 3
    then have "i \<notin> fst ` set (sm_databases sm)" by (simp add: map_of_eq_None_iff)
    moreover have "request_ok cfg (sm_databases sm @ [(i, c)]) (Got u c)"
      using 3(1) i by (simp add: request_ok_def map_add_def)
    ultimately show ?thesis using 3 inv by (simp add: shard_inv_def request_ok_later)
  qed
qed

lemma shard_reachable_inv: "shard_reachable connect app cfg s \<Longrightarrow> shard_inv app cfg s"
proof (induction rule: shard_reachable.induct)
  case (start rq)
  have "request_ok cfg [] (rq t)" for t
  proof -
    from start obtain u where "rq t = Asking u" by blast
    then show ?thesis by (simp add: request_ok_def)
  qed
  then show ?case by (simp add: shard_inv_def)
next
  case (move s s')
  then show ?case by (blast intro: shard_step_inv)
qed

text \<open>C31: in whatever order the requests take their locks, no shard is connected to twice, and two requests for
  one shard that get a connection to it get the same one.\<close>
theorem shard_opened_once:
  assumes "shard_reachable connect app cfg (sm, rq)"
  shows "distinct (map fst (made sm))
    \<and> (\<forall>t t' u v c d. rq t = Got u c \<and> rq t' = Got v d \<and> shard_index cfg u = shard_index cfg v \<and> c \<noteq> Db \<and> d \<noteq> Db \<longrightarrow> c = d)"
proof -
  have inv: "shard_inv app cfg (sm, rq)" using assms by (rule shard_reachable_inv)
  have "map fst (made sm) = map (shard_dsn app) (map fst (sm_databases sm))" using inv by (auto simp: shard_inv_def)
  moreover have "distinct (map (shard_dsn app) (map fst (sm_databases sm)))"
    using inv shard_dsn_inj by (simp add: shard_inv_def distinct_map inj_on_subset [OF shard_dsn_inj] del: map_map)
  moreover have "c = d" if "rq t = Got u c" "rq t' = Got v d" "shard_index cfg u = shard_index cfg v" "c \<noteq> Db" "d \<noteq> Db" for t t' u v c d
  proof -
    have ok: "request_ok cfg (sm_databases sm) (Got u c)" "request_ok cfg (sm_databases sm) (Got v d)"
      unfolding that(1,2) [symmetric] using inv by (simp_all add: shard_inv_def)
    with that(3-5) show ?thesis by (auto simp: request_ok_def)
  qed
  ultimately show ?thesis by auto
qed

section \<open>Routing\<close>

text \<open>With sharding on and a positive number of shards, a user's shard is the user's id modulo that number,
  the table of a user has the shard's number, and two users share a table if and only if they share a shard.\<close>
theorem shard_routing:
  assumes "Enabled (sm_config sm)" and "0 < ShardCount (sm_config sm)" and "int64_range (ShardCount (sm_config sm))"
  shows "shard_index (sm_config sm) u = Some (unat u mod nat (ShardCount (sm_config sm)))
    \<and> GetTableName sm base u = Some (base @ ''_'' @ show_nat (unat u mod nat (ShardCount (sm_config sm))))
    \<and> (GetTableName sm base u = GetTableName sm base v \<longleftrightarrow> shard_index (sm_config sm) u = shard_index (sm_config sm) v)"
proof -
  let ?n = "ShardCount (sm_config sm)"
  have u: "unat (word_of_int ?n :: 64 word) = nat ?n"
    using assms(2,3) by (simp add: int64_range_def unsigned_of_int take_bit_int_eq_self)
  then have "(word_of_int ?n :: 64 word) \<noteq> 0" using assms(2) by (metis nat_eq_iff2 not_less unsigned_0 zero_less_nat_eq less_irrefl)
  then have i: "shard_index (sm_config sm) x = Some (unat x mod nat ?n)" for x
    using u by (simp add: shard_index_def unat_mod_distrib)
  with assms(1) show ?thesis by (auto simp: GetTableName_def dest: show_nat_inj)
qed

text \<open>With a count of 0, as \<open>InitShardingManager\<close> accepts it, every request panics.\<close>

lemma no_shards_panic: "GetShardDB connect app u (the (InitShardingManager 0 True None)) = None"
  "GetTableName (the (InitShardingManager 0 True None)) base u = None"
  by (simp_all add: InitShardingManager_def GetShardDB_def shard_fast_def GetTableName_def shard_index_def)

section \<open>Runs\<close>

text \<open>Two requests for users 1 and 5 of the same of four shards both find it closed; the first one opens it.\<close>

definition four_shards :: sharding_config where
  "four_shards = \<lparr>ShardCount = 4, Enabled = True, ShardKey = ''user_id''\<rparr>"

definition app0 :: "nat full_config" where
  "app0 = InitConfig (\<lambda>s. s) (\<lambda>_. None) (\<lambda>_. None) 2 (\<lambda>_. [])"

definition raced :: shard_state where
  "raced = (\<lparr>sm_config = four_shards, sm_databases = [(1, ShardDb 0)], attempts = 1, made = [(shard_dsn app0 1, ShardDb 0)]\<rparr>,
     (\<lambda>t. Asking 1)(0 := Got 1 (ShardDb 0), 1 := Got 5 (ShardDb 0)))"

lemma raced_reachable: "shard_reachable (\<lambda>_. Connected) app0 four_shards raced"
proof -
  let ?sm = "\<lparr>sm_config = four_shards, sm_databases = [], attempts = 0, made = []\<rparr>"
  let ?sm1 = "fst raced"
  let ?q = "(\<lambda>t. Asking 1)(1 := Asking (5 :: 64 word))"
  have f: "shard_fast 1 ?sm = Some (Inr 1)" "shard_fast 5 ?sm = Some (Inr 1)"
    by (simp_all add: shard_fast_def four_shards_def shard_index_def) 
  have o1: "shard_slow (\<lambda>_. Connected) app0 1 ?sm = (ShardDb 0, ?sm1)" and o2: "shard_slow (\<lambda>_. Connected) app0 1 ?sm1 = (ShardDb 0, ?sm1)"
    by (simp_all add: shard_slow_def createShardDB_def raced_def Let_def)
  have "shard_reachable (\<lambda>_. Connected) app0 four_shards (?sm, ?q)" by (rule shard_reachable.start) auto
  then have "shard_reachable (\<lambda>_. Connected) app0 four_shards (?sm, ?q(0 := after_fast 1 (shard_fast 1 ?sm)))"
    by (rule shard_reachable.move) (rule shard_step.look, simp)
  then have "shard_reachable (\<lambda>_. Connected) app0 four_shards
      (?sm, ?q(0 := after_fast 1 (shard_fast 1 ?sm), 1 := after_fast 5 (shard_fast 5 ?sm)))"
    by (rule shard_reachable.move) (rule shard_step.look, simp)
  then have "shard_reachable (\<lambda>_. Connected) app0 four_shards (?sm, ?q(0 := Opening 1 1, 1 := Opening 5 1))"
    by (simp add: f after_fast_def)
  then have "shard_reachable (\<lambda>_. Connected) app0 four_shards (?sm1, ?q(0 := Opening 1 1, 1 := Opening 5 1, 0 := Got 1 (ShardDb 0)))"
    by (rule shard_reachable.move) (rule shard_step.open_shard [OF _ o1], simp)
  then have "shard_reachable (\<lambda>_. Connected) app0 four_shards
      (?sm1, ?q(0 := Opening 1 1, 1 := Opening 5 1, 0 := Got 1 (ShardDb 0), 1 := Got 5 (ShardDb 0)))"
    by (rule shard_reachable.move) (rule shard_step.open_shard [OF _ o2], simp)
  then show ?thesis by (simp add: raced_def fun_upd_twist)
qed

lemma shard_opened_once_witness: "made (fst raced) \<noteq> [] \<and> distinct (map fst (made (fst raced))) \<and> snd raced 0 \<noteq> snd raced 1"
  using shard_opened_once [of "\<lambda>_. Connected" app0 four_shards "fst raced" "snd raced"] raced_reachable by (simp add: raced_def)

lemma shard_routing_witness:
  "GetTableName (fst raced) ''user_file'' 5 = Some ''user_file_1'' \<and> GetTableName (fst raced) ''user_file'' 5 = GetTableName (fst raced) ''user_file'' 1"
proof -
  have c: "Enabled (sm_config (fst raced))" "0 < ShardCount (sm_config (fst raced))" "int64_range (ShardCount (sm_config (fst raced)))"
    by (simp_all add: raced_def four_shards_def int64_range_def)
  have "show_nat 1 = ''1''" by code_simp
  then have s: "Some (''user_file'' @ ''_'' @ show_nat (unat (5 :: 64 word) mod nat (ShardCount (sm_config (fst raced))))) = Some ''user_file_1''"
    by (simp add: raced_def four_shards_def)
  note r = shard_routing [OF c, of 5 "''user_file''" 1]
  have "shard_index (sm_config (fst raced)) 5 = shard_index (sm_config (fst raced)) 1"
    by (simp add: shard_index_def four_shards_def raced_def)
  with r s show ?thesis by argo
qed

end
