(* ===== verification/Startup.thy ===== *)
theory Startup
  imports Settings
begin

text \<open>
  The start of the services: the connection to MySQL, the index migration and the test database
  (\<open>src/internal/repo/mysql.go\<close>), the bucket of the object store and the signing of its links
  (\<open>src/internal/storage/minio.go\<close>). The MySQL and MinIO servers are parameters: a state \<open>'s\<close> and what a
  request to them answers in it. \<open>None\<close> is \<open>log.Fatal\<close>.
\<close>

section \<open>Indexes of user_file\<close>

text \<open>The names of the indexes; dropping and creating may fail, which is logged only.\<close>

definition old_index :: string where
  "old_index = ''uk_user_parent_name''"

definition new_index :: string where
  "new_index = ''uk_user_parent_name_active''"

definition migrateUserFileIndexes :: "bool \<Rightarrow> bool \<Rightarrow> string list \<Rightarrow> string list" where
  "migrateUserFileIndexes drop_ok create_ok ixs =
     (let ixs = (if old_index \<in> set ixs then if drop_ok then filter (\<lambda>i. i \<noteq> old_index) ixs else ixs else ixs)
      in if new_index \<notin> set ixs then if create_ok then ixs @ [new_index] else ixs else ixs)"

section \<open>The servers\<close>

text \<open>An error of the driver with its number, or any other error with its text.\<close>

datatype mysql_error = MySQLError nat string | OtherError string

record 's mysql_server =
  my_open :: "string \<Rightarrow> 's \<Rightarrow> mysql_error option \<times> 's"
  my_ping :: "string \<Rightarrow> 's \<Rightarrow> mysql_error option \<times> 's"
  my_exec :: "string \<Rightarrow> string \<Rightarrow> 's \<Rightarrow> mysql_error option \<times> 's"

definition mysql_dsn :: "'f full_config \<Rightarrow> string \<Rightarrow> string" where
  "mysql_dsn app dbName =
     DBUser app @ '':'' @ DBPass app @ ''@tcp('' @ DBHost app @ '':'' @ DBPort app @ '')/'' @ dbName
     @ ''?charset=utf8mb4&parseTime=True&loc=Local''"

text \<open>\<open>migrate\<close> stands for \<open>autoMigrateAll\<close>; the access to the pool behind a connection may fail too.\<close>

definition InitMysql :: "'s mysql_server \<Rightarrow> bool \<Rightarrow> ('s \<Rightarrow> 's) \<Rightarrow> 'f full_config \<Rightarrow> 's \<Rightarrow> 's option" where
  "InitMysql srv pool_ok migrate app s = (case my_open srv (mysql_dsn app (DBName app)) s of
     (Some _, s) \<Rightarrow> None
   | (None, s) \<Rightarrow> if \<not> pool_ok then None else Some (migrate s))"

definition quoteMySQLIdentifier :: "string \<Rightarrow> string" where
  "quoteMySQLIdentifier name = ''`'' @ ReplaceAll ''`'' ''``'' name @ ''`''"

definition isUnknownDatabaseError :: "(string \<Rightarrow> string) \<Rightarrow> mysql_error \<Rightarrow> bool" where
  "isUnknownDatabaseError unicodeLower err = (case err of
     MySQLError number _ \<Rightarrow> number = 1049
   | OtherError text' \<Rightarrow> sublist ''unknown database'' (ToLower unicodeLower text'))"

definition create_statement :: "string \<Rightarrow> string" where
  "create_statement dbName = ''CREATE DATABASE IF NOT EXISTS '' @ quoteMySQLIdentifier dbName
     @ '' CHARACTER SET utf8mb4 COLLATE utf8mb4_general_ci''"

text \<open>\<open>sql.Open\<close> only checks its arguments; \<open>open_err\<close> is its error.\<close>

definition ensureMySQLDatabase ::
  "'s mysql_server \<Rightarrow> mysql_error option \<Rightarrow> 'f full_config \<Rightarrow> string \<Rightarrow> 's \<Rightarrow> mysql_error option \<times> 's" where
  "ensureMySQLDatabase srv open_err app dbName s =
     (let dbName = TrimSpace dbName in
      if dbName = [] then (Some (OtherError ''empty database name''), s) else
      let serverDSN = mysql_dsn app [] in
      case open_err of Some err \<Rightarrow> (Some err, s) | None \<Rightarrow>
     (case my_ping srv serverDSN s of
        (Some err, s) \<Rightarrow> (Some err, s)
      | (None, s) \<Rightarrow> my_exec srv serverDSN (create_statement dbName) s))"

definition InitMysqlTest ::
  "'s mysql_server \<Rightarrow> mysql_error option \<Rightarrow> (string \<Rightarrow> string) \<Rightarrow> ('s \<Rightarrow> 's) \<Rightarrow> 'f full_config \<Rightarrow> 's \<Rightarrow> 's option" where
  "InitMysqlTest srv open_err unicodeLower migrate app s =
     (let dsn = mysql_dsn app (DBNameTest app) in
      case my_open srv dsn s of
        (None, s) \<Rightarrow> Some (migrate s)
      | (Some err, s) \<Rightarrow>
          if \<not> isUnknownDatabaseError unicodeLower err then None else
          (case ensureMySQLDatabase srv open_err app (DBNameTest app) s of
             (Some _, s) \<Rightarrow> None
           | (None, s) \<Rightarrow> (case my_open srv dsn s of (Some _, s) \<Rightarrow> None | (None, s) \<Rightarrow> Some (migrate s))))"

record 's minio_server =
  mi_exists :: "string \<Rightarrow> 's \<Rightarrow> bool result \<times> 's"
  mi_make :: "string \<Rightarrow> 's \<Rightarrow> unit result \<times> 's"

definition init_bucket :: "'s minio_server \<Rightarrow> bool \<Rightarrow> string \<Rightarrow> 's \<Rightarrow> 's option" where
  "init_bucket srv client_ok bucket s =
     (if \<not> client_ok then None else
      case mi_exists srv bucket s of
        (Inl _, s) \<Rightarrow> None
      | (Inr exists', s) \<Rightarrow> if exists' then Some s else
     (case mi_make srv bucket s of (Inl _, s) \<Rightarrow> None | (Inr _, s) \<Rightarrow> Some s))"

definition InitMinio :: "'s minio_server \<Rightarrow> bool \<Rightarrow> 'f full_config \<Rightarrow> 's \<Rightarrow> 's option" where
  "InitMinio srv client_ok app s = init_bucket srv client_ok (BucketName app) s"

definition InitMinioTest :: "'s minio_server \<Rightarrow> bool \<Rightarrow> 'f full_config \<Rightarrow> 's \<Rightarrow> 's option" where
  "InitMinioTest srv client_ok app s = init_bucket srv client_ok (BucketNameTest app) s"

section \<open>Presigned links\<close>

text \<open>\<open>PresignedGetObject\<close> of the client, with the query values it signs; the parameters that are empty are left out.\<close>

type_synonym presigner = "string \<Rightarrow> string \<Rightarrow> int \<Rightarrow> (string \<times> string) list \<Rightarrow> string result"

definition PresignedGetObject :: "presigner \<Rightarrow> string \<Rightarrow> string \<Rightarrow> int \<Rightarrow> string result" where
  "PresignedGetObject sign bucket object expiry' = sign bucket object expiry' []"

definition PresignedGetObjectWithResponse ::
  "presigner \<Rightarrow> string \<Rightarrow> string \<Rightarrow> int \<Rightarrow> (string \<times> string) list \<Rightarrow> string result" where
  "PresignedGetObjectWithResponse sign bucket object expiry' params =
     sign bucket object expiry' (filter (\<lambda>(key, val). val \<noteq> []) params)"

section \<open>The migration\<close>

text \<open>A migration whose statements succeed leaves the index over the live rows and not the one before it,
  touches no other index, and a second start changes nothing.\<close>
theorem index_migration:
  "new_index \<in> set (migrateUserFileIndexes True True ixs) \<and> old_index \<notin> set (migrateUserFileIndexes True True ixs)
    \<and> filter (\<lambda>i. i \<noteq> old_index \<and> i \<noteq> new_index) (migrateUserFileIndexes True True ixs) = filter (\<lambda>i. i \<noteq> old_index \<and> i \<noteq> new_index) ixs
    \<and> migrateUserFileIndexes drop_ok create_ok (migrateUserFileIndexes True True ixs) = migrateUserFileIndexes True True ixs"
proof -
  have "old_index \<noteq> new_index" by (simp add: old_index_def new_index_def)
  then show ?thesis by (auto simp: migrateUserFileIndexes_def Let_def filter_empty_conv cong: filter_cong)
qed

section \<open>Quoting\<close>

text \<open>How MySQL reads an identifier after the opening quote: a doubled quote stands for one, a single one ends it.\<close>

fun read_quoted :: "string \<Rightarrow> string \<Rightarrow> (string \<times> string) option" where
  "read_quoted acc [] = None"
| "read_quoted acc (c # s) =
     (if c \<noteq> CHR ''`'' then read_quoted (c # acc) s
      else (case s of
              [] \<Rightarrow> Some (rev acc, [])
            | d # s' \<Rightarrow> if d = CHR ''`'' then read_quoted (d # acc) s' else Some (rev acc, s)))"

lemma double_quotes: "ReplaceAll ''`'' ''``'' (c # s) = (if c = CHR ''`'' then ''``'' else [c]) @ ReplaceAll ''`'' ''``'' s"
  by (simp add: HasPrefix_def)

lemma read_doubled:
  "rest = [] \<or> hd rest \<noteq> CHR ''`'' \<Longrightarrow>
    read_quoted acc (ReplaceAll ''`'' ''``'' name @ ''`'' @ rest) = Some (rev acc @ name, rest)"
proof (induction name arbitrary: acc)
  case Nil
  then show ?case by (cases rest) auto
next
  case (Cons c name)
  from Cons.IH [OF Cons.prems, of "c # acc"] show ?case
    unfolding double_quotes by (cases "c = CHR ''`''") simp_all
qed

text \<open>The statement that creates the test database names exactly that database: whatever characters the
  configured name has, MySQL reads the quoted identifier back as the name, and the rest of the statement as it is written.\<close>
theorem create_statement_names_database:
  "\<exists>rest. create_statement dbName = ''CREATE DATABASE IF NOT EXISTS `'' @ rest
    \<and> read_quoted [] rest = Some (dbName, '' CHARACTER SET utf8mb4 COLLATE utf8mb4_general_ci'')"
proof -
  have "read_quoted [] (ReplaceAll ''`'' ''``'' dbName @ ''`'' @ '' CHARACTER SET utf8mb4 COLLATE utf8mb4_general_ci'')
      = Some (dbName, '' CHARACTER SET utf8mb4 COLLATE utf8mb4_general_ci'')"
    using read_doubled [of "'' CHARACTER SET utf8mb4 COLLATE utf8mb4_general_ci''" "[]"] by simp
  then show ?thesis
    by (intro exI [of _ "ReplaceAll ''`'' ''``'' dbName @ ''`'' @ '' CHARACTER SET utf8mb4 COLLATE utf8mb4_general_ci''"])
      (simp add: create_statement_def quoteMySQLIdentifier_def)
qed

end
