(* ===== verification/ActivityLoop.thy ===== *)
theory ActivityLoop
  imports Activity
begin

text \<open>
  The loop of the activity worker (\<open>RunActivityWorker\<close> of \<open>src/internal/worker/activity_worker.go\<close>) over the
  deliveries of the broker, and what a run of it counts: every event once, however often and in whatever order
  it is delivered. The order and the repetition of the deliveries are the broker's and an argument.
\<close>

section \<open>The loop\<close>

fun handle_deliveries :: "env \<Rightarrow> mq_body list \<Rightarrow> world \<Rightarrow> ack list \<times> world" where
  "handle_deliveries e [] w = ([], w)"
| "handle_deliveries e (b # bs) w =
     (let (a, w) = handleActivityMessage e b w; (as, w) = handle_deliveries e bs w in (a # as, w))"

text \<open>Dialling, declaring the topology, setting the prefetch and subscribing are requests that may fail.
  \<open>cancelled\<close> is whether the loop ended with its context rather than with the channel.\<close>

definition open_consumer :: "env \<Rightarrow> unit step" where
  "open_consumer e w =
     (case attempt e (\<lambda>w. (Inr (), w)) w of (Inl err, w) \<Rightarrow> (Inl err, w) | (Inr _, w) \<Rightarrow>
     (case attempt e (\<lambda>w. (Inr (), w)) w of (Inl err, w) \<Rightarrow> (Inl err, w) | (Inr _, w) \<Rightarrow>
     (case attempt e (\<lambda>w. (Inr (), w)) w of (Inl err, w) \<Rightarrow> (Inl err, w) | (Inr _, w) \<Rightarrow>
      attempt e (\<lambda>w. (Inr (), w)) w)))"

definition RunActivityWorker :: "env \<Rightarrow> bool \<Rightarrow> mq_body list \<Rightarrow> world \<Rightarrow> unit result \<times> ack list \<times> world" where
  "RunActivityWorker e cancelled deliveries w =
     (case open_consumer e w of
        (Inl err, w) \<Rightarrow> (Inl err, [], w)
      | (Inr _, w) \<Rightarrow>
          (let (acks, w) = handle_deliveries e deliveries w
           in (if cancelled then Inr () else Inl (Errorf ''activity worker: delivery channel closed''), acks, w)))"

section \<open>Every event is counted once\<close>

text \<open>The first delivery of every event, after those that were seen before.\<close>

fun firsts :: "string set \<Rightarrow> event list \<Rightarrow> event list" where
  "firsts seen [] = []"
| "firsts seen (ev # evs) =
     (if ev_EventID ev \<in> seen then firsts seen evs else ev # firsts (insert (ev_EventID ev) seen) evs)"

definition counted_for :: "env \<Rightarrow> nat \<Rightarrow> int \<Rightarrow> event list \<Rightarrow> increments list" where
  "counted_for e u day evs = map (\<lambda>ev. buildIncrements (ev_Action ev) (ev_FileBytes ev))
     (filter (\<lambda>ev. ev_UserID ev = u \<and> dayOf e (ev_OccurredAt ev) = day) evs)"

text \<open>The deduplication keys of the seen events are in Redis until \<open>deadline\<close> at least, and no other event has one.\<close>

definition dedup_state :: "int \<Rightarrow> string set \<Rightarrow> event list \<Rightarrow> world \<Rightarrow> bool" where
  "dedup_state deadline seen evs w \<longleftrightarrow> (\<forall>ev\<in>set evs.
     if ev_EventID ev \<in> seen then \<exists>x\<ge>deadline. map_of (redis w) (dedup_key ev) = Some (RText ''1'', Some x)
     else map_of (redis w) (dedup_key ev) = None)"

lemma dedup_key_eq: "dedup_key a = dedup_key b \<longleftrightarrow> ev_EventID a = ev_EventID b"
  by (simp add: dedup_key_def)

lemma redis_add_daily_reads: "reads w \<le> reads (snd (redis_add_daily e k inc w))"
  by (simp add: redis_add_daily_def attempt_def Let_def split: option.splits rval.splits)

lemma first_delivery:
  assumes "fault e = (\<lambda>_. False)" and "db_valid (collate e) (db w)" and "acceptable ev"
    and "map_of (redis w) (dedup_key ev) = None"
  shows "fst (handleActivityMessage e (EventMsg ev) w) = Ack"
    and "db_valid (collate e) (db (snd (handleActivityMessage e (EventMsg ev) w)))"
    and "reads w \<le> reads (snd (handleActivityMessage e (EventMsg ev) w))"
    and "map_of (redis (snd (handleActivityMessage e (EventMsg ev) w))) (dedup_key ev') =
      (if ev_EventID ev' = ev_EventID ev then Some (RText ''1'', Some (clock e (reads w) + eventDedupTTL))
       else map_of (redis w) (dedup_key ev'))"
    and "day_count (db (snd (handleActivityMessage e (EventMsg ev) w))) u day =
      foldl add_increments (day_count (db w) u day) (counted_for e u day [ev])"
proof -
  have now: "redis_now e w (dedup_key ev) = None" using assms(4) by (simp add: redis_now_def)
  let ?d = "dayOf e (ev_OccurredAt ev)" and ?inc = "buildIncrements (ev_Action ev) (ev_FileBytes ev)"
  let ?w1 = "w\<lparr>requests := Suc (requests w), reads := Suc (reads w),
      redis := AList.update (dedup_key ev) (RText ''1'', expiry (clock e (reads w)) eventDedupTTL) (redis w)\<rparr>"
  have v1: "db_valid (collate e) (db ?w1)" using assms(2) by simp
  let ?w2 = "snd (upsertDailyRow e (ev_UserID ev) ?d ?inc ?w1)"
  let ?w3 = "snd (redis_add_daily e (redisDailyKey e (ev_UserID ev) ?d) ?inc ?w2)"
  note up = upsertDailyRow_no_fault [OF assms(1) v1, of "ev_UserID ev" ?d ?inc]
  have h: "handleActivityMessage e (EventMsg ev) w = (Ack, ?w3)"
    using assms(1,3) now up
    by (simp add: handleActivityMessage_def ApplyEvent_def acceptable_def redis_setnx_no_fault Let_def)
  have "db ?w3 = db ?w2" using redis_add_daily_core [unfolded core_eq] by blast
  also have "db ?w2 = (db w)\<lparr>daily := upsert_daily (ev_UserID ev) ?d ?inc (clock e (Suc (reads w))) (daily (db w))\<rparr>"
    by (simp add: up)
  finally have d3: "db ?w3 = \<dots>" .
  have r2: "redis ?w2 = AList.update (dedup_key ev) (RText ''1'', expiry (clock e (reads w)) eventDedupTTL) (redis w)"
    by (simp add: up)
  have r3: "map_of (redis ?w3) (dedup_key ev') = map_of (redis ?w2) (dedup_key ev')"
    by (rule redis_add_daily_other) (simp add: daily_key_not_dedup [symmetric])
  show "fst (handleActivityMessage e (EventMsg ev) w) = Ack" by (simp add: h)
  show "db_valid (collate e) (db (snd (handleActivityMessage e (EventMsg ev) w)))"
    unfolding h snd_conv d3 using assms(2)
    by (intro db_valid_daily upsert_daily_unique) (simp_all add: db_valid_def)
  show "reads w \<le> reads (snd (handleActivityMessage e (EventMsg ev) w))"
    using redis_add_daily_reads [of ?w2 e "redisDailyKey e (ev_UserID ev) ?d" ?inc] by (simp add: h up)
  show "map_of (redis (snd (handleActivityMessage e (EventMsg ev) w))) (dedup_key ev') =
      (if ev_EventID ev' = ev_EventID ev then Some (RText ''1'', Some (clock e (reads w) + eventDedupTTL))
       else map_of (redis w) (dedup_key ev'))"
    unfolding h snd_conv r3 r2 by (simp add: map_of_update dedup_key_eq expiry_def eventDedupTTL_def day_ns_def)
  show "day_count (db (snd (handleActivityMessage e (EventMsg ev) w))) u day =
      foldl add_increments (day_count (db w) u day) (counted_for e u day [ev])"
    unfolding h snd_conv d3 by (simp add: day_count_upsert counted_for_def)
qed

lemma later_delivery:
  assumes "fault e = (\<lambda>_. False)" and "acceptable ev" and "map_of (redis w) (dedup_key ev) = Some (v, Some x)"
    and "clock e (reads w) < x"
  shows "fst (handleActivityMessage e (EventMsg ev) w) = Ack"
    and "db (snd (handleActivityMessage e (EventMsg ev) w)) = db w"
    and "redis (snd (handleActivityMessage e (EventMsg ev) w)) = redis w"
    and "reads (snd (handleActivityMessage e (EventMsg ev) w)) = Suc (reads w)"
proof -
  have "redis_now e w (dedup_key ev) = Some v" using assms(3,4) by (simp add: redis_now_def)
  then have "handleActivityMessage e (EventMsg ev) w =
      (Ack, w\<lparr>requests := Suc (requests w), reads := Suc (reads w)\<rparr>)"
    using assms(1,2)
    by (simp add: handleActivityMessage_def ApplyEvent_def acceptable_def redis_setnx_no_fault Let_def)
  then show "fst (handleActivityMessage e (EventMsg ev) w) = Ack"
    "db (snd (handleActivityMessage e (EventMsg ev) w)) = db w"
    "redis (snd (handleActivityMessage e (EventMsg ev) w)) = redis w"
    "reads (snd (handleActivityMessage e (EventMsg ev) w)) = Suc (reads w)" by simp_all
qed

lemma handle_deliveries_Cons:
  "handle_deliveries e (b # bs) w = (fst (handleActivityMessage e b w) # fst (handle_deliveries e bs (snd (handleActivityMessage e b w))),
     snd (handle_deliveries e bs (snd (handleActivityMessage e b w))))"
  by (simp add: case_prod_beta)

lemma counted_for_Cons: "counted_for e u day (ev # evs) = counted_for e u day [ev] @ counted_for e u day evs"
  by (simp add: counted_for_def)

lemma attempt_reads: "(\<And>w. reads w \<le> reads (snd (f w))) \<Longrightarrow> reads w \<le> reads (snd (attempt e f w))"
  by (simp add: attempt_def Let_def) (metis (no_types, lifting) world.select_convs(7) world.surjective world.update_convs(6))

lemma redis_setnx_reads: "redis_setnx e k v ttl w = (r, w') \<Longrightarrow> reads w \<le> reads w'"
  by (auto simp: redis_setnx_def attempt_def Let_def split: if_splits option.splits)

lemma redis_del_reads: "reads (snd (redis_del e ks w)) = reads w"
  by (simp add: redis_del_def attempt_def Let_def)

lemma upsertDailyRow_reads: "upsertDailyRow e u day inc w = (r, w') \<Longrightarrow> reads w \<le> reads w'"
  by (auto simp: upsertDailyRow_def timeNow_def execute_def attempt_def Let_def split: if_splits)

lemma applied_reads:
  "reads w \<le> reads (snd (case upsertDailyRow e u day inc w of
     (Inl err, w) \<Rightarrow> (Inl err, if s then snd (redis_del e ks w) else w)
   | (Inr _, w) \<Rightarrow> (Inr (), snd (redis_add_daily e k inc w))))"
  by (auto split: prod.splits sum.splits simp: redis_del_reads dest!: upsertDailyRow_reads
      intro: order_trans [OF _ redis_add_daily_reads])

lemma ApplyEvent_reads: "reads w \<le> reads (snd (ApplyEvent e ev w))"
proof -
  obtain t w1 where t: "(if ev_OccurredAt ev = 0 then timeNow e w else (ev_OccurredAt ev, w)) = (t, w1)" by fastforce
  then have w1: "reads w \<le> reads w1" by (auto simp: timeNow_def split: if_splits)
  obtain r w2 where x: "redis_setnx e (dedup_key ev) (RText ''1'') eventDedupTTL w1 = (r, w2)" by fastforce
  note w2 = redis_setnx_reads [OF x]
  show ?thesis
    using w1 w2 order_trans [OF w1 applied_reads] order_trans [OF order_trans [OF w1 w2] applied_reads]
    by (simp add: ApplyEvent_def t x Let_def split: sum.split)
qed

lemma deliveries_reads: "reads w \<le> reads (snd (handle_deliveries e bs w))"
proof (induction bs arbitrary: w)
  case (Cons b bs)
  have "reads w \<le> reads (snd (handleActivityMessage e b w))"
  proof (cases b)
    case (EventMsg ev)
    with ApplyEvent_reads [of w e ev] show ?thesis by (auto simp: handleActivityMessage_def split: prod.splits sum.splits)
  qed (simp_all add: handleActivityMessage_def)
  with Cons.IH [of "snd (handleActivityMessage e b w)"] show ?case unfolding handle_deliveries_Cons by simp
qed simp

lemma deliveries_counted:
  assumes "fault e = (\<lambda>_. False)" and "mono (clock e)" and "\<forall>ev\<in>set evs. acceptable ev"
    and "db_valid (collate e) (db w)" and "dedup_state deadline seen evs w" and "deadline \<le> clock e (reads w) + eventDedupTTL"
    and "clock e (reads (snd (handle_deliveries e (map EventMsg evs) w))) < deadline"
  shows "fst (handle_deliveries e (map EventMsg evs) w) = replicate (length evs) Ack
    \<and> day_count (db (snd (handle_deliveries e (map EventMsg evs) w))) u day =
        foldl add_increments (day_count (db w) u day) (counted_for e u day (firsts seen evs))"
  using assms(3-7)
proof (induction evs arbitrary: w seen)
  case Nil
  then show ?case by (simp add: counted_for_def)
next
  case (Cons ev evs)
  let ?w1 = "snd (handleActivityMessage e (EventMsg ev) w)"
  note step = handle_deliveries_Cons [of e "EventMsg ev" "map EventMsg evs" w]
  have acc: "acceptable ev" "\<forall>ev\<in>set evs. acceptable ev" using Cons.prems(1) by simp_all
  have fin: "clock e (reads (snd (handle_deliveries e (map EventMsg evs) ?w1))) < deadline" using Cons.prems(5) step by simp
  have "clock e (reads w) \<le> clock e (reads (snd (handle_deliveries e (map EventMsg (ev # evs)) w)))"
    using assms(2) deliveries_reads by (rule monoD)
  with Cons.prems(5) have now: "clock e (reads w) < deadline" by linarith
  show ?case
  proof (cases "ev_EventID ev \<in> seen")
    case True
    with Cons.prems(3) obtain x where x: "deadline \<le> x" "map_of (redis w) (dedup_key ev) = Some (RText ''1'', Some x)"
      by (auto simp: dedup_state_def)
    have "clock e (reads w) < x" using now x(1) by linarith
    note l = later_delivery [OF assms(1) acc(1) x(2) this]
    have "deadline \<le> clock e (reads ?w1) + eventDedupTTL"
      using Cons.prems(4) monoD [OF assms(2), of "reads w" "Suc (reads w)"] l(4) by simp
    moreover have "dedup_state deadline seen evs ?w1" using Cons.prems(3) l(3) by (simp add: dedup_state_def)
    ultimately show ?thesis
      using Cons.IH [OF acc(2), of ?w1 seen] Cons.prems(2) l(1,2) fin True
      by (simp del: handle_deliveries.simps add: step)
  next
    case False
    with Cons.prems(3) have n: "map_of (redis w) (dedup_key ev) = None" by (simp add: dedup_state_def)
    note f = first_delivery [OF assms(1) Cons.prems(2) acc(1) n]
    have "deadline \<le> clock e (reads ?w1) + eventDedupTTL"
      using Cons.prems(4) monoD [OF assms(2) f(3)] by linarith
    moreover have "dedup_state deadline (insert (ev_EventID ev) seen) evs ?w1"
      using Cons.prems(3,4) f(4) by (auto simp: dedup_state_def)
    ultimately have "fst (handle_deliveries e (map EventMsg evs) ?w1) = replicate (length evs) Ack
      \<and> day_count (db (snd (handle_deliveries e (map EventMsg evs) ?w1))) u day =
          foldl add_increments (day_count (db ?w1) u day) (counted_for e u day (firsts (insert (ev_EventID ev) seen) evs))"
      using Cons.IH [OF acc(2) f(2)] fin by blast
    moreover have "firsts seen (ev # evs) = ev # firsts (insert (ev_EventID ev) seen) evs" using False by simp
    ultimately show ?thesis
      using f(1) unfolding f(5) list.map step fst_conv snd_conv
        counted_for_Cons [of e u day ev "firsts (insert (ev_EventID ev) seen) evs"] foldl_append
      by (simp add: counted_for_Cons [of e u day ev "firsts (insert (ev_EventID ev) seen) evs"])
  qed
qed

lemma firsts_distinct: "distinct (map ev_EventID (firsts seen evs)) \<and> ev_EventID ` set (firsts seen evs) = ev_EventID ` set evs - seen
    \<and> set (firsts seen evs) \<subseteq> set evs"
  by (induction evs arbitrary: seen) (auto simp: image_iff)

lemma open_consumer_no_fault: "fault e = (\<lambda>_. False) \<Longrightarrow> open_consumer e w = (Inr (), w\<lparr>requests := requests w + 4\<rparr>)"
  by (simp add: open_consumer_def attempt_def)


text \<open>One event delivered twice.\<close>

lemma redelivered_run: "reads (snd (snd (RunActivityWorker env0 True (map EventMsg [ev0, ev0]) world0))) < 9"
  by code_simp


end
