(* ===== verification/Spec2Isabelle.thy ===== *)
theory Spec2Isabelle
  imports Listing Archive ShareAccess Transfers StorageNodes Sharding Startup ActivityLoop
begin

text \<open>
  CloudVault, a personal file store written in Go (\<open>src/\<close>): a verification of its services.

  The program. An HTTP server (\<open>router/\<close>, \<open>internal/handler/\<close>) and two workers (\<open>internal/worker/\<close>) act on four
  services: MySQL through gorm, Redis as cache, lock and message of expiry, MinIO as the object store, and RabbitMQ
  for download tasks and activity events. Contents are stored once per hash as a \<open>FileObject\<close> with a reference
  count; the files and folders of the users are rows of \<open>user_file\<close> that refer to an object and a parent. A user
  uploads in one request, in chunks, by hash or from a URL, moves, copies, renames, recycles and deletes, shares by
  link, and reads statistics that are counted from events.

  How it is modelled. The services are one record, \<open>world\<close>; the environment \<open>env\<close> says which requests fail, what the
  clock reads, which tokens are drawn and how strings collate. A Go function that returns \<open>(T, error)\<close> is a function
  into \<open>'t result \<times> world\<close>; its branches, early returns and ignored errors are those of the code, and a failed request
  leaves behind what was done before it, as the code runs no transactions. Every request to a service counts, so a
  fault can be put anywhere. Integers of Go are \<open>int\<close> with the wrap-around written out (\<open>wrap64\<close>) where it can happen;
  addresses and shards are words. Strings are their bytes. JSON texts are the values they encode.

  The theories, in the order of their imports.
  \<^item> \<open>Prelude\<close>: results, the rules that walk through an operation step by step, \<open>int64\<close>, lists of rows.
  \<^item> \<open>Models\<close>, \<open>Database\<close> (\<open>src/model/\<close>): the records, the tables with their keys, the unique indexes and foreign keys
    of the struct tags as the invariant \<open>db_wf\<close>. The locale \<open>keyed_table\<close> is interpreted for every table.
  \<^item> \<open>World\<close>, \<open>Tables\<close>: the services and the statements, each of which keeps \<open>db_wf\<close> or is refused.
  \<^item> \<open>Cache\<close> (\<open>utils/cache.go\<close>): Redis values, keys, expiry, the typed cache, deletion by pattern.
  \<^item> \<open>Mq\<close> (\<open>internal/mq/rabbitmq.go\<close>): exchanges, queues and bindings, the publisher.
  \<^item> \<open>Activity\<close>, \<open>ActivityLoop\<close> (\<open>internal/activity/\<close>, \<open>worker/activity_worker.go\<close>): events, deduplication, daily counts,
    the summary, the worker. An event is counted once however often it is delivered.
  \<^item> \<open>Storage\<close> (\<open>internal/storage/store.go\<close>, \<open>minio.go\<close>): the object store, with the locale \<open>object_store\<close>.
  \<^item> \<open>FileObjects\<close>, \<open>UserFiles\<close>, \<open>FileTree\<close>, \<open>FileOps\<close>, \<open>Copies\<close> (\<open>service/file_object.go\<close>, \<open>service/user_file.go\<close>): reference
    counts and the tree. \<open>ref_safe\<close> says no count is below the files that refer to the object, \<open>ref_exact\<close> that it is
    their number; deletion keeps the objects that are in use, moving keeps the tree.
  \<^item> \<open>Uploads\<close>, \<open>Completion\<close>: instant, chunked and completed uploads with every rollback; what was sent is read back.
  \<^item> \<open>GoStrings\<close>, \<open>GoNumbers\<close>: the functions of the standard library the code uses, and its sanitizers.
  \<^item> \<open>Users\<close> (\<open>utils/jwt.go\<close>, \<open>middle.go\<close>, \<open>pwd.go\<close>, \<open>service/user.go\<close>, \<open>user_profile.go\<close>, the handlers of registration and login).
  \<^item> \<open>Remote\<close>, \<open>Downloads\<close> (\<open>service/minio.go\<close>, \<open>task/\<close>, \<open>worker/download_worker.go\<close>): the vetting of URLs and addresses over
    redirects; download tasks, whose worker refines the state machine \<open>status_step\<close>.
  \<^item> \<open>Listing\<close> (\<open>GetFileList\<close>, \<open>service/search.go\<close>), \<open>Archive\<close> (\<open>service/archive.go\<close> and its handler).
  \<^item> \<open>Shares\<close>, \<open>ShareAccess\<close> (\<open>service/share_file.go\<close>, \<open>share_access.go\<close>, the expiry listener of \<open>repo/redis.go\<close>).
  \<^item> \<open>Library\<close> (\<open>service/user_library.go\<close>): favorites and recent accesses, with the locale \<open>upsert_table\<close>.
  \<^item> \<open>Locks\<close> (\<open>repo/redis.go\<close>): the Redis lock and its clients as a step relation.
  \<^item> \<open>Isolation\<close>: what a request does to the files of other users.
  \<^item> \<open>Handlers\<close>, \<open>Transfers\<close> (\<open>internal/handler/\<close>, \<open>router/router.go\<close>, \<open>utils/cors.go\<close>, \<open>utils/json.go\<close>): each handler from the
    identity and the bound request to a reply, and the routes with the guard in front of them.
  \<^item> \<open>StorageNodes\<close> (\<open>internal/storage/storage_cluster.go\<close>): nodes, replicas and migration.
  \<^item> \<open>Settings\<close> (\<open>config/config.go\<close>, the activation link of \<open>handler/register.go\<close>), \<open>Sharding\<close> (\<open>repo/sharding.go\<close>), \<open>Startup\<close>
    (\<open>repo/mysql.go\<close> and the start of \<open>storage/minio.go\<close>).

  What the theorems show. Invariants: reference counts under deletion, completion and copying; the tree under moves;
  one active link per file; ownership of library entries; contents under migration. Safety: isolation of users,
  guarded routes, own downloads and chunks, vetted addresses, shares opened only with their code and before their
  expiry, exclusive locks, one connection per shard, archive paths that stay inside. Round trips: uploads, shares,
  the recycle bin, registration and login, activation links. Equivalences and refinements: archives and the tree,
  the worker and its state machine, pages and the sorted listing, round robin and the ring. Termination, bounds of
  retries and of sums, error paths with redelivery. Theorems with counterexamples to what the code means to do
  stand beside them (copying a folder into itself, a lease that runs out, a task stranded by a timeout, a stale page
  after deletion, an expiry that wraps around).

  Fuel. Deleting, moving, copying and archiving recurse over rows that need not form a tree, so their functions carry
  fuel and \<open>None\<close> is a run that has not ended. On a tree, one more than the number of rows is enough for deletion and
  archives and two more for a move (\<open>DeleteFileRecord_ends\<close>, \<open>BuildArchiveEntries_ends\<close>, \<open>MoveFiles_ends\<close>). Copying a
  folder into itself ends for no fuel (\<open>CopyFiles_into_itself_diverges\<close>). All other loops are structural.

  Parameters. URL parsing, name resolution, remote servers, presigned links and the signature of tokens; bcrypt; the
  collation of MySQL, the tables of Unicode case, parsing of durations and floats, float comparisons; the mail and
  database servers at start-up; the bound bodies of requests. What is assumed of them is in the statement that uses it.

  Not modelled. The main functions (\<open>main.go\<close>, \<open>cmd/worker/main.go\<close>) and the loops that only wait for a delivery, a tick or
  a subscription and call a modelled function; the concurrency of the download worker's goroutines and its rate
  limiter; the composition of the mail (\<open>utils/email.go\<close>); \<open>AutoMigrate\<close>; the closing of connections to the broker; the JSON
  names of fields. Handlers run one after another, but for the lock and the sharding manager, whose interleavings are
  step relations. Rows that an \<open>ORDER BY\<close> leaves equal come in the order of the table.
\<close>

end
